(* ===== verification/Prelude.thy ===== *)
theory Prelude
  imports Complex_Main "HOL-Library.Multiset"
begin

text \<open>
  Shared vocabulary of the bisimulation development: the index types of the
  sparse model (states, choices and block ids are \<open>uint_fast64_t\<close> indices in
  the C++ code, \<open>nat\<close> here), the probability type (the exact instantiation of
  the value type, \<open>rat\<close>), a stable insertion sort parameterised by a strict
  "less" predicate (the model of \<open>std::sort\<close> with a comparator lambda), list
  segments (the iterator ranges \<open>[begin, end)\<close> of the C++ code), and the
  generic lemmas on these that the component theories share.
\<close>

named_theorems model_simps "evaluation rules of the model shared by the component proofs"

type_synonym state = nat
type_synonym choice = nat
type_synonym block_id = nat
type_synonym prob = rat

section \<open>Strict weak orders given as a less predicate\<close>

text \<open>
  C++ comparators are strict weak orders. The predicate below is the
  requirement \<open>std::sort\<close> places on its comparator, stated on a carrier set.
\<close>

definition strict_weak_order_on :: "'a set \<Rightarrow> ('a \<Rightarrow> 'a \<Rightarrow> bool) \<Rightarrow> bool" where
  "strict_weak_order_on A lt \<longleftrightarrow>
     (\<forall>x\<in>A. \<not> lt x x) \<and>
     (\<forall>x\<in>A. \<forall>y\<in>A. \<forall>z\<in>A. lt x y \<longrightarrow> lt y z \<longrightarrow> lt x z) \<and>
     (\<forall>x\<in>A. \<forall>y\<in>A. \<forall>z\<in>A. \<not> lt x y \<longrightarrow> \<not> lt y z \<longrightarrow> \<not> lt x z)"

lemma swo_irrefl [intro]: "strict_weak_order_on A lt \<Longrightarrow> x \<in> A \<Longrightarrow> \<not> lt x x"
  by (simp add: strict_weak_order_on_def)

lemma swo_trans: "strict_weak_order_on A lt \<Longrightarrow> x \<in> A \<Longrightarrow> y \<in> A \<Longrightarrow> z \<in> A \<Longrightarrow>
    lt x y \<Longrightarrow> lt y z \<Longrightarrow> lt x z"
  unfolding strict_weak_order_on_def by blast

lemma swo_neg_trans: "strict_weak_order_on A lt \<Longrightarrow> x \<in> A \<Longrightarrow> y \<in> A \<Longrightarrow> z \<in> A \<Longrightarrow>
    \<not> lt x y \<Longrightarrow> \<not> lt y z \<Longrightarrow> \<not> lt x z"
  unfolding strict_weak_order_on_def by blast

lemma swo_asym: "strict_weak_order_on A lt \<Longrightarrow> x \<in> A \<Longrightarrow> y \<in> A \<Longrightarrow>
    lt x y \<Longrightarrow> \<not> lt y x"
  by (meson swo_irrefl swo_trans)

lemma swo_subset: "strict_weak_order_on A lt \<Longrightarrow> B \<subseteq> A \<Longrightarrow> strict_weak_order_on B lt"
  unfolding strict_weak_order_on_def by blast

section \<open>Insertion sort by a less predicate\<close>

fun insort_by :: "('a \<Rightarrow> 'a \<Rightarrow> bool) \<Rightarrow> 'a \<Rightarrow> 'a list \<Rightarrow> 'a list" where
  "insort_by lt x [] = [x]"
| "insort_by lt x (y # ys) = (if lt y x then y # insort_by lt x ys else x # y # ys)"

definition sort_by :: "('a \<Rightarrow> 'a \<Rightarrow> bool) \<Rightarrow> 'a list \<Rightarrow> 'a list" where
  "sort_by lt xs = foldr (insort_by lt) xs []"

text \<open>A list is sorted by a strict less predicate when no element is less than one before it.\<close>

abbreviation sorted_by :: "('a \<Rightarrow> 'a \<Rightarrow> bool) \<Rightarrow> 'a list \<Rightarrow> bool" where
  "sorted_by lt xs \<equiv> sorted_wrt (\<lambda>x y. \<not> lt y x) xs"

lemma mset_insort_by [simp]: "mset (insort_by lt x xs) = add_mset x (mset xs)"
  by (induction xs) auto

lemma set_insort_by [simp]: "set (insort_by lt x xs) = insert x (set xs)"
  by (induction xs) auto

lemma length_insort_by [simp]: "length (insort_by lt x xs) = Suc (length xs)"
  by (induction xs) auto

lemma mset_sort_by [simp]: "mset (sort_by lt xs) = mset xs"
  by (induction xs) (simp_all add: sort_by_def)

lemma set_sort_by [simp]: "set (sort_by lt xs) = set xs"
  by (metis mset_sort_by set_mset_mset)

lemma length_sort_by [simp]: "length (sort_by lt xs) = length xs"
  by (metis mset_sort_by size_mset)

lemma sort_by_Cons [simp]: "sort_by lt (x # xs) = insort_by lt x (sort_by lt xs)"
  by (simp add: sort_by_def)

lemma sort_by_Nil [simp]: "sort_by lt [] = []"
  by (simp add: sort_by_def)

lemma sorted_insort_by:
  assumes swo: "strict_weak_order_on A lt"
    and "x \<in> A" "set xs \<subseteq> A" "sorted_by lt xs"
  shows "sorted_by lt (insort_by lt x xs)"
  using assms(2-)
proof (induction xs)
  case Nil
  then show ?case by simp
next
  case (Cons y ys)
  show ?case
  proof (cases "lt y x")
    case True
    then have "\<forall>z\<in>set ys. \<not> lt z y" using Cons.prems by simp
    moreover have "\<not> lt x y" using True swo Cons.prems swo_asym by fastforce
    ultimately show ?thesis using True Cons by auto
  next
    case False
    have "\<forall>z\<in>set ys. \<not> lt z x"
    proof
      fix z assume z: "z \<in> set ys"
      then have "\<not> lt z y" using Cons.prems(3) by simp
      moreover have "z \<in> A" "y \<in> A" using z Cons.prems(2) by auto
      ultimately show "\<not> lt z x" using False swo_neg_trans [OF swo] Cons.prems(1) by blast
    qed
    then show ?thesis using False Cons.prems by auto
  qed
qed

lemma sorted_sort_by:
  assumes "strict_weak_order_on A lt" "set xs \<subseteq> A"
  shows "sorted_by lt (sort_by lt xs)"
  using assms(2)
proof (induction xs)
  case (Cons x xs)
  then show ?case by (simp add: sorted_insort_by [OF assms(1)])
qed simp

section \<open>Segments of a list\<close>

text \<open>
  \<open>segment xs i j\<close> is the iterator range \<open>[xs.begin() + i, xs.begin() + j)\<close>;
  \<open>put_segment xs i ys\<close> writes \<open>ys\<close> back at offset \<open>i\<close>, as an in-place algorithm
  (\<open>std::sort\<close> on a sub-range) does.
\<close>

definition segment :: "'a list \<Rightarrow> nat \<Rightarrow> nat \<Rightarrow> 'a list" where
  "segment xs i j = take (j - i) (drop i xs)"

definition put_segment :: "'a list \<Rightarrow> nat \<Rightarrow> 'a list \<Rightarrow> 'a list" where
  "put_segment xs i ys = take i xs @ ys @ drop (i + length ys) xs"

lemma length_segment [simp]: "j \<le> length xs \<Longrightarrow> length (segment xs i j) = j - i"
  by (simp add: segment_def)

lemma nth_segment [simp]: "i + k < j \<Longrightarrow> j \<le> length xs \<Longrightarrow> segment xs i j ! k = xs ! (i + k)"
  by (simp add: segment_def)

lemma length_put_segment [simp]:
  "i + length ys \<le> length xs \<Longrightarrow> length (put_segment xs i ys) = length xs"
  by (simp add: put_segment_def)

lemma nth_put_segment:
  assumes "i + length ys \<le> length xs" "p < length xs"
  shows "put_segment xs i ys ! p = (if i \<le> p \<and> p < i + length ys then ys ! (p - i) else xs ! p)"
  using assms by (auto simp: put_segment_def nth_append min_def)

lemma segment_put_segment_same:
  "i + length ys \<le> length xs \<Longrightarrow> segment (put_segment xs i ys) i (i + length ys) = ys"
  by (simp add: segment_def put_segment_def)

lemma segment_put_segment_other:
  assumes "i + length ys \<le> length xs" "j \<le> k" "k \<le> length xs"
    and "k \<le> i \<or> i + length ys \<le> j"
  shows "segment (put_segment xs i ys) j k = segment xs j k"
proof (rule nth_equalityI)
  show "length (segment (put_segment xs i ys) j k) = length (segment xs j k)"
    using assms by simp
  fix p assume "p < length (segment (put_segment xs i ys) j k)"
  then have "j + p < k" using assms by simp
  then show "segment (put_segment xs i ys) j k ! p = segment xs j k ! p"
    using assms by (auto simp: nth_put_segment)
qed

lemma set_segment: "j \<le> length xs \<Longrightarrow> set (segment xs i j) = {xs ! p | p. i \<le> p \<and> p < j}"
proof -
  assume j: "j \<le> length xs"
  have "set (segment xs i j) = {segment xs i j ! k | k. k < j - i}"
    using j by (simp add: set_conv_nth)
  also have "\<dots> = {xs ! p | p. i \<le> p \<and> p < j}"
  proof (intro set_eqI iffI)
    fix y assume "y \<in> {segment xs i j ! k | k. k < j - i}"
    then obtain k where "k < j - i" "y = segment xs i j ! k" by blast
    then show "y \<in> {xs ! p | p. i \<le> p \<and> p < j}" using j
      by (intro CollectI exI [of _ "i + k"]) simp
  next
    fix y assume "y \<in> {xs ! p | p. i \<le> p \<and> p < j}"
    then obtain p where "i \<le> p" "p < j" "y = xs ! p" by blast
    then show "y \<in> {segment xs i j ! k | k. k < j - i}" using j
      by (intro CollectI exI [of _ "p - i"]) simp
  qed
  finally show ?thesis .
qed

section \<open>Writing one value at many indices\<close>

lemma length_fold_update [simp]: "length (fold (\<lambda>x l. l[x := v]) xs l) = length l"
  by (induction xs arbitrary: l) auto

lemma nth_fold_update:
  "i < length l \<Longrightarrow> fold (\<lambda>x l. l[x := v]) xs l ! i = (if i \<in> set xs then v else l ! i)"
  by (induction xs arbitrary: l) (auto simp: nth_list_update)

section \<open>Strict orders\<close>

text \<open>The inverse image of a strict linear order is a strict weak order.\<close>

lemma swo_inv_image:
  assumes irr: "\<forall>x. (x, x) \<notin> T" and tr: "trans T"
    and lin: "\<forall>x y. (x, y) \<in> T \<or> x = y \<or> (y, x) \<in> T"
  shows "strict_weak_order_on A (\<lambda>a b. (F a, F b) \<in> T)"
  unfolding strict_weak_order_on_def
proof (intro conjI ballI impI)
  fix x assume "x \<in> A" then show "(F x, F x) \<notin> T" using irr by blast
next
  fix x y z assume "(F x, F y) \<in> T" "(F y, F z) \<in> T"
  then show "(F x, F z) \<in> T" by (rule transD [OF tr])
next
  fix x y z assume xy: "(F x, F y) \<notin> T" and yz: "(F y, F z) \<notin> T"
  show "(F x, F z) \<notin> T"
  proof
    assume xz: "(F x, F z) \<in> T"
    consider "F x = F y" | "(F y, F x) \<in> T" using xy lin [rule_format, of "F x" "F y"] by fast
    then show False
    proof cases
      case 1 then show False using xz yz by simp
    next
      case 2
      then have "(F y, F z) \<in> T" using xz by (rule transD [OF tr])
      then show False using yz by simp
    qed
  qed
qed

text \<open>Two lists sorted by a strict order with the same elements are equal.\<close>

lemma sorted_wrt_unique:
  assumes irr: "\<And>x. \<not> r x x" and tr: "\<And>x y z. r x y \<Longrightarrow> r y z \<Longrightarrow> r x z"
  shows "sorted_wrt r xs \<Longrightarrow> sorted_wrt r ys \<Longrightarrow> set xs = set ys \<Longrightarrow> xs = ys"
proof (induction xs arbitrary: ys)
  case Nil
  then show ?case by simp
next
  case (Cons x xs)
  then obtain y ys' where ys: "ys = y # ys'" by (cases ys) auto
  have "x = y"
  proof (rule ccontr)
    assume ne: "x \<noteq> y"
    then have "x \<in> set ys'" "y \<in> set xs" using Cons.prems(3) ys by auto
    then have "r y x" "r x y" using Cons.prems(1,2) ys by simp_all
    then have "r x x" by (rule tr [rotated])
    then show False using irr by simp
  qed
  moreover have "x \<notin> set xs" "y \<notin> set ys'"
    using Cons.prems(1,2) ys irr by auto
  then have "set xs = set ys'" using Cons.prems(3) ys \<open>x = y\<close> by auto
  then have "xs = ys'" using Cons.IH Cons.prems(1,2) ys by simp
  ultimately show ?case using ys by simp
qed

lemma swo_cong:
  "strict_weak_order_on A f \<Longrightarrow> (\<And>a b. a \<in> A \<Longrightarrow> b \<in> A \<Longrightarrow> g a b = f a b) \<Longrightarrow>
   strict_weak_order_on A g"
proof -
  assume f: "strict_weak_order_on A f" and eq: "\<And>a b. a \<in> A \<Longrightarrow> b \<in> A \<Longrightarrow> g a b = f a b"
  show ?thesis unfolding strict_weak_order_on_def
  proof (intro conjI ballI impI)
    fix x assume "x \<in> A"
    then show "\<not> g x x" using swo_irrefl [OF f] eq by simp
  next
    fix x y z assume A: "x \<in> A" "y \<in> A" "z \<in> A" and "g x y" "g y z"
    then show "g x z" using swo_trans [OF f A] eq by simp
  next
    fix x y z assume A: "x \<in> A" "y \<in> A" "z \<in> A" and "\<not> g x y" "\<not> g y z"
    then show "\<not> g x z" using swo_neg_trans [OF f A] eq by simp
  qed
qed

section \<open>Computations that may throw\<close>

text \<open>
  A C++ function that may throw an exception is a function into
  \<open>'e + 'a\<close>, \<open>Inl\<close> the exception; \<open>sbind\<close> sequences two such steps
  (the exception of the first one propagates), \<open>sfold\<close> is a loop whose
  body may throw.
\<close>

definition sbind :: "'e + 'a \<Rightarrow> ('a \<Rightarrow> 'e + 'b) \<Rightarrow> 'e + 'b" where
  "sbind m f = (case m of Inl e \<Rightarrow> Inl e | Inr a \<Rightarrow> f a)"

fun sfold :: "('a \<Rightarrow> 'b \<Rightarrow> 'e + 'b) \<Rightarrow> 'a list \<Rightarrow> 'b \<Rightarrow> 'e + 'b" where
  "sfold f [] b = Inr b"
| "sfold f (x # xs) b = sbind (f x b) (sfold f xs)"

text \<open>
  A loop that adds, for each element, the items the body yields to a list
  (a solver's assertions, a result vector), stopping at the first throw.
\<close>

definition scollect :: "('a \<Rightarrow> 'e + 'b list) \<Rightarrow> 'a list \<Rightarrow> 'e + 'b list" where
  "scollect g xs = sfold (\<lambda>x acc. sbind (g x) (\<lambda>v. Inr (acc @ v))) xs []"

text \<open>
  A computation that may also run forever (one that contains a loop modelled
  by a partial function) is a function into \<open>('e + 'a) option\<close>: \<open>None\<close>
  is the run that does not end, \<open>osbind\<close> and \<open>osfold\<close> sequence such steps.
\<close>

definition osbind :: "('e + 'a) option \<Rightarrow> ('a \<Rightarrow> ('e + 'b) option) \<Rightarrow> ('e + 'b) option" where
  "osbind m f = (case m of None \<Rightarrow> None | Some (Inl e) \<Rightarrow> Some (Inl e) | Some (Inr a) \<Rightarrow> f a)"

fun osfold :: "('a \<Rightarrow> 'b \<Rightarrow> ('e + 'b) option) \<Rightarrow> 'a list \<Rightarrow> 'b \<Rightarrow> ('e + 'b) option" where
  "osfold f [] b = Some (Inr b)"
| "osfold f (x # xs) b = osbind (f x b) (osfold f xs)"

lemma sbind_simps [simp]: "sbind (Inl e) f = Inl e" "sbind (Inr a) f = f a"
  by (simp_all add: sbind_def)

lemma sbind_eq_Inr: "sbind m f = Inr b \<longleftrightarrow> (\<exists>a. m = Inr a \<and> f a = Inr b)"
  by (cases m) simp_all

lemma sfold_invariant:
  assumes "sfold f xs b = Inr b'" "P b"
    and "\<And>x c c'. x \<in> set xs \<Longrightarrow> f x c = Inr c' \<Longrightarrow> P c \<Longrightarrow> P c'"
  shows "P b'"
  using assms by (induction xs arbitrary: b) (auto simp: sbind_eq_Inr)

text \<open>A loop each of whose steps succeeds and keeps an invariant succeeds and keeps it.\<close>

lemma sfold_Inr_invariant:
  assumes "P b" "\<And>x c. x \<in> set xs \<Longrightarrow> P c \<Longrightarrow> \<exists>c'. f x c = Inr c' \<and> P c'"
  shows "\<exists>b'. sfold f xs b = Inr b' \<and> P b'"
  using assms by (induction xs arbitrary: b) fastforce+

lemma sfold_collect_Inr:
  "sfold (\<lambda>x acc. sbind (g x) (\<lambda>v. Inr (acc @ v))) xs acc0 = Inr r \<longleftrightarrow>
     (\<exists>vs. list_all2 (\<lambda>x v. g x = Inr v) xs vs \<and> r = acc0 @ concat vs)"
proof (induction xs arbitrary: acc0)
  case (Cons x xs)
  show ?case
  proof
    assume "sfold (\<lambda>x acc. sbind (g x) (\<lambda>v. Inr (acc @ v))) (x # xs) acc0 = Inr r"
    then obtain v vs where "g x = Inr v" "list_all2 (\<lambda>x v. g x = Inr v) xs vs" "r = acc0 @ v @ concat vs"
      by (auto simp: sbind_eq_Inr Cons)
    then show "\<exists>vs. list_all2 (\<lambda>x v. g x = Inr v) (x # xs) vs \<and> r = acc0 @ concat vs"
      by (intro exI [of _ "v # vs"]) simp
  next
    assume "\<exists>vs. list_all2 (\<lambda>x v. g x = Inr v) (x # xs) vs \<and> r = acc0 @ concat vs"
    then obtain v vs where "g x = Inr v" "list_all2 (\<lambda>x v. g x = Inr v) xs vs" "r = acc0 @ v @ concat vs"
      by (auto simp: list_all2_Cons1)
    then show "sfold (\<lambda>x acc. sbind (g x) (\<lambda>v. Inr (acc @ v))) (x # xs) acc0 = Inr r"
      using Cons.IH [of "acc0 @ v"] by auto
  qed
qed auto

lemma scollect_Inr:
  "scollect g xs = Inr r \<longleftrightarrow> (\<exists>vs. list_all2 (\<lambda>x v. g x = Inr v) xs vs \<and> r = concat vs)"
  by (simp add: scollect_def sfold_collect_Inr)

lemma scollect_mem:
  assumes "scollect g xs = Inr r" "x \<in> set xs"
  shows "\<exists>v. g x = Inr v \<and> set v \<subseteq> set r"
proof -
  obtain vs where vs: "list_all2 (\<lambda>x v. g x = Inr v) xs vs" and r: "r = concat vs"
    using assms(1) by (auto simp: scollect_Inr)
  obtain i where i: "i < length xs" "xs ! i = x" using assms(2) by (auto simp: in_set_conv_nth)
  have "g x = Inr (vs ! i)" "i < length vs" using vs i by (auto simp: list_all2_conv_all_nth)
  then show ?thesis using r by (auto simp: set_concat intro: nth_mem)
qed

lemma scollect_single:
  "scollect (\<lambda>x. sbind (h x) (\<lambda>n. Inr [n])) xs = Inr r \<longleftrightarrow> list_all2 (\<lambda>x n. h x = Inr n) xs r"
proof -
  have "(\<exists>vs. list_all2 (\<lambda>x v. sbind (h x) (\<lambda>n. Inr [n]) = Inr v) xs vs \<and> r = concat vs) \<longleftrightarrow>
        list_all2 (\<lambda>x n. h x = Inr n) xs r" for r
  proof (induction xs arbitrary: r)
    case (Cons x xs)
    show ?case
    proof
      assume "\<exists>vs. list_all2 (\<lambda>x v. sbind (h x) (\<lambda>n. Inr [n]) = Inr v) (x # xs) vs \<and> r = concat vs"
      then obtain n vs where "h x = Inr n" "list_all2 (\<lambda>x v. sbind (h x) (\<lambda>n. Inr [n]) = Inr v) xs vs"
          "r = n # concat vs"
        by (auto simp: list_all2_Cons1 sbind_eq_Inr)
      then show "list_all2 (\<lambda>x n. h x = Inr n) (x # xs) r" using Cons.IH [of "concat vs"] by auto
    next
      assume "list_all2 (\<lambda>x n. h x = Inr n) (x # xs) r"
      then obtain n r' where "h x = Inr n" "list_all2 (\<lambda>x n. h x = Inr n) xs r'" "r = n # r'"
        by (auto simp: list_all2_Cons1)
      moreover obtain vs where "list_all2 (\<lambda>x v. sbind (h x) (\<lambda>n. Inr [n]) = Inr v) xs vs" "r' = concat vs"
        using Cons.IH [of r'] calculation(2) by blast
      ultimately show "\<exists>vs. list_all2 (\<lambda>x v. sbind (h x) (\<lambda>n. Inr [n]) = Inr v) (x # xs) vs \<and> r = concat vs"
        by (intro exI [of _ "[n] # vs"]) simp
    qed
  qed simp
  then show ?thesis by (simp add: scollect_Inr)
qed

lemma scollect_all:
  assumes "scollect g xs = Inr r" "\<And>x v. x \<in> set xs \<Longrightarrow> g x = Inr v \<Longrightarrow> list_all P v"
  shows "list_all P r"
proof -
  have "list_all P acc0 \<Longrightarrow> sfold (\<lambda>x acc. sbind (g x) (\<lambda>v. Inr (acc @ v))) xs acc0 = Inr r \<Longrightarrow> list_all P r"
    for acc0 using assms(2)
  proof (induction xs arbitrary: acc0)
    case (Cons a xs)
    then obtain v where "g a = Inr v" "sfold (\<lambda>x acc. sbind (g x) (\<lambda>v. Inr (acc @ v))) xs (acc0 @ v) = Inr r"
      by (auto simp: sbind_eq_Inr)
    then show ?case using Cons.IH [of "acc0 @ v"] Cons.prems by auto
  qed simp
  from this [of "[]"] show ?thesis using assms(1) by (simp add: scollect_def)
qed

lemma sfold_step_Inr:
  "sfold f xs b = Inr b' \<Longrightarrow> x \<in> set xs \<Longrightarrow> \<exists>c c'. f x c = Inr c'"
  by (induction xs arbitrary: b) (auto simp: sbind_eq_Inr)

lemma sfold_map:
  "(\<And>x c. x \<in> set xs \<Longrightarrow> f x c = Inr (g x c)) \<Longrightarrow> sfold f xs b = Inr (fold g xs b)"
  by (induction xs arbitrary: b) simp_all

lemma sfold_additive:
  fixes g :: "'b \<Rightarrow> 'c::comm_monoid_add"
  assumes "sfold f xs b = Inr b'"
    and "\<And>x c c'. x \<in> set xs \<Longrightarrow> f x c = Inr c' \<Longrightarrow> g c' = g c + h x"
  shows "g b' = g b + sum_list (map h xs)"
  using assms
proof (induction xs arbitrary: b)
  case (Cons x xs)
  then obtain c where c: "f x b = Inr c" "sfold f xs c = Inr b'" by (auto simp: sbind_eq_Inr)
  then have "g c = g b + h x" using Cons.prems(2) by simp
  then show ?case using Cons.IH [OF c(2)] Cons.prems(2) by (simp add: add.assoc)
qed simp

lemma osbind_simps [simp]:
  "osbind None f = None" "osbind (Some (Inl e)) f = Some (Inl e)" "osbind (Some (Inr a)) f = f a"
  by (simp_all add: osbind_def)

lemma osbind_eq_Some_Inr: "osbind m f = Some (Inr b) \<longleftrightarrow> (\<exists>a. m = Some (Inr a) \<and> f a = Some (Inr b))"
  by (auto simp: osbind_def split: option.splits sum.splits)

lemma osfold_Some_invariant:
  assumes "P b" "\<And>x c. x \<in> set xs \<Longrightarrow> P c \<Longrightarrow> \<exists>c'. f x c = Some (Inr c') \<and> P c'"
  shows "\<exists>b'. osfold f xs b = Some (Inr b') \<and> P b'"
  using assms by (induction xs arbitrary: b) fastforce+

lemma osfold_invariant:
  assumes "osfold f xs b = Some (Inr b')" "P b"
    and "\<And>x c c'. x \<in> set xs \<Longrightarrow> f x c = Some (Inr c') \<Longrightarrow> P c \<Longrightarrow> P c'"
  shows "P b'"
  using assms by (induction xs arbitrary: b) (auto simp: osbind_eq_Some_Inr)

end
