(* ===== verification/Comparator.thy ===== *)
theory Comparator
  imports Prelude
begin

text \<open>
  The numeric comparator (storm's \<open>ConstantsComparator\<close>, used by the
  decomposition as \<open>this->comparator\<close>): \<open>isZero\<close>, \<open>isEqual\<close> and \<open>isLess\<close>
  over the probability type. The class itself lives outside \<open>src/\<close>; it is
  modelled from the spec (section 4.1) as a record of three functions, so that
  the Distribution and signature operations can be stated for any comparator
  and instantiated with the exact one (rational arithmetic) or a tolerant one
  (floating point with a precision \<open>eps\<close>).
\<close>

record comparator =
  isZero :: "prob \<Rightarrow> bool"
  isEqual :: "prob \<Rightarrow> prob \<Rightarrow> bool"
  isLess :: "prob \<Rightarrow> prob \<Rightarrow> bool"

text \<open>Exact value types compare structurally.\<close>

definition exact_comparator :: comparator where
  "exact_comparator = \<lparr>isZero = (\<lambda>v. v = 0), isEqual = (\<lambda>a b. a = b), isLess = (\<lambda>a b. a < b)\<rparr>"

text \<open>
  Approximate value types compare within a precision: equal when the
  difference is at most \<open>eps\<close>, less only when below by more than \<open>eps\<close>.
\<close>

definition tolerant_comparator :: "prob \<Rightarrow> comparator" where
  "tolerant_comparator eps =
     \<lparr>isZero = (\<lambda>v. \<bar>v\<bar> \<le> eps), isEqual = (\<lambda>a b. \<bar>a - b\<bar> \<le> eps),
      isLess = (\<lambda>a b. a < b - eps)\<rparr>"

text \<open>
  The contract of the spec: equality is symmetric and excludes less-than in
  both directions.
\<close>

definition comparator_consistent :: "comparator \<Rightarrow> bool" where
  "comparator_consistent c \<longleftrightarrow>
     (\<forall>a b. isEqual c a b = isEqual c b a) \<and>
     (\<forall>a b. isEqual c a b \<longrightarrow> \<not> isLess c a b \<and> \<not> isLess c b a)"

lemma exact_comparator_simps [simp, model_simps]:
  "isZero exact_comparator v \<longleftrightarrow> v = 0"
  "isEqual exact_comparator a b \<longleftrightarrow> a = b"
  "isLess exact_comparator a b \<longleftrightarrow> a < b"
  by (simp_all add: exact_comparator_def)

lemma tolerant_comparator_simps [simp, model_simps]:
  "isZero (tolerant_comparator eps) v \<longleftrightarrow> \<bar>v\<bar> \<le> eps"
  "isEqual (tolerant_comparator eps) a b \<longleftrightarrow> \<bar>a - b\<bar> \<le> eps"
  "isLess (tolerant_comparator eps) a b \<longleftrightarrow> a < b - eps"
  by (simp_all add: tolerant_comparator_def)

lemma exact_comparator_consistent: "comparator_consistent exact_comparator"
  by (auto simp: comparator_consistent_def)

lemma tolerant_comparator_consistent: "comparator_consistent (tolerant_comparator eps)"
  by (auto simp: comparator_consistent_def abs_minus_commute)

lemma consistent_isEqual_sym:
  "comparator_consistent c \<Longrightarrow> isEqual c a b \<Longrightarrow> isEqual c b a"
  by (simp add: comparator_consistent_def)

end
