(* ===== verification/Distribution.thy ===== *)
theory Distribution
  imports Comparator
begin

text \<open>
  The quotient Distribution (storm's \<open>storm::storage::Distribution\<close>, outside
  \<open>src/\<close>, modelled from the spec, section 4.2): a sparse map from block ids to
  probability mass, kept as a flat map, that is a list of pairs sorted by key.
  \<open>dget\<close> reads it as a total function (an absent key has mass 0), \<open>dmass\<close>
  sums its masses. The operations are \<open>addProbability\<close>, \<open>shiftProbability\<close>,
  \<open>distribution_equals\<close> (\<open>equals\<close>) and \<open>distribution_less\<close> (\<open>less\<close>).

  Results: mass conservation of every update; the behaviour of each update
  read through \<open>dget\<close>; preservation of the well-formedness invariant (keys
  strictly ascending, every stored mass positive); canonicity (a well-formed
  distribution is determined by \<open>dget\<close>); \<open>distribution_less\<close> under the exact
  comparator refines the lexicographic order on mass functions; and equality
  is consistent with the order for every comparator whose equality is
  symmetric.
\<close>

type_synonym distribution = "(block_id \<times> prob) list"

definition dget :: "distribution \<Rightarrow> block_id \<Rightarrow> prob" where
  "dget d k = (case map_of d k of Some v \<Rightarrow> v | None \<Rightarrow> 0)"

definition dmass :: "distribution \<Rightarrow> prob" where
  "dmass d = sum_list (map snd d)"

abbreviation keys_sorted :: "distribution \<Rightarrow> bool" where
  "keys_sorted d \<equiv> sorted_wrt (<) (map fst d)"

definition dist_wf :: "distribution \<Rightarrow> bool" where
  "dist_wf d \<longleftrightarrow> keys_sorted d \<and> (\<forall>p \<in> set d. 0 < snd p)"

section \<open>Operations\<close>

text \<open>\<open>addProbability(k, v)\<close>: accumulate \<open>v\<close> at key \<open>k\<close>, creating the entry if absent.\<close>

fun addProbability :: "distribution \<Rightarrow> block_id \<Rightarrow> prob \<Rightarrow> distribution" where
  "addProbability [] k v = [(k, v)]"
| "addProbability ((k', v') # d) k v =
     (if k < k' then (k, v) # (k', v') # d
      else if k = k' then (k', v' + v) # d
      else (k', v') # addProbability d k v)"

text \<open>Erasing the entry of a key when its mass is exactly zero.\<close>

fun eraseZero :: "distribution \<Rightarrow> block_id \<Rightarrow> distribution" where
  "eraseZero [] k = []"
| "eraseZero ((k', v') # d) k =
     (if k' = k then (if v' = 0 then d else (k', v') # d) else (k', v') # eraseZero d k)"

text \<open>
  \<open>shiftProbability(from, to, v)\<close>: subtract \<open>v\<close> from the entry of \<open>from\<close>
  (an absent entry reads as 0, as \<open>operator[]\<close> of the flat map creates it),
  remove that entry if it became zero, and add \<open>v\<close> to the entry of \<open>to\<close>.
\<close>

definition shiftProbability :: "distribution \<Rightarrow> block_id \<Rightarrow> block_id \<Rightarrow> prob \<Rightarrow> distribution" where
  "shiftProbability d fromId toId v =
     addProbability (eraseZero (addProbability d fromId (- v)) fromId) toId v"

text \<open>\<open>equals\<close>: identical key sets and \<open>isEqual\<close> masses, key by key.\<close>

fun distribution_equals :: "comparator \<Rightarrow> distribution \<Rightarrow> distribution \<Rightarrow> bool" where
  "distribution_equals c [] [] = True"
| "distribution_equals c ((k, v) # d) ((l, w) # e) =
     (k = l \<and> isEqual c v w \<and> distribution_equals c d e)"
| "distribution_equals c _ _ = False"

text \<open>
  \<open>less\<close>: lexicographic over block ids in ascending order, an absent key
  counting as mass zero; the first key whose masses are not \<open>isEqual\<close> decides
  by \<open>isLess\<close>.
\<close>

fun distribution_less :: "comparator \<Rightarrow> distribution \<Rightarrow> distribution \<Rightarrow> bool" where
  "distribution_less c [] [] = False"
| "distribution_less c ((k, v) # d) [] =
     (if isEqual c v 0 then distribution_less c d [] else isLess c v 0)"
| "distribution_less c [] ((l, w) # e) =
     (if isEqual c 0 w then distribution_less c [] e else isLess c 0 w)"
| "distribution_less c ((k, v) # d) ((l, w) # e) =
     (if k < l then
        (if isEqual c v 0 then distribution_less c d ((l, w) # e) else isLess c v 0)
      else if l < k then
        (if isEqual c 0 w then distribution_less c ((k, v) # d) e else isLess c 0 w)
      else (if isEqual c v w then distribution_less c d e else isLess c v w))"

section \<open>Reading a distribution through dget\<close>

lemma dget_Nil [simp]: "dget [] k = 0"
  by (simp add: dget_def)

lemma dget_Cons [simp]: "dget ((k', v') # d) k = (if k = k' then v' else dget d k)"
  by (simp add: dget_def)

lemma dget_notin: "k \<notin> fst ` set d \<Longrightarrow> dget d k = 0"
proof -
  assume "k \<notin> fst ` set d"
  then have "map_of d k = None" by (simp add: map_of_eq_None_iff)
  then show ?thesis by (simp add: dget_def)
qed

lemma dget_below_head:
  "keys_sorted ((k', v') # d) \<Longrightarrow> k \<le> k' \<Longrightarrow> dget d k = 0"
  by (rule dget_notin) auto

lemma keys_addProbability [simp]: "fst ` set (addProbability d k v) = insert k (fst ` set d)"
  by (induction d k v rule: addProbability.induct) auto

lemma keys_sorted_addProbability:
  "keys_sorted d \<Longrightarrow> keys_sorted (addProbability d k v)"
  by (induction d k v rule: addProbability.induct) auto

lemma dget_addProbability:
  "keys_sorted d \<Longrightarrow> dget (addProbability d k v) = (dget d)(k := dget d k + v)"
proof (induction d k v rule: addProbability.induct)
  case (1 k v)
  then show ?case by (simp add: fun_eq_iff)
next
  case (2 k' v' d k v)
  then show ?case by (auto simp: fun_eq_iff dget_below_head)
qed

lemma keys_eraseZero: "fst ` set (eraseZero d k) \<subseteq> fst ` set d"
  by (induction d k rule: eraseZero.induct) auto

lemma set_eraseZero: "set (eraseZero d k) \<subseteq> set d"
  by (induction d k rule: eraseZero.induct) auto

lemma keys_sorted_eraseZero: "keys_sorted d \<Longrightarrow> keys_sorted (eraseZero d k)"
proof (induction d k rule: eraseZero.induct)
  case (2 k' v' d k)
  show ?case
  proof (cases "k' = k")
    case False
    have "\<forall>x \<in> fst ` set d. k' < x" using "2.prems" by simp
    then have "\<forall>x \<in> fst ` set (eraseZero d k). k' < x"
      using keys_eraseZero [of d k] by blast
    then show ?thesis using False 2 by auto
  qed (use "2.prems" in auto)
qed simp

lemma dget_eraseZero: "keys_sorted d \<Longrightarrow> dget (eraseZero d k) = dget d"
proof (induction d k rule: eraseZero.induct)
  case (2 k' v' d k)
  then show ?case by (auto simp: fun_eq_iff dget_below_head)
qed simp

lemma keys_sorted_shiftProbability:
  "keys_sorted d \<Longrightarrow> keys_sorted (shiftProbability d a b v)"
  by (simp add: shiftProbability_def keys_sorted_addProbability keys_sorted_eraseZero)

lemma dget_shiftProbability:
  assumes "keys_sorted d"
  shows "dget (shiftProbability d a b v) =
    (\<lambda>k. dget d k - (if k = a then v else 0) + (if k = b then v else 0))"
  using assms
  by (simp add: shiftProbability_def dget_addProbability keys_sorted_addProbability
      keys_sorted_eraseZero dget_eraseZero fun_eq_iff)

section \<open>Mass conservation\<close>

lemma dmass_Cons [simp]: "dmass ((k, v) # d) = v + dmass d"
  by (simp add: dmass_def)

lemma dmass_Nil [simp]: "dmass [] = 0"
  by (simp add: dmass_def)

lemma dmass_addProbability: "dmass (addProbability d k v) = dmass d + v"
  by (induction d k v rule: addProbability.induct) auto

lemma dmass_eraseZero: "dmass (eraseZero d k) = dmass d"
  by (induction d k rule: eraseZero.induct) auto

section \<open>Well-formedness\<close>

lemma dist_wf_Nil [simp]: "dist_wf []"
  by (simp add: dist_wf_def)

lemma dist_wf_Cons:
  "dist_wf ((k, v) # d) \<longleftrightarrow> 0 < v \<and> (\<forall>k' \<in> fst ` set d. k < k') \<and> dist_wf d"
  by (auto simp: dist_wf_def)

lemma dget_nonneg: "dist_wf d \<Longrightarrow> 0 \<le> dget d k"
  by (induction d) (auto simp: dist_wf_Cons)

lemma dist_wf_addProbability:
  "dist_wf d \<Longrightarrow> 0 < v \<Longrightarrow> dist_wf (addProbability d k v)"
proof (induction d k v rule: addProbability.induct)
  case (2 k' v' d k v)
  then show ?case by (auto simp: dist_wf_Cons)
qed (simp add: dist_wf_def)

text \<open>
  Subtracting at most the stored mass and erasing a zero keeps every stored
  mass positive.
\<close>

lemma dist_wf_sub_eraseZero:
  assumes "dist_wf d" "v \<le> dget d k" "0 < v"
  shows "dist_wf (eraseZero (addProbability d k (- v)) k)"
  using assms
proof (induction d)
  case Nil
  then show ?case by simp
next
  case (Cons p d)
  obtain k' v' where p: "p = (k', v')" by fastforce
  show ?case
  proof (cases "k < k'")
    case True
    then have "dget ((k', v') # d) k = 0"
      using Cons.prems(1) p by (auto simp: dist_wf_def intro: dget_below_head)
    then show ?thesis using Cons.prems p by simp
  next
    case False
    show ?thesis
    proof (cases "k = k'")
      case True
      then show ?thesis using Cons.prems p by (auto simp: dist_wf_Cons)
    next
      case False
      with \<open>\<not> k < k'\<close> have "k' < k" by simp
      have "dist_wf (eraseZero (addProbability d k (- v)) k)"
        using Cons.IH \<open>k' < k\<close> Cons.prems p by (simp add: dist_wf_Cons)
      moreover have "\<forall>x \<in> fst ` set (eraseZero (addProbability d k (- v)) k). k' < x"
        using keys_eraseZero [of "addProbability d k (- v)" k] Cons.prems(1) p \<open>k' < k\<close>
        by (fastforce simp: dist_wf_Cons)
      ultimately show ?thesis using \<open>k' < k\<close> Cons.prems(1) p by (simp add: dist_wf_Cons)
    qed
  qed
qed

lemma dist_wf_shiftProbability:
  "dist_wf d \<Longrightarrow> 0 < v \<Longrightarrow> v \<le> dget d a \<Longrightarrow> dist_wf (shiftProbability d a b v)"
  by (simp add: shiftProbability_def dist_wf_sub_eraseZero dist_wf_addProbability)

section \<open>Canonicity\<close>

lemma dget_Cons_head: "dget ((k, v) # d) k = v"
  by simp

lemma dist_wf_keys_sorted: "dist_wf d \<Longrightarrow> keys_sorted d"
  by (simp add: dist_wf_def)

lemma dget_pos_head: "dist_wf ((k, v) # d) \<Longrightarrow> 0 < dget ((k, v) # d) k"
  by (simp add: dist_wf_Cons)

lemma dist_canonical:
  "dist_wf d \<Longrightarrow> dist_wf e \<Longrightarrow> dget d = dget e \<Longrightarrow> d = e"
proof (induction d arbitrary: e)
  case Nil
  show ?case
  proof (cases e)
    case (Cons p e')
    then have "0 < dget e (fst p)" using Nil.prems(2) by (cases p) (simp add: dist_wf_Cons)
    moreover have "dget e (fst p) = 0" using Nil.prems(3) by (metis dget_Nil)
    ultimately show ?thesis by simp
  qed simp
next
  case (Cons p d)
  obtain k v where p: "p = (k, v)" by fastforce
  show ?case
  proof (cases e)
    case Nil
    then show ?thesis using Cons.prems p by (metis dget_Nil dget_pos_head less_irrefl)
  next
    case (Cons q e')
    obtain l w where q: "q = (l, w)" by fastforce
    have wf1: "dist_wf ((k, v) # d)" and wf2: "dist_wf ((l, w) # e')"
      using Cons.prems p q \<open>e = q # e'\<close> by simp_all
    have eq: "dget ((k, v) # d) = dget ((l, w) # e')"
      using Cons.prems(3) p q \<open>e = q # e'\<close> by (simp add: fun_eq_iff)
    have "k = l"
    proof (rule ccontr)
      assume "k \<noteq> l"
      then consider "k < l" | "l < k" by linarith
      then show False
      proof cases
        case 1
        then have "dget ((l, w) # e') k = 0"
          using wf2 by (auto simp: dist_wf_def intro: dget_below_head)
        then show False using eq wf1 by (metis dget_pos_head less_irrefl)
      next
        case 2
        then have "dget ((k, v) # d) l = 0"
          using wf1 by (auto simp: dist_wf_def intro: dget_below_head)
        then show False using eq wf2 by (metis dget_pos_head less_irrefl)
      qed
    qed
    moreover have "v = w" using eq \<open>k = l\<close> by (metis dget_Cons_head)
    moreover have "dget d = dget e'"
    proof
      fix j
      show "dget d j = dget e' j"
      proof (cases "j = k")
        case True
        have "dget d k = 0" using wf1 by (intro dget_below_head [of k v]) (simp_all add: dist_wf_def)
        moreover have "dget e' k = 0"
          using wf2 \<open>k = l\<close> by (intro dget_below_head [of l w]) (simp_all add: dist_wf_def)
        ultimately show ?thesis using True by simp
      next
        case False
        then show ?thesis using eq \<open>k = l\<close> by (metis dget_Cons)
      qed
    qed
    ultimately show ?thesis
      using Cons.IH [of e'] wf1 wf2 p q \<open>e = q # e'\<close> by (simp add: dist_wf_Cons)
  qed
qed

section \<open>The order of distributions\<close>

text \<open>
  The abstract order: lexicographic comparison of mass functions, the least
  block id where they differ deciding.
\<close>

definition lex_less :: "(block_id \<Rightarrow> prob) \<Rightarrow> (block_id \<Rightarrow> prob) \<Rightarrow> bool" where
  "lex_less f g \<longleftrightarrow> (\<exists>k. f k < g k \<and> (\<forall>j<k. f j = g j))"

lemma lex_less_first_diff:
  assumes "\<forall>j<k. f j = g j" "f k \<noteq> g k"
  shows "lex_less f g \<longleftrightarrow> f k < g k"
proof
  assume "lex_less f g"
  then obtain k' where k': "f k' < g k'" "\<forall>j<k'. f j = g j" by (auto simp: lex_less_def)
  have "k' = k"
  proof (rule ccontr)
    assume "k' \<noteq> k"
    then consider "k' < k" | "k < k'" by linarith
    then show False using assms k' by cases auto
  qed
  then show "f k < g k" using k' by simp
qed (use assms in \<open>auto simp: lex_less_def\<close>)

lemma lex_less_upd_same:
  assumes "f k = g k"
  shows "lex_less (f(k := a)) (g(k := a)) \<longleftrightarrow> lex_less f g"
proof -
  have lt: "\<And>j. (f(k := a)) j < (g(k := a)) j \<longleftrightarrow> f j < g j"
    and eq: "\<And>j. (f(k := a)) j = (g(k := a)) j \<longleftrightarrow> f j = g j"
    using assms by auto
  show ?thesis unfolding lex_less_def by (simp only: lt eq)
qed

lemma lex_less_irrefl: "\<not> lex_less f f"
  by (simp add: lex_less_def)

lemma lex_less_trans:
  assumes "lex_less f g" "lex_less g h"
  shows "lex_less f h"
proof -
  obtain k1 where 1: "f k1 < g k1" "\<forall>j<k1. f j = g j"
    using assms(1) by (auto simp: lex_less_def)
  obtain k2 where 2: "g k2 < h k2" "\<forall>j<k2. g j = h j"
    using assms(2) by (auto simp: lex_less_def)
  let ?k = "min k1 k2"
  have "f ?k < h ?k"
  proof (cases "k1 < k2")
    case True
    then show ?thesis using 1 2 by (simp add: min_def)
  next
    case False
    then show ?thesis using 1 2
      by (cases "k1 = k2") (auto simp: min_def intro: order.strict_trans)
  qed
  moreover have "\<forall>j<?k. f j = h j" using 1 2 by simp
  ultimately show ?thesis unfolding lex_less_def by blast
qed

lemma lex_less_total: "f \<noteq> g \<Longrightarrow> lex_less f g \<or> lex_less g f"
proof -
  assume "f \<noteq> g"
  then have "\<exists>k. f k \<noteq> g k" by (auto simp: fun_eq_iff)
  then obtain k where k: "f k \<noteq> g k" "\<forall>j<k. f j = g j"
    using exists_least_iff [of "\<lambda>k. f k \<noteq> g k"] by blast
  have "\<forall>j<k. g j = f j" using k(2) by simp
  then have "lex_less g f \<longleftrightarrow> g k < f k" using k(1) by (intro lex_less_first_diff) auto
  moreover have "lex_less f g \<longleftrightarrow> f k < g k" using k by (intro lex_less_first_diff)
  ultimately show ?thesis using k(1) by linarith
qed

lemma lex_less_neg_trans:
  assumes "\<not> lex_less f g" "\<not> lex_less g h"
  shows "\<not> lex_less f h"
proof
  assume fh: "lex_less f h"
  show False
  proof (cases "f = g \<or> g = h")
    case True
    then show ?thesis using assms fh by auto
  next
    case False
    then have "lex_less g f" "lex_less h g" using assms lex_less_total by blast+
    then have "lex_less h f" by (rule lex_less_trans [rotated])
    then show ?thesis using fh lex_less_trans lex_less_irrefl by blast
  qed
qed

lemma lex_less_swo: "strict_weak_order_on A lex_less"
  unfolding strict_weak_order_on_def
  using lex_less_irrefl lex_less_trans lex_less_neg_trans by blast

text \<open>Helpers for the recursion of \<open>distribution_less\<close> on sorted lists.\<close>

lemma dget_before_head:
  assumes "keys_sorted ((k, v) # d)" "j < k"
  shows "dget ((k, v) # d) j = 0"
  using assms dget_below_head [of k v d j] by simp

lemma dget_zero_head:
  assumes "keys_sorted ((k, v) # d)"
  shows "dget ((k, 0) # d) = dget d"
proof -
  have "dget d k = 0" using assms by (rule dget_below_head) simp
  then show ?thesis by (simp add: fun_eq_iff)
qed

lemma dget_Cons_upd: "dget ((k, v) # d) = (dget d)(k := v)"
  by (simp add: fun_eq_iff)

lemma dget_agree_below:
  assumes "keys_sorted ((k, v) # d)" "keys_sorted ((l, w) # e)" "m \<le> k" "m \<le> l"
  shows "\<forall>j<m. dget ((k, v) # d) j = dget ((l, w) # e) j"
  using assms dget_before_head [OF assms(1)] dget_before_head [OF assms(2)] by simp

text \<open>
  Refinement: under the exact comparator, \<open>distribution_less\<close> on flat maps
  with sorted keys is the lexicographic order of their mass functions.
\<close>

lemma distribution_less_lex_less:
  "c = exact_comparator \<Longrightarrow> keys_sorted d \<Longrightarrow> keys_sorted e \<Longrightarrow>
   distribution_less c d e \<longleftrightarrow> lex_less (dget d) (dget e)"
proof (induction c d e rule: distribution_less.induct)
  case (1 c)
  then show ?case by (simp add: lex_less_def)
next
  case (2 c k v d)
  show ?case
  proof (cases "v = 0")
    case True
    then show ?thesis using 2 dget_zero_head [of k v d] by simp
  next
    case False
    have "\<forall>j<k. dget ((k, v) # d) j = dget [] j"
      using dget_before_head [OF "2.prems"(2)] by simp
    from lex_less_first_diff [OF this] False "2.prems"(1) show ?thesis by simp
  qed
next
  case (3 c l w e)
  show ?case
  proof (cases "w = 0")
    case True
    then show ?thesis using 3 dget_zero_head [of l w e] by simp
  next
    case False
    have "\<forall>j<l. dget [] j = dget ((l, w) # e) j"
      using dget_before_head [OF "3.prems"(3)] by simp
    from lex_less_first_diff [OF this] False "3.prems"(1) show ?thesis by simp
  qed
next
  case (4 c k v d l w e)
  have sd: "keys_sorted ((k, v) # d)" and se: "keys_sorted ((l, w) # e)"
    using "4.prems" by simp_all
  consider "k < l" | "l < k" | "k = l" by linarith
  then show ?case
  proof cases
    case 1
    have below: "\<forall>j<k. dget ((k, v) # d) j = dget ((l, w) # e) j"
      using sd se 1 by (intro dget_agree_below) simp_all
    have at: "dget ((l, w) # e) k = 0" using dget_before_head [OF se 1] .
    show ?thesis
    proof (cases "v = 0")
      case True
      then show ?thesis using "4.IH"(1) 1 "4.prems" dget_zero_head [OF sd] by simp
    next
      case False
      from lex_less_first_diff [OF below] False at 1 "4.prems"(1) show ?thesis by simp
    qed
  next
    case 2
    have below: "\<forall>j<l. dget ((k, v) # d) j = dget ((l, w) # e) j"
      using sd se 2 by (intro dget_agree_below) simp_all
    have at: "dget ((k, v) # d) l = 0" using dget_before_head [OF sd 2] .
    show ?thesis
    proof (cases "w = 0")
      case True
      then show ?thesis using "4.IH"(2) 2 "4.prems" dget_zero_head [OF se] by simp
    next
      case False
      from lex_less_first_diff [OF below] False at 2 "4.prems"(1) show ?thesis by simp
    qed
  next
    case 3
    have below: "\<forall>j<k. dget ((k, v) # d) j = dget ((l, w) # e) j"
      using sd se 3 by (intro dget_agree_below) simp_all
    show ?thesis
    proof (cases "v = w")
      case True
      have "dget d k = dget e k"
        using dget_below_head [OF sd order_refl] dget_below_head [of l w e k] se 3 by simp
      then have "lex_less (dget ((k, v) # d)) (dget ((l, w) # e)) \<longleftrightarrow> lex_less (dget d) (dget e)"
        using True 3 by (simp only: dget_Cons_upd lex_less_upd_same)
      then show ?thesis using "4.IH"(3) 3 True "4.prems" by (simp del: dget_Cons)
    next
      case False
      from lex_less_first_diff [OF below] False 3 "4.prems"(1) show ?thesis by simp
    qed
  qed
qed

lemma distribution_less_swo:
  "strict_weak_order_on {d. keys_sorted d} (distribution_less exact_comparator)"
proof -
  have eq: "\<And>d e. d \<in> {d. keys_sorted d} \<Longrightarrow> e \<in> {d. keys_sorted d} \<Longrightarrow>
      distribution_less exact_comparator d e \<longleftrightarrow> lex_less (dget d) (dget e)"
    by (simp add: distribution_less_lex_less)
  show ?thesis
    unfolding strict_weak_order_on_def
  proof (intro conjI ballI impI)
    fix x assume "x \<in> {d. keys_sorted d}"
    then show "\<not> distribution_less exact_comparator x x" by (simp add: eq lex_less_irrefl)
  next
    fix x y z assume xyz: "x \<in> {d. keys_sorted d}" "y \<in> {d. keys_sorted d}" "z \<in> {d. keys_sorted d}"
    {
      assume "distribution_less exact_comparator x y" "distribution_less exact_comparator y z"
      then have "lex_less (dget x) (dget y)" "lex_less (dget y) (dget z)"
        using xyz eq by blast+
      then have "lex_less (dget x) (dget z)" by (rule lex_less_trans)
      then show "distribution_less exact_comparator x z" using xyz eq by blast
    }
    {
      assume "\<not> distribution_less exact_comparator x y" "\<not> distribution_less exact_comparator y z"
      then have "\<not> lex_less (dget x) (dget y)" "\<not> lex_less (dget y) (dget z)"
        using xyz eq by blast+
      then have "\<not> lex_less (dget x) (dget z)" by (rule lex_less_neg_trans)
      then show "\<not> distribution_less exact_comparator x z" using xyz eq by blast
    }
  qed
qed

lemma distribution_less_wf_total:
  assumes "dist_wf d" "dist_wf e" "\<not> distribution_less exact_comparator d e"
    "\<not> distribution_less exact_comparator e d"
  shows "d = e"
proof -
  have "\<not> lex_less (dget d) (dget e)" "\<not> lex_less (dget e) (dget d)"
    using assms by (simp_all add: dist_wf_keys_sorted distribution_less_lex_less)
  then have "dget d = dget e" using lex_less_total by blast
  then show ?thesis by (rule dist_canonical [OF assms(1,2)])
qed

section \<open>Equality against the order\<close>

lemma distribution_equals_exact_gen:
  "c = exact_comparator \<Longrightarrow> distribution_equals c d e \<longleftrightarrow> d = e"
  by (induction c d e rule: distribution_equals.induct) auto

lemma distribution_equals_exact: "distribution_equals exact_comparator d e \<longleftrightarrow> d = e"
  by (rule distribution_equals_exact_gen) simp

lemma distribution_equals_not_less:
  "distribution_equals c d e \<Longrightarrow> \<not> distribution_less c d e"
  by (induction c d e rule: distribution_equals.induct) auto

lemma distribution_equals_sym:
  "(\<forall>a b. isEqual c a b \<longrightarrow> isEqual c b a) \<Longrightarrow>
   distribution_equals c d e \<Longrightarrow> distribution_equals c e d"
  by (induction c d e rule: distribution_equals.induct) auto

section \<open>Mass, order and equality\<close>

text \<open>Shifting mass between two block ids never changes the total.\<close>

lemma dmass_shiftProbability [simp]: "dmass (shiftProbability d a b v) = dmass d"
  by (simp add: shiftProbability_def dmass_addProbability dmass_eraseZero)

text \<open>
  For every comparator whose equality is symmetric, two distributions that
  are \<open>equals\<close> are not \<open>less\<close> in either direction.
\<close>

lemma equals_excludes_less:
  assumes "\<forall>a b. isEqual c a b \<longrightarrow> isEqual c b a" "distribution_equals c d e"
  shows "\<not> (distribution_less c d e \<or> distribution_less c e d)"
  using assms distribution_equals_not_less distribution_equals_sym by blast

text \<open>
  Under the exact comparator the converse holds on well-formed distributions:
  neither being less than the other is exactly \<open>equals\<close>.
\<close>

lemma exact_incomparable_iff_equals:
  assumes "dist_wf d" "dist_wf e"
  shows "distribution_equals exact_comparator d e \<longleftrightarrow>
    \<not> distribution_less exact_comparator d e \<and> \<not> distribution_less exact_comparator e d"
proof
  assume "distribution_equals exact_comparator d e"
  then have "d = e" by (simp add: distribution_equals_exact)
  then show "\<not> distribution_less exact_comparator d e \<and> \<not> distribution_less exact_comparator e d"
    using distribution_equals_not_less [of exact_comparator e e]
    by (simp add: distribution_equals_exact)
next
  assume "\<not> distribution_less exact_comparator d e \<and> \<not> distribution_less exact_comparator e d"
  then have "d = e" using distribution_less_wf_total [OF assms] by blast
  then show "distribution_equals exact_comparator d e" by (simp add: distribution_equals_exact)
qed

end
