(* ===== verification/Model.thy ===== *)
theory Model
  imports Prelude
begin

text \<open>
  The transition system the decomposition reads (storm's sparse \<open>Mdp\<close> and its
  \<open>SparseMatrix\<close>, outside \<open>src/\<close>; spec section 6): the row group indices
  (\<open>getRowGroupIndices()\<close>, the first choice of each state, one entry more than
  there are states) and one row per choice, a list of (successor, probability)
  entries (\<open>getRow(choice)\<close>). The backward relation is the transposed matrix,
  one row per state listing (predecessor choice, probability), as the
  constructor computes it with \<open>getTransitionMatrix().transpose(false)\<close>.
\<close>

record mdp =
  rowGroupIndices :: "nat list"
  rows :: "(state \<times> prob) list list"

definition numberOfStates :: "mdp \<Rightarrow> nat" where
  "numberOfStates m = length (rowGroupIndices m) - 1"

definition numberOfChoices :: "mdp \<Rightarrow> nat" where
  "numberOfChoices m = length (rows m)"

text \<open>The choices of a state: the index range of its row group.\<close>

definition choicesOf :: "mdp \<Rightarrow> state \<Rightarrow> choice list" where
  "choicesOf m s = [rowGroupIndices m ! s ..< rowGroupIndices m ! Suc s]"

text \<open>
  Well-formed models: the row groups start at 0, end at the number of choices
  and are ascending; every entry names a state and carries a non-negative
  probability; a row names each successor once.
\<close>

definition mdp_wf :: "mdp \<Rightarrow> bool" where
  "mdp_wf m \<longleftrightarrow>
     rowGroupIndices m \<noteq> [] \<and> rowGroupIndices m ! 0 = 0 \<and>
     last (rowGroupIndices m) = numberOfChoices m \<and> sorted (rowGroupIndices m) \<and>
     (\<forall>r \<in> set (rows m). distinct (map fst r) \<and>
        (\<forall>e \<in> set r. fst e < numberOfStates m \<and> 0 \<le> snd e))"

text \<open>The transposed matrix: for each state, the entries of the rows that lead to it.\<close>

definition transposeRows :: "mdp \<Rightarrow> (choice \<times> prob) list list" where
  "transposeRows m =
     map (\<lambda>s. concat (map (\<lambda>c. map (\<lambda>e. (c, snd e)) (filter (\<lambda>e. fst e = s) (rows m ! c)))
                          [0..<numberOfChoices m]))
         [0..<numberOfStates m]"

lemma length_transposeRows [simp]: "length (transposeRows m) = numberOfStates m"
  by (simp add: transposeRows_def)

lemma transposeRows_nth:
  "s < numberOfStates m \<Longrightarrow> transposeRows m ! s =
     concat (map (\<lambda>c. map (\<lambda>e. (c, snd e)) (filter (\<lambda>e. fst e = s) (rows m ! c)))
                 [0..<numberOfChoices m])"
  by (simp add: transposeRows_def)

lemma mem_transposeRows:
  assumes "s < numberOfStates m"
  shows "(c, p) \<in> set (transposeRows m ! s) \<longleftrightarrow> c < numberOfChoices m \<and> (s, p) \<in> set (rows m ! c)"
  using assms by (auto simp: transposeRows_nth image_iff intro!: bexI [of _ c] exI [of _ s])

lemma choicesOf_mem: "ch \<in> set (choicesOf m s) \<longleftrightarrow>
    rowGroupIndices m ! s \<le> ch \<and> ch < rowGroupIndices m ! Suc s"
  by (simp add: choicesOf_def)

lemma mdp_wf_sorted: "mdp_wf m \<Longrightarrow> i \<le> j \<Longrightarrow> j \<le> numberOfStates m \<Longrightarrow>
    rowGroupIndices m ! i \<le> rowGroupIndices m ! j"
proof -
  assume wf: "mdp_wf m" and ij: "i \<le> j" and j: "j \<le> numberOfStates m"
  then have ne: "rowGroupIndices m \<noteq> []" and srt: "sorted (rowGroupIndices m)"
    by (simp_all add: mdp_wf_def)
  then have "j < length (rowGroupIndices m)" using j by (cases "rowGroupIndices m") (simp_all add: numberOfStates_def)
  note this srt
  then show ?thesis using ij by (simp add: sorted_nth_mono)
qed

lemma mdp_wf_last: "mdp_wf m \<Longrightarrow> rowGroupIndices m ! numberOfStates m = numberOfChoices m"
  unfolding mdp_wf_def numberOfStates_def by (metis last_conv_nth)

text \<open>The row groups of a well-formed model tile the rows: their sizes add up to the choices.\<close>

lemma sum_group_sizes:
  assumes "mdp_wf m" "k \<le> numberOfStates m"
  shows "sum_list (map (\<lambda>g. rowGroupIndices m ! Suc g - rowGroupIndices m ! g) [0..<k]) = rowGroupIndices m ! k"
  using assms(2)
proof (induction k)
  case 0
  then show ?case using assms(1) by (simp add: mdp_wf_def)
next
  case (Suc k)
  have "rowGroupIndices m ! k \<le> rowGroupIndices m ! Suc k"
    using assms(1) Suc.prems by (intro mdp_wf_sorted) simp_all
  then show ?case using Suc by simp
qed

end
