(* ===== verification/Partition.thy ===== *)
theory Partition
  imports Prelude
begin

text \<open>
  The partition of the states into blocks (storm's \<open>bisimulation::Partition\<close>
  and \<open>Block\<close>, outside \<open>src/\<close>; spec sections 3 and 4.3). \<open>pstates\<close> is the
  sequence of all states, \<open>stateBlock\<close> maps each state to its block id,
  \<open>ranges\<close> maps each block id to its range \<open>[begin, end)\<close> in the sequence,
  \<open>bdata\<close> holds each block's data (the absorbing flag and the pending-splitter
  flag). The reverse map from states to positions of the C++ class is the
  inverse of \<open>pstates\<close> and is not kept.

  \<open>splitBlock\<close> sorts the block's range with the caller's less predicate,
  cuts it into the maximal runs of mutually not-less states, and carves each
  run but the last into a fresh block (ids \<open>length (ranges P)\<close>, counting up,
  with default data); the original block keeps the last run, the one of
  largest signature. It returns whether a split happened and the new ids in
  creation order (the \<open>onNewBlock\<close> callbacks). The run boundary is found as
  \<open>std::upper_bound\<close> does on the sorted range, from the element after the run's
  first, which the comparator's irreflexivity allows.
\<close>

record blockData =
  absorbing :: bool
  splitter :: bool

definition defaultBlockData :: blockData where
  "defaultBlockData = \<lparr>absorbing = False, splitter = False\<rparr>"

record partition =
  pstates :: "state list"
  stateBlock :: "block_id list"
  ranges :: "(nat \<times> nat) list"
  bdata :: "blockData list"

definition getBlock :: "partition \<Rightarrow> state \<Rightarrow> block_id" where
  "getBlock P s = stateBlock P ! s"

definition blockBegin :: "partition \<Rightarrow> block_id \<Rightarrow> nat" where
  "blockBegin P b = fst (ranges P ! b)"

definition blockEnd :: "partition \<Rightarrow> block_id \<Rightarrow> nat" where
  "blockEnd P b = snd (ranges P ! b)"

definition blockStates :: "partition \<Rightarrow> block_id \<Rightarrow> state list" where
  "blockStates P b = segment (pstates P) (blockBegin P b) (blockEnd P b)"

definition blockSize :: "partition \<Rightarrow> block_id \<Rightarrow> nat" where
  "blockSize P b = blockEnd P b - blockBegin P b"

definition blockCount :: "partition \<Rightarrow> nat" where
  "blockCount P = length (ranges P)"

definition isSplitter :: "partition \<Rightarrow> block_id \<Rightarrow> bool" where
  "isSplitter P b = splitter (bdata P ! b)"

definition isAbsorbing :: "partition \<Rightarrow> block_id \<Rightarrow> bool" where
  "isAbsorbing P b = absorbing (bdata P ! b)"

definition setSplitter :: "partition \<Rightarrow> block_id \<Rightarrow> bool \<Rightarrow> partition" where
  "setSplitter P b v = P\<lparr>bdata := (bdata P)[b := (bdata P ! b)\<lparr>splitter := v\<rparr>]\<rparr>"

section \<open>Splitting a block\<close>

text \<open>The maximal runs of a sorted range: each ends at the upper bound of its first element.\<close>

fun split_runs :: "('a \<Rightarrow> 'a \<Rightarrow> bool) \<Rightarrow> 'a list \<Rightarrow> 'a list list" where
  "split_runs lt [] = []"
| "split_runs lt (x # xs) =
     (if lt x (last (x # xs))
      then (let k = length (takeWhile (\<lambda>y. \<not> lt x y) xs)
            in (x # take k xs) # split_runs lt (drop k xs))
      else [x # xs])"

text \<open>
  Carving the runs into fresh blocks, front to back, from position \<open>pos\<close>;
  the block \<open>b\<close> keeps what is left of its range.
\<close>

fun carve :: "block_id \<Rightarrow> state list list \<Rightarrow> nat \<Rightarrow> partition \<Rightarrow> partition \<times> block_id list" where
  "carve b [] pos P = (P\<lparr>ranges := (ranges P)[b := (pos, blockEnd P b)]\<rparr>, [])"
| "carve b (r # rs) pos P =
     (let nid = length (ranges P);
          P' = P\<lparr>ranges := ranges P @ [(pos, pos + length r)],
                 bdata := bdata P @ [defaultBlockData],
                 stateBlock := fold (\<lambda>s sb. sb[s := nid]) r (stateBlock P)\<rparr>;
          (P'', ids) = carve b rs (pos + length r) P'
      in (P'', nid # ids))"

definition splitBlock :: "partition \<Rightarrow> block_id \<Rightarrow> (state \<Rightarrow> state \<Rightarrow> bool) \<Rightarrow>
    bool \<times> partition \<times> block_id list" where
  "splitBlock P b lt =
     (let sorted = sort_by lt (blockStates P b);
          P1 = P\<lparr>pstates := put_segment (pstates P) (blockBegin P b) sorted\<rparr>;
          (P2, ids) = carve b (butlast (split_runs lt sorted)) (blockBegin P b) P1
      in (ids \<noteq> [], P2, ids))"

section \<open>Building a partition from its blocks\<close>

text \<open>
  An initial partition given as a list of blocks (state lists) and their
  absorbing flags: blocks are laid out one after the other.
\<close>

definition fromBlocks :: "state list list \<Rightarrow> bool list \<Rightarrow> partition" where
  "fromBlocks bs absorb =
     \<lparr>pstates = concat bs,
      stateBlock = fold (\<lambda>i sb. fold (\<lambda>s sb. sb[s := i]) (bs ! i) sb) [0..<length bs]
                     (replicate (length (concat bs)) 0),
      ranges = map (\<lambda>i. (length (concat (take i bs)), length (concat (take (Suc i) bs)))) [0..<length bs],
      bdata = map (\<lambda>a. \<lparr>absorbing = a, splitter = False\<rparr>) absorb\<rparr>"

lemma split_runs_concat: "concat (split_runs lt xs) = xs"
proof (induction lt xs rule: split_runs.induct)
  case (2 lt x xs)
  then show ?case by (simp add: Let_def)
qed simp

end
