(* ===== verification/Decomposition.thy ===== *)
theory Decomposition
  imports Distribution Model Partition
begin

text \<open>
  The nondeterministic-model bisimulation decomposition
  (\<open>src/src/storage/bisimulation/NondeterministicModelBisimulationDecomposition.cpp\<close>).
  Its state is the record \<open>decomposition\<close>: the partition (owned by the base
  class), the backward transitions (the transposed matrix the constructor
  computes), \<open>choiceToStateMapping\<close>, \<open>quotientDistributions\<close> (one
  distribution per choice) and \<open>orderedQuotientDistributions\<close> (per choice
  slot, the index of a choice whose distribution sits there: the C++ pointers
  into \<open>quotientDistributions\<close>, kept as indices). The comparator \<open>c\<close> and
  the model \<open>m\<close> are read-only parameters. The splitter queue
  (\<open>std::deque<Block*>\<close>) is a list of block ids threaded through the
  operations that push to it.
\<close>

record decomposition =
  dpart :: partition
  backwardTransitions :: "(choice \<times> prob) list list"
  choiceToStateMapping :: "state list"
  quotientDistributions :: "distribution list"
  orderedQuotientDistributions :: "choice list"

type_synonym splitter_queue = "block_id list"

section \<open>Construction and configuration errors\<close>

datatype bisimulationType = Strong | Weak
datatype optimizationDirection = Minimize | Maximize

record options =
  bisimType :: bisimulationType
  optimalityType :: "optimizationDirection option"

datatype bisim_error = IllegalFunctionCallException string

text \<open>
  The constructor (lines 18--21): the members are sized to the number of
  choices and the backward transitions computed before the check that
  rejects weak bisimulation. The initial partition is the base class's.
\<close>

definition NondeterministicModelBisimulationDecomposition ::
    "mdp \<Rightarrow> options \<Rightarrow> partition \<Rightarrow> bisim_error + decomposition" where
  "NondeterministicModelBisimulationDecomposition m opts P =
     (let D = \<lparr>dpart = P, backwardTransitions = transposeRows m,
               choiceToStateMapping = replicate (numberOfChoices m) 0,
               quotientDistributions = replicate (numberOfChoices m) [],
               orderedQuotientDistributions = replicate (numberOfChoices m) 0\<rparr>
      in if bisimType opts = Strong then Inr D
         else Inl (IllegalFunctionCallException
                ''Weak bisimulation is currently not supported for nondeterministic models.''))"

text \<open>
  \<open>getStatesWithProbability01\<close> (lines 23--31): which graph analysis it runs,
  selected by the optimization direction, or the error when there is none.
\<close>

datatype prob01Analysis = performProb01Min | performProb01Max

definition getStatesWithProbability01 :: "options \<Rightarrow> bisim_error + prob01Analysis" where
  "getStatesWithProbability01 opts =
     (case optimalityType opts of
        None \<Rightarrow> Inl (IllegalFunctionCallException
                  ''Can only compute states with probability 0/1 with an optimization direction (min/max).'')
      | Some Minimize \<Rightarrow> Inr performProb01Min
      | Some Maximize \<Rightarrow> Inr performProb01Max)"

section \<open>Initialization\<close>

text \<open>\<open>createChoiceToStateMapping\<close> (lines 39--47).\<close>

definition createChoiceToStateMapping :: "mdp \<Rightarrow> decomposition \<Rightarrow> decomposition" where
  "createChoiceToStateMapping m D =
     D\<lparr>choiceToStateMapping :=
         fold (\<lambda>state ctsm. fold (\<lambda>choice ctsm. ctsm[choice := state]) (choicesOf m state) ctsm)
              [0..<numberOfStates m] (choiceToStateMapping D)\<rparr>"

text \<open>
  \<open>updateOrderedQuotientDistributions\<close> (lines 66--73): sort the state's slots
  of \<open>orderedQuotientDistributions\<close> by \<open>Distribution::less\<close> of the
  distributions they point to.
\<close>

definition updateOrderedQuotientDistributions ::
    "comparator \<Rightarrow> mdp \<Rightarrow> state \<Rightarrow> decomposition \<Rightarrow> decomposition" where
  "updateOrderedQuotientDistributions c m state D =
     (let i = rowGroupIndices m ! state; j = rowGroupIndices m ! Suc state;
          ord = orderedQuotientDistributions D
      in D\<lparr>orderedQuotientDistributions :=
            put_segment ord i
              (sort_by (\<lambda>a b. distribution_less c (quotientDistributions D ! a)
                                                   (quotientDistributions D ! b))
                       (segment ord i j))\<rparr>)"

text \<open>
  One row replayed into a distribution over block ids, skipping the entries
  the comparator deems zero (the inner loop of lines 53--57).
\<close>

definition addRow :: "comparator \<Rightarrow> partition \<Rightarrow> (state \<times> prob) list \<Rightarrow> distribution \<Rightarrow> distribution" where
  "addRow c P row d =
     fold (\<lambda>e d. if isZero c (snd e) then d else addProbability d (getBlock P (fst e)) (snd e)) row d"

text \<open>One iteration of the first loop of \<open>initializeQuotientDistributions\<close> (lines 53--58).\<close>

definition replayChoice :: "comparator \<Rightarrow> mdp \<Rightarrow> choice \<Rightarrow> decomposition \<Rightarrow> decomposition" where
  "replayChoice c m choice D =
     D\<lparr>quotientDistributions := (quotientDistributions D)[choice :=
          addRow c (dpart D) (rows m ! choice) (quotientDistributions D ! choice)],
       orderedQuotientDistributions := (orderedQuotientDistributions D)[choice := choice]\<rparr>"

text \<open>\<open>initializeQuotientDistributions\<close> (lines 49--64).\<close>

definition initializeQuotientDistributions :: "comparator \<Rightarrow> mdp \<Rightarrow> decomposition \<Rightarrow> decomposition" where
  "initializeQuotientDistributions c m D =
     (let D1 = fold (replayChoice c m) [0..<last (rowGroupIndices m)] D
      in fold (updateOrderedQuotientDistributions c m) [0..<numberOfStates m] D1)"

text \<open>\<open>initialize\<close> (lines 33--37), named apart from the strategy search's \<open>initialize\<close>.\<close>

definition initializeDecomposition :: "comparator \<Rightarrow> mdp \<Rightarrow> decomposition \<Rightarrow> decomposition" where
  "initializeDecomposition c m D = initializeQuotientDistributions c m (createChoiceToStateMapping m D)"

section \<open>The signature order\<close>

text \<open>
  The inner \<open>while\<close> loops of \<open>quotientDistributionsLess\<close> (lines 274--279)
  followed by the \<open>++\<close> of the \<open>for\<close>: from the current distribution \<open>x\<close>,
  step over the following ones that are not larger, and return the rest.
\<close>

fun skipEqual :: "comparator \<Rightarrow> distribution \<Rightarrow> distribution list \<Rightarrow> distribution list" where
  "skipEqual c x [] = []"
| "skipEqual c x (z # zs) = (if \<not> distribution_less c x z then skipEqual c z zs else z # zs)"

lemma length_skipEqual [simp]: "length (skipEqual c x xs) \<le> length xs"
  by (induction c x xs rule: skipEqual.induct) auto

text \<open>The lock-step walk of lines 264--285 over two signatures.\<close>

function signatureLess :: "comparator \<Rightarrow> distribution list \<Rightarrow> distribution list \<Rightarrow> bool" where
  "signatureLess c (x # xs) (y # ys) =
     (if distribution_less c x y then True
      else if distribution_less c y x then False
      else signatureLess c (skipEqual c x xs) (skipEqual c y ys))"
| "signatureLess c [] (y # ys) = True"
| "signatureLess c xs [] = False"
  by pat_completeness auto
termination
  by (relation "measure (\<lambda>(c, xs, ys). length xs)") (auto simp: le_imp_less_Suc)

text \<open>The signature of a state: its slots of \<open>orderedQuotientDistributions\<close>, dereferenced.\<close>

definition signature :: "mdp \<Rightarrow> decomposition \<Rightarrow> state \<Rightarrow> distribution list" where
  "signature m D s =
     map (\<lambda>ch. quotientDistributions D ! ch)
       (segment (orderedQuotientDistributions D) (rowGroupIndices m ! s) (rowGroupIndices m ! Suc s))"

text \<open>\<open>quotientDistributionsLess\<close> (lines 249--286).\<close>

definition quotientDistributionsLess :: "comparator \<Rightarrow> mdp \<Rightarrow> decomposition \<Rightarrow> state \<Rightarrow> state \<Rightarrow> bool" where
  "quotientDistributionsLess c m D s1 s2 = signatureLess c (signature m D s1) (signature m D s2)"

section \<open>Refinement\<close>

text \<open>\<open>possiblyNeedsRefinement\<close> (lines 81--84).\<close>

definition possiblyNeedsRefinement :: "partition \<Rightarrow> block_id \<Rightarrow> bool" where
  "possiblyNeedsRefinement P b \<longleftrightarrow> 1 < blockSize P b \<and> \<not> isAbsorbing P b"

text \<open>
  One iteration of the inner loop of \<open>updateQuotientDistributionsOfPredecessors\<close>
  (lines 92--121), on one backward entry (predecessor choice, probability),
  threading the decomposition, the splitter queue and \<open>lastState\<close>
  (\<open>None\<close> while \<open>lastStateInitialized\<close> is false).
\<close>

definition processPredecessorEntry ::
    "comparator \<Rightarrow> mdp \<Rightarrow> block_id \<Rightarrow> block_id \<Rightarrow> choice \<times> prob \<Rightarrow>
     decomposition \<times> splitter_queue \<times> state option \<Rightarrow> decomposition \<times> splitter_queue \<times> state option" where
  "processPredecessorEntry c m newBlock oldBlock entry acc =
     (let (D, q, lastState) = acc; predecessorChoice = fst entry; v = snd entry
      in if isZero c v then (D, q, lastState)
      else
        (let predecessorState = choiceToStateMapping D ! predecessorChoice;
             predecessorBlock = getBlock (dpart D) predecessorState;
             (D1, q1) = (if \<not> isSplitter (dpart D) predecessorBlock
                         then (D\<lparr>dpart := setSplitter (dpart D) predecessorBlock True\<rparr>, q @ [predecessorBlock])
                         else (D, q));
             (D2, lastState2) =
               (case lastState of
                  Some l \<Rightarrow> (if l \<noteq> predecessorState
                             then (updateOrderedQuotientDistributions c m l D1, Some predecessorState)
                             else (D1, Some l))
                | None \<Rightarrow> (D1, Some (choiceToStateMapping D1 ! predecessorChoice)));
             D3 = D2\<lparr>quotientDistributions := (quotientDistributions D2)[predecessorChoice :=
                     shiftProbability (quotientDistributions D2 ! predecessorChoice) oldBlock newBlock v]\<rparr>
         in (D3, q1, lastState2)))"

text \<open>\<open>updateQuotientDistributionsOfPredecessors\<close> (lines 86--127).\<close>

definition updateQuotientDistributionsOfPredecessors ::
    "comparator \<Rightarrow> mdp \<Rightarrow> block_id \<Rightarrow> block_id \<Rightarrow> decomposition \<times> splitter_queue \<Rightarrow>
     decomposition \<times> splitter_queue" where
  "updateQuotientDistributionsOfPredecessors c m newBlock oldBlock acc =
     (let (D, q) = acc;
          entries = concat (map (\<lambda>s. backwardTransitions D ! s) (blockStates (dpart D) newBlock));
          (D', q', lastState) = fold (processPredecessorEntry c m newBlock oldBlock) entries (D, q, None)
      in (case lastState of
            Some l \<Rightarrow> (updateOrderedQuotientDistributions c m l D', q')
          | None \<Rightarrow> (D', q')))"

text \<open>
  \<open>splitBlockAccordingToCurrentQuotientDistributions\<close> (lines 215--247): split
  with \<open>quotientDistributionsLess\<close> as the order, collect the new blocks, and
  only then patch the predecessors of each new block, in creation order.
\<close>

definition splitBlockAccordingToCurrentQuotientDistributions ::
    "comparator \<Rightarrow> mdp \<Rightarrow> block_id \<Rightarrow> decomposition \<times> splitter_queue \<Rightarrow>
     bool \<times> decomposition \<times> splitter_queue" where
  "splitBlockAccordingToCurrentQuotientDistributions c m block acc =
     (let (D, q) = acc;
          (split, P', newBlocks) = splitBlock (dpart D) block (quotientDistributionsLess c m D);
          (D', q') = fold (\<lambda>nb. updateQuotientDistributionsOfPredecessors c m nb block)
                          newBlocks (D\<lparr>dpart := P'\<rparr>, q)
      in (split, D', q'))"

text \<open>\<open>refinePartitionBasedOnSplitter\<close> (lines 288--297).\<close>

definition refinePartitionBasedOnSplitter ::
    "comparator \<Rightarrow> mdp \<Rightarrow> block_id \<Rightarrow> decomposition \<times> splitter_queue \<Rightarrow> decomposition \<times> splitter_queue" where
  "refinePartitionBasedOnSplitter c m splitterBlock acc =
     (if \<not> possiblyNeedsRefinement (dpart (fst acc)) splitterBlock then acc
      else snd (splitBlockAccordingToCurrentQuotientDistributions c m splitterBlock acc))"

section \<open>Debug checks\<close>

text \<open>
  \<open>checkQuotientDistributions\<close> (lines 129--164): rebuild every choice's
  distribution from scratch (without skipping zero entries) and compare it
  with the stored one, check that equality and order agree, and that every
  state's ordered slots are sorted. \<open>False\<close> stands for the \<open>exit(-1)\<close>.
\<close>

definition rebuildDistribution :: "partition \<Rightarrow> (state \<times> prob) list \<Rightarrow> distribution" where
  "rebuildDistribution P row = fold (\<lambda>e d. addProbability d (getBlock P (fst e)) (snd e)) row []"

definition checkQuotientDistributions :: "comparator \<Rightarrow> mdp \<Rightarrow> decomposition \<Rightarrow> bool" where
  "checkQuotientDistributions c m D \<longleftrightarrow>
     list_all (\<lambda>state.
        list_all (\<lambda>choice.
            let distribution = rebuildDistribution (dpart D) (rows m ! choice);
                stored = quotientDistributions D ! choice
            in distribution_equals c distribution stored \<and>
               \<not> (distribution_equals c distribution stored \<and>
                  (distribution_less c distribution stored \<or> distribution_less c stored distribution)))
          (choicesOf m state) \<and>
        list_all (\<lambda>choice.
            \<not> distribution_less c (quotientDistributions D ! (orderedQuotientDistributions D ! Suc choice))
                                   (quotientDistributions D ! (orderedQuotientDistributions D ! choice)))
          [rowGroupIndices m ! state ..< rowGroupIndices m ! Suc state - 1])
      [0..<numberOfStates m]"

text \<open>\<open>checkBlockStable\<close> (lines 175--195): no two states of the block are ordered.\<close>

definition checkBlockStable :: "comparator \<Rightarrow> mdp \<Rightarrow> decomposition \<Rightarrow> block_id \<Rightarrow> bool" where
  "checkBlockStable c m D b \<longleftrightarrow>
     list_all (\<lambda>s1. list_all (\<lambda>s2. \<not> quotientDistributionsLess c m D s1 s2 \<and>
                                    \<not> quotientDistributionsLess c m D s2 s1)
                      (blockStates (dpart D) b))
       (blockStates (dpart D) b)"

section \<open>Configuration errors\<close>

text \<open>Requesting weak bisimulation is rejected at construction, before any work.\<close>

theorem weak_bisimulation_rejected:
  "NondeterministicModelBisimulationDecomposition m opts P =
     (if bisimType opts = Weak
      then Inl (IllegalFunctionCallException
             ''Weak bisimulation is currently not supported for nondeterministic models.'')
      else Inr \<lparr>dpart = P, backwardTransitions = transposeRows m,
                choiceToStateMapping = replicate (numberOfChoices m) 0,
                quotientDistributions = replicate (numberOfChoices m) [],
                orderedQuotientDistributions = replicate (numberOfChoices m) 0\<rparr>)"
  by (cases "bisimType opts") (simp_all add: NondeterministicModelBisimulationDecomposition_def)

text \<open>The probability-0/1 query needs an optimization direction; none is an error.\<close>

theorem prob01_requires_direction:
  "getStatesWithProbability01 opts = Inl (IllegalFunctionCallException
      ''Can only compute states with probability 0/1 with an optimization direction (min/max).'')
   \<longleftrightarrow> optimalityType opts = None"
  by (auto simp: getStatesWithProbability01_def split: option.splits optimizationDirection.splits)

section \<open>The refinement guard\<close>

text \<open>A block of at most one state, or an absorbing block, is left as it is.\<close>

theorem refine_skips_stable_blocks:
  assumes "blockSize (dpart D) b \<le> 1 \<or> isAbsorbing (dpart D) b"
  shows "refinePartitionBasedOnSplitter c m b (D, q) = (D, q)"
  using assms by (auto simp: refinePartitionBasedOnSplitter_def possiblyNeedsRefinement_def)

section \<open>The choice-to-state mapping\<close>

text \<open>After the states \<open>[0..<k]\<close>, every choice below \<open>rowGroupIndices ! k\<close> maps to its owner.\<close>

lemma ctsm_prefix:
  assumes wf: "mdp_wf m" and k: "k \<le> numberOfStates m"
    and len: "length l = numberOfChoices m"
  defines "f \<equiv> fold (\<lambda>state ctsm. fold (\<lambda>choice ctsm. ctsm[choice := state]) (choicesOf m state) ctsm)"
  shows "length (f [0..<k] l) = numberOfChoices m \<and>
    (\<forall>ch < rowGroupIndices m ! k. f [0..<k] l ! ch < k \<and> ch \<in> set (choicesOf m (f [0..<k] l ! ch)))"
  using k
proof (induction k)
  case 0
  have "rowGroupIndices m ! 0 = 0" using wf by (simp add: mdp_wf_def)
  then show ?case using len by (simp add: f_def)
next
  case (Suc k)
  let ?l = "f [0..<k] l"
  have IH: "length ?l = numberOfChoices m"
      "\<forall>ch < rowGroupIndices m ! k. ?l ! ch < k \<and> ch \<in> set (choicesOf m (?l ! ch))"
    using Suc by simp_all
  have step: "f [0..<Suc k] l = fold (\<lambda>choice ctsm. ctsm[choice := k]) (choicesOf m k) ?l"
    by (simp add: f_def)
  have mono: "rowGroupIndices m ! k \<le> rowGroupIndices m ! Suc k"
    using wf Suc.prems by (intro mdp_wf_sorted) simp_all
  have top: "rowGroupIndices m ! Suc k \<le> numberOfChoices m"
    using wf Suc.prems mdp_wf_sorted [of m "Suc k" "numberOfStates m"] mdp_wf_last [OF wf] by simp
  show ?case
  proof
    show "length (f [0..<Suc k] l) = numberOfChoices m" using IH step by simp
  next
    show "\<forall>ch < rowGroupIndices m ! Suc k. f [0..<Suc k] l ! ch < Suc k \<and>
        ch \<in> set (choicesOf m (f [0..<Suc k] l ! ch))"
  proof (intro allI impI)
    fix ch assume ch: "ch < rowGroupIndices m ! Suc k"
    then have chl: "ch < length ?l" using IH top by simp
    show "f [0..<Suc k] l ! ch < Suc k \<and> ch \<in> set (choicesOf m (f [0..<Suc k] l ! ch))"
    proof (cases "ch < rowGroupIndices m ! k")
      case True
      then have "ch \<notin> set (choicesOf m k)" by (simp add: choicesOf_mem)
      moreover have "?l ! ch < k" "ch \<in> set (choicesOf m (?l ! ch))" using IH(2) True by simp_all
      ultimately show ?thesis unfolding step using chl by (simp add: nth_fold_update)
    next
      case False
      then have "ch \<in> set (choicesOf m k)" using ch by (simp add: choicesOf_mem)
      then show ?thesis unfolding step using chl by (simp add: nth_fold_update)
    qed
  qed
  qed
qed

text \<open>
  C11: \<open>createChoiceToStateMapping\<close> maps every choice to the state whose row
  group contains it.
\<close>

theorem choiceToStateMapping_correct:
  assumes "mdp_wf m" "length (choiceToStateMapping D) = numberOfChoices m" "ch < numberOfChoices m"
  shows "choiceToStateMapping (createChoiceToStateMapping m D) ! ch < numberOfStates m \<and>
    ch \<in> set (choicesOf m (choiceToStateMapping (createChoiceToStateMapping m D) ! ch))"
  using ctsm_prefix [OF assms(1) order_refl assms(2)] assms(3) mdp_wf_last [OF assms(1)]
  by (simp add: createChoiceToStateMapping_def)

end
