(* ===== verification/QuotientStore.thy ===== *)
theory QuotientStore
  imports Driver
begin

text \<open>
  Mass conservation of the quotient distribution store (spec section 8): the
  total mass of every choice's quotient distribution is the total of the
  choice's row (the entries the comparator does not deem zero), right after
  \<open>initialize\<close> and after every step of the refinement, because
  \<open>processPredecessorEntry\<close> only ever shifts mass between two block ids and
  no other operation writes \<open>quotientDistributions\<close>. The masses are read as
  the list \<open>map dmass (quotientDistributions D)\<close>, so that the statements need
  no index bounds.
\<close>

definition rowMass :: "comparator \<Rightarrow> (state \<times> prob) list \<Rightarrow> prob" where
  "rowMass c row = sum_list (map snd (filter (\<lambda>e. \<not> isZero c (snd e)) row))"

abbreviation masses :: "decomposition \<Rightarrow> prob list" where
  "masses D \<equiv> map dmass (quotientDistributions D)"

section \<open>Initialization\<close>

lemma dmass_addRow: "dmass (addRow c P row d) = dmass d + rowMass c row"
proof (induction row arbitrary: d)
  case (Cons e row)
  then show ?case by (simp add: addRow_def rowMass_def dmass_addProbability)
qed (simp add: addRow_def rowMass_def)

lemma updateOrdered_fields [simp]:
  "quotientDistributions (updateOrderedQuotientDistributions c m s D) = quotientDistributions D"
  "dpart (updateOrderedQuotientDistributions c m s D) = dpart D"
  "choiceToStateMapping (updateOrderedQuotientDistributions c m s D) = choiceToStateMapping D"
  "backwardTransitions (updateOrderedQuotientDistributions c m s D) = backwardTransitions D"
  by (simp_all add: updateOrderedQuotientDistributions_def Let_def)

lemma fold_updateOrdered_fields [simp]:
  "quotientDistributions (fold (updateOrderedQuotientDistributions c m) xs D) = quotientDistributions D"
  "dpart (fold (updateOrderedQuotientDistributions c m) xs D) = dpart D"
  by (induction xs arbitrary: D) simp_all

lemma replayChoice_fields [simp]:
  "dpart (replayChoice c m x D) = dpart D"
  "quotientDistributions (replayChoice c m x D) =
     (quotientDistributions D)[x := addRow c (dpart D) (rows m ! x) (quotientDistributions D ! x)]"
  by (simp_all add: replayChoice_def)

lemma nth_update_notin: "ch \<in> set xs \<Longrightarrow> x \<notin> set xs \<Longrightarrow> ys[x := v] ! ch = ys ! ch"
  by (metis nth_list_update_neq)

text \<open>The replay loop of \<open>initializeQuotientDistributions\<close> over a list of distinct choices.\<close>

lemma replay_rows:
  "distinct xs \<Longrightarrow>
    dpart (fold (replayChoice c m) xs D) = dpart D \<and>
    length (quotientDistributions (fold (replayChoice c m) xs D)) = length (quotientDistributions D) \<and>
    (\<forall>ch < length (quotientDistributions D). quotientDistributions (fold (replayChoice c m) xs D) ! ch =
       (if ch \<in> set xs then addRow c (dpart D) (rows m ! ch) (quotientDistributions D ! ch)
        else quotientDistributions D ! ch))"
proof (induction xs arbitrary: D)
  case (Cons x xs)
  then show ?case by (auto simp: nth_list_update nth_update_notin)
qed simp

lemma masses_initialize:
  assumes wf: "mdp_wf m" and len: "length (quotientDistributions D) = numberOfChoices m"
    and empty: "\<forall>d \<in> set (quotientDistributions D). d = []"
  shows "masses (initializeDecomposition c m D) = map (rowMass c) (rows m)"
proof -
  let ?D = "createChoiceToStateMapping m D"
  let ?R = "fold (replayChoice c m) [0..<numberOfChoices m] ?D"
  have last: "last (rowGroupIndices m) = numberOfChoices m" using wf by (simp add: mdp_wf_def)
  have q: "quotientDistributions ?D = quotientDistributions D"
    by (simp add: createChoiceToStateMapping_def)
  have r: "length (quotientDistributions ?R) = numberOfChoices m"
    "\<forall>ch < numberOfChoices m. quotientDistributions ?R ! ch =
       addRow c (dpart ?D) (rows m ! ch) (quotientDistributions D ! ch)"
    using replay_rows [of "[0..<numberOfChoices m]" c m ?D] len q by auto
  have "masses ?R = map (rowMass c) (rows m)"
  proof (rule nth_equalityI)
    fix i assume "i < length (masses ?R)"
    then have i: "i < numberOfChoices m" using r by simp
    then have "quotientDistributions D ! i = []" using len empty nth_mem by metis
    then show "masses ?R ! i = map (rowMass c) (rows m) ! i"
      using i r by (simp add: dmass_addRow numberOfChoices_def)
  qed (use r in \<open>simp add: numberOfChoices_def\<close>)
  then show ?thesis by (simp add: initializeDecomposition_def initializeQuotientDistributions_def last)
qed

section \<open>Refinement\<close>

lemma masses_shift_update:
  "map dmass (xs[i := shiftProbability (xs ! i) a b v]) = map dmass xs"
proof (cases "i < length xs")
  case True
  then have "map dmass (xs[i := shiftProbability (xs ! i) a b v]) = (map dmass xs)[i := map dmass xs ! i]"
    by (simp add: map_update)
  also have "\<dots> = map dmass xs" by (rule list_update_id)
  finally show ?thesis .
qed (simp add: list_update_beyond)

lemma quotientDistributions_processPredecessorEntry:
  "quotientDistributions (fst (processPredecessorEntry c m nb ob e acc)) =
     (if isZero c (snd e) then quotientDistributions (fst acc)
      else (quotientDistributions (fst acc))[fst e :=
             shiftProbability (quotientDistributions (fst acc) ! fst e) ob nb (snd e)])"
  by (cases acc) (auto simp: processPredecessorEntry_def Let_def split: prod.splits option.splits)

lemma masses_processPredecessorEntry [simp]:
  "masses (fst (processPredecessorEntry c m nb ob e acc)) = masses (fst acc)"
  by (simp add: quotientDistributions_processPredecessorEntry masses_shift_update)

lemma masses_fold_processPredecessorEntry:
  "masses (fst (fold (processPredecessorEntry c m nb ob) es acc)) = masses (fst acc)"
  by (induction es arbitrary: acc) simp_all

lemma masses_updatePredecessors [simp]:
  "masses (fst (updateQuotientDistributionsOfPredecessors c m nb ob acc)) = masses (fst acc)"
proof -
  obtain D q where acc: "acc = (D, q)" by fastforce
  let ?es = "concat (map (\<lambda>s. backwardTransitions D ! s) (blockStates (dpart D) nb))"
  obtain D' q' l where r: "fold (processPredecessorEntry c m nb ob) ?es (D, q, None) = (D', q', l)"
    by (metis prod.exhaust)
  have "masses D' = masses D"
    using masses_fold_processPredecessorEntry [of c m nb ob ?es "(D, q, None)"] r by simp
  then show ?thesis
    using r by (simp add: acc updateQuotientDistributionsOfPredecessors_def split: option.splits)
qed

lemma masses_fold_updatePredecessors:
  "masses (fst (fold (\<lambda>nb. updateQuotientDistributionsOfPredecessors c m nb ob) bs acc)) = masses (fst acc)"
  by (induction bs arbitrary: acc) simp_all

lemma masses_splitBlockAccording:
  "masses (fst (snd (splitBlockAccordingToCurrentQuotientDistributions c m b acc))) = masses (fst acc)"
proof -
  obtain D q where acc: "acc = (D, q)" by fastforce
  obtain sp P' nbs where s: "splitBlock (dpart D) b (quotientDistributionsLess c m D) = (sp, P', nbs)"
    by (metis prod.exhaust)
  show ?thesis
    using masses_fold_updatePredecessors [of c m b nbs "(D\<lparr>dpart := P'\<rparr>, q)"]
    by (simp add: acc s splitBlockAccordingToCurrentQuotientDistributions_def split: prod.splits)
qed

text \<open>
  C2: Mass conservation holds at every step of the refinement:
  \<open>refinePartitionBasedOnSplitter\<close> leaves the total mass of every choice's
  quotient distribution unchanged.
\<close>

theorem refine_preserves_masses:
  "masses (fst (refinePartitionBasedOnSplitter c m b acc)) = masses (fst acc)"
  by (simp add: refinePartitionBasedOnSplitter_def masses_splitBlockAccording)

lemma masses_refinementLoop:
  "refinementLoop c m fuel acc = Some D \<Longrightarrow> masses D = masses (fst acc)"
proof (induction c m fuel acc rule: refinementLoop.induct)
  case (3 c m fuel D b q)
  then show ?case by (simp add: masses_splitBlockAccording refinePartitionBasedOnSplitter_def split: if_splits)
qed simp_all

text \<open>
  C1: Mass conservation of the whole decomposition: on a well-formed model,
  when the refinement reaches its fixpoint, every choice's quotient
  distribution has the total mass of the choice's row.
\<close>

theorem decompose_mass_conservation:
  assumes "mdp_wf m" "decompose c m opts P fuel = Inr (Some D)"
  shows "masses D = map (rowMass c) (rows m)"
proof -
  obtain D0 where ctor: "NondeterministicModelBisimulationDecomposition m opts P = Inr D0"
    using assms(2) by (auto simp: decompose_def split: sum.splits)
  then have len: "length (quotientDistributions D0) = numberOfChoices m"
    and empty: "\<forall>d \<in> set (quotientDistributions D0). d = []"
    by (auto simp: NondeterministicModelBisimulationDecomposition_def split: if_splits)
  have loop: "refinementLoop c m fuel ((initializeDecomposition c m D0)\<lparr>dpart := markAllSplitters (dpart (initializeDecomposition c m D0))\<rparr>,
      [0..<blockCount (dpart (initializeDecomposition c m D0))]) = Some D"
    using assms(2) ctor by (simp add: decompose_def Let_def)
  show ?thesis
    using masses_refinementLoop [OF loop] masses_initialize [OF assms(1) len empty] by simp
qed

end
