(* ===== verification/Signature.thy ===== *)
theory Signature
  imports Decomposition
begin

text \<open>
  What \<open>quotientDistributionsLess\<close> compares. On signatures whose
  distributions are well formed and which are sorted by \<open>Distribution::less\<close>
  (as \<open>updateOrderedQuotientDistributions\<close> leaves them), and under the exact
  comparator, the run-skipping walk \<open>signatureLess\<close> is the lexicographic
  order on the deduplicated signatures, read as lists of mass functions
  (\<open>sigKey\<close>). Hence it is a strict weak order, as \<open>std::sort\<close> needs in
  \<open>splitBlock\<close>, and two signatures are incomparable exactly when they hold
  the same set of distributions: the step condition of strong bisimulation.
\<close>

definition lexRel :: "((block_id \<Rightarrow> prob) \<times> (block_id \<Rightarrow> prob)) set" where
  "lexRel = {(f, g). lex_less f g}"

definition sigKey :: "distribution list \<Rightarrow> (block_id \<Rightarrow> prob) list" where
  "sigKey xs = map dget (remdups_adj xs)"

definition sig_wf :: "distribution list \<Rightarrow> bool" where
  "sig_wf xs \<longleftrightarrow> (\<forall>d \<in> set xs. dist_wf d) \<and> sorted_by (distribution_less exact_comparator) xs"

lemma lexRel_irrefl: "\<forall>x. (x, x) \<notin> lexRel"
  by (simp add: lexRel_def lex_less_irrefl)

lemma lexRel_trans: "trans lexRel"
  by (auto simp: lexRel_def trans_def intro: lex_less_trans)

lemma lexRel_linear: "\<forall>x y. (x, y) \<in> lexRel \<or> x = y \<or> (y, x) \<in> lexRel"
  using lex_less_total by (auto simp: lexRel_def)

lemma sig_wf_Cons: "sig_wf (x # xs) \<longleftrightarrow> dist_wf x \<and> (\<forall>z \<in> set xs. \<not> distribution_less exact_comparator z x) \<and> sig_wf xs"
  by (auto simp: sig_wf_def)

lemma sig_wf_dropWhile: "sig_wf xs \<Longrightarrow> sig_wf (dropWhile P xs)"
proof (induction xs)
  case (Cons x xs)
  then show ?case by (auto simp: sig_wf_Cons)
qed simp

lemma dl_exact_iff:
  "dist_wf x \<Longrightarrow> dist_wf y \<Longrightarrow> distribution_less exact_comparator x y \<longleftrightarrow> lex_less (dget x) (dget y)"
  by (simp add: dist_wf_keys_sorted distribution_less_lex_less)

lemma skipEqual_dropWhile:
  "sig_wf (x # xs) \<Longrightarrow> skipEqual exact_comparator x xs = dropWhile (\<lambda>z. z = x) xs"
proof (induction xs)
  case Nil
  then show ?case by simp
next
  case (Cons z zs)
  have wx: "dist_wf x" and wz: "dist_wf z" and nzx: "\<not> distribution_less exact_comparator z x"
    using Cons.prems by (simp_all add: sig_wf_Cons)
  show ?case
  proof (cases "distribution_less exact_comparator x z")
    case True
    then have "z \<noteq> x" using wx dl_exact_iff lex_less_irrefl by metis
    then show ?thesis using True by simp
  next
    case False
    then have "z = x" using distribution_less_wf_total [OF wx wz] nzx by simp
    moreover have "sig_wf (x # zs)" using Cons.prems \<open>z = x\<close> by (simp add: sig_wf_Cons)
    ultimately show ?thesis using Cons.IH False by simp
  qed
qed

lemma remdups_adj_dropWhile_eq:
  "remdups_adj (x # xs) = x # remdups_adj (dropWhile (\<lambda>z. z = x) xs)"
proof (induction xs)
  case (Cons z zs)
  show ?case
  proof (cases "z = x")
    case False
    then show ?thesis by simp
  qed (use Cons in simp)
qed simp

lemma sigKey_Nil [simp]: "sigKey [] = []"
  by (simp add: sigKey_def)

lemma sigKey_Cons:
  "sigKey (x # xs) = dget x # sigKey (dropWhile (\<lambda>z. z = x) xs)"
  by (simp add: sigKey_def remdups_adj_dropWhile_eq)

text \<open>The walk is the lexicographic order on the keys.\<close>

lemma signatureLess_lexord:
  "c = exact_comparator \<Longrightarrow> sig_wf xs \<Longrightarrow> sig_wf ys \<Longrightarrow>
   signatureLess c xs ys \<longleftrightarrow> (sigKey xs, sigKey ys) \<in> lexord lexRel"
proof (induction c xs ys rule: signatureLess.induct)
  case (1 c x xs y ys)
  have wx: "dist_wf x" and wy: "dist_wf y" using "1.prems" by (simp_all add: sig_wf_Cons)
  show ?case
  proof (cases "distribution_less c x y")
    case True
    then show ?thesis using "1.prems"(1) wx wy by (simp add: sigKey_Cons lexRel_def dl_exact_iff)
  next
    case False
    show ?thesis
    proof (cases "distribution_less c y x")
      case True
      then have "lex_less (dget y) (dget x)" using "1.prems"(1) wx wy by (simp add: dl_exact_iff)
      then have "\<not> lex_less (dget x) (dget y)" "dget x \<noteq> dget y"
        using lex_less_trans lex_less_irrefl by (blast, metis)
      then show ?thesis using False True by (simp add: sigKey_Cons lexRel_def)
    next
      case False': False
      then have "x = y" using False "1.prems"(1) distribution_less_wf_total [OF wx wy] by simp
      have sx: "skipEqual c x xs = dropWhile (\<lambda>z. z = x) xs"
        and sy: "skipEqual c y ys = dropWhile (\<lambda>z. z = y) ys"
        using "1.prems" skipEqual_dropWhile by simp_all
      have "signatureLess c (skipEqual c x xs) (skipEqual c y ys) \<longleftrightarrow>
          (sigKey (skipEqual c x xs), sigKey (skipEqual c y ys)) \<in> lexord lexRel"
        using "1.IH" False False' "1.prems" sx sy by (simp add: sig_wf_dropWhile sig_wf_Cons)
      then show ?thesis using False False' \<open>x = y\<close> sx sy
        by (simp add: sigKey_Cons lexRel_def lex_less_irrefl)
    qed
  qed
next
  case (2 c y ys)
  then show ?case by (simp add: sigKey_Cons)
next
  case (3 c xs)
  then show ?case by (simp add: sigKey_def)
qed

lemma dl_exact_total:
  "dist_wf x \<Longrightarrow> dist_wf z \<Longrightarrow> \<not> distribution_less exact_comparator z x \<Longrightarrow> z \<noteq> x \<Longrightarrow>
   distribution_less exact_comparator x z"
proof (rule ccontr)
  assume "dist_wf x" "dist_wf z" "\<not> distribution_less exact_comparator z x" "z \<noteq> x"
    "\<not> distribution_less exact_comparator x z"
  then show False using distribution_less_wf_total [of x z] by simp
qed

lemma notin_dropWhile_head:
  "sig_wf (x # xs) \<Longrightarrow> x \<notin> set (dropWhile (\<lambda>z. z = x) xs)"
proof (induction xs)
  case (Cons z zs)
  show ?case
  proof (cases "z = x")
    case True
    then show ?thesis using Cons by (simp add: sig_wf_Cons)
  next
    case False
    have wx: "dist_wf x" and wz: "dist_wf z" and nzx: "\<not> distribution_less exact_comparator z x"
      and nwz: "\<forall>w \<in> set zs. \<not> distribution_less exact_comparator w z"
      using Cons.prems by (auto simp: sig_wf_Cons)
    have "distribution_less exact_comparator x z" using dl_exact_total [OF wx wz nzx False] .
    then have "x \<notin> set zs" using nwz by auto
    then show ?thesis using False by simp
  qed
qed simp

lemma set_sigKey: "set (sigKey xs) = dget ` set xs"
  by (simp add: sigKey_def)

lemma sigKey_sorted: "sig_wf xs \<Longrightarrow> sorted_wrt lex_less (sigKey xs)"
proof (induction "length xs" arbitrary: xs rule: less_induct)
  case less
  show ?case
  proof (cases xs)
    case (Cons x xs')
    let ?r = "dropWhile (\<lambda>z. z = x) xs'"
    have wf: "sig_wf (x # xs')" using less.prems Cons by simp
    have "length ?r < length xs" using Cons by (simp add: le_imp_less_Suc length_dropWhile_le)
    moreover have "sig_wf ?r" using wf by (simp add: sig_wf_Cons sig_wf_dropWhile)
    ultimately have tail: "sorted_wrt lex_less (sigKey ?r)" using less.hyps by blast
    have "\<forall>z \<in> set ?r. lex_less (dget x) (dget z)"
    proof
      fix z assume z: "z \<in> set ?r"
      then have zs: "z \<in> set xs'" by (meson set_dropWhileD)
      have "z \<noteq> x" using z notin_dropWhile_head [OF wf] by blast
      moreover have "dist_wf x" "dist_wf z" "\<not> distribution_less exact_comparator z x"
        using wf zs by (auto simp: sig_wf_Cons sig_wf_def)
      ultimately have "distribution_less exact_comparator x z" by (simp add: dl_exact_total)
      then show "lex_less (dget x) (dget z)" using \<open>dist_wf x\<close> \<open>dist_wf z\<close> by (simp add: dl_exact_iff)
    qed
    then show ?thesis using tail Cons by (simp add: sigKey_Cons set_sigKey)
  qed simp
qed

lemma dget_inj_wf: "inj_on dget {d. dist_wf d}"
  by (rule inj_onI) (simp add: dist_canonical)

text \<open>
  C3: Two sorted signatures of well-formed distributions are incomparable under
  \<open>quotientDistributionsLess\<close>'s walk exactly when they contain the same
  distributions (duplicates and order aside).
\<close>

theorem signature_incomparable_iff_same_set:
  assumes "sig_wf xs" "sig_wf ys"
  shows "(\<not> signatureLess exact_comparator xs ys \<and> \<not> signatureLess exact_comparator ys xs) \<longleftrightarrow>
    set xs = set ys"
proof -
  have "(\<not> signatureLess exact_comparator xs ys \<and> \<not> signatureLess exact_comparator ys xs) \<longleftrightarrow>
      sigKey xs = sigKey ys"
  proof -
    have l1: "signatureLess exact_comparator xs ys \<longleftrightarrow> (sigKey xs, sigKey ys) \<in> lexord lexRel"
      and l2: "signatureLess exact_comparator ys xs \<longleftrightarrow> (sigKey ys, sigKey xs) \<in> lexord lexRel"
      using assms by (simp_all add: signatureLess_lexord)
    have lin: "(sigKey xs, sigKey ys) \<in> lexord lexRel \<or> sigKey xs = sigKey ys \<or>
        (sigKey ys, sigKey xs) \<in> lexord lexRel"
      by (rule lexord_linear [OF lexRel_linear])
    have irr: "(sigKey xs, sigKey xs) \<notin> lexord lexRel"
      by (rule lexord_irreflexive [OF lexRel_irrefl])
    show ?thesis unfolding l1 l2
    proof
      assume "(sigKey xs, sigKey ys) \<notin> lexord lexRel \<and> (sigKey ys, sigKey xs) \<notin> lexord lexRel"
      then show "sigKey xs = sigKey ys" using lin by blast
    next
      assume "sigKey xs = sigKey ys"
      then show "(sigKey xs, sigKey ys) \<notin> lexord lexRel \<and> (sigKey ys, sigKey xs) \<notin> lexord lexRel"
        using irr by simp
    qed
  qed
  also have "\<dots> \<longleftrightarrow> set (sigKey xs) = set (sigKey ys)"
  proof
    assume eq: "set (sigKey xs) = set (sigKey ys)"
    have irr: "\<And>f. \<not> lex_less f f" by (rule lex_less_irrefl)
    have tr: "\<And>f g h. lex_less f g \<Longrightarrow> lex_less g h \<Longrightarrow> lex_less f h"
      by (rule lex_less_trans)
    show "sigKey xs = sigKey ys"
      by (rule sorted_wrt_unique [OF irr tr sigKey_sorted [OF assms(1)] sigKey_sorted [OF assms(2)] eq])
  qed simp
  also have "\<dots> \<longleftrightarrow> set xs = set ys"
  proof -
    have "set xs \<subseteq> {d. dist_wf d}" "set ys \<subseteq> {d. dist_wf d}"
      using assms by (auto simp: sig_wf_def)
    then show ?thesis by (simp add: set_sigKey inj_on_image_eq_iff [OF dget_inj_wf])
  qed
  finally show ?thesis .
qed

text \<open>
  C4: On sorted signatures of well-formed distributions the walk is a strict
  weak order, the requirement \<open>std::sort\<close> places on the comparator
  \<open>splitBlock\<close> receives.
\<close>

theorem signatureLess_strict_weak_order:
  "strict_weak_order_on {xs. sig_wf xs} (signatureLess exact_comparator)"
proof (rule swo_cong)
  show "strict_weak_order_on {xs. sig_wf xs} (\<lambda>a b. (sigKey a, sigKey b) \<in> lexord lexRel)"
  proof (rule swo_inv_image)
    show "\<forall>x. (x, x) \<notin> lexord lexRel" using lexord_irreflexive [OF lexRel_irrefl] by blast
    show "trans (lexord lexRel)" by (rule lexord_transI [OF lexRel_trans])
    show "\<forall>x y. (x, y) \<in> lexord lexRel \<or> x = y \<or> (y, x) \<in> lexord lexRel"
      using lexord_linear [OF lexRel_linear] by blast
  qed
next
  fix a b assume "a \<in> {xs. sig_wf xs}" "b \<in> {xs. sig_wf xs}"
  then show "signatureLess exact_comparator a b \<longleftrightarrow> (sigKey a, sigKey b) \<in> lexord lexRel"
    by (simp add: signatureLess_lexord)
qed

end
