(* ===== verification/Mtbdd.thy ===== *)
theory Mtbdd
  imports Prelude "HOL-Library.Word"
begin

unbundle bit_operations_syntax

text \<open>
  Storm's extensions of the sylvan MTBDD package
  (\<open>src/resources/3rdparty/sylvan/src/sylvan_mtbdd_storm.c\<close>). A diagram is
  the Boolean constant \<open>mtbdd_false\<close> or \<open>mtbdd_true\<close>, a leaf, or an inner node
  with a variable level and its low (variable false) and high cofactors, as
  in \<open>mtbdd_makenode(level, low, high)\<close>. A leaf carries sylvan's type id and
  its 64-bit value: type 0 is an \<open>int64_t\<close> (a \<open>64 word\<close>, read with \<open>sint\<close>),
  type 1 a \<open>double\<close> (modelled as a real number: the operations below only
  compare doubles with each other and with 0 and 1, except division, whose
  rounding is not modelled), type 2 a fraction packed as numerator in the
  high and denominator in the low 32 bits, and any other id a leaf of a type
  the operations do not handle (rational functions only exist in builds with
  CARL, which are not modelled). The leaf operations return \<open>Done\<close> with
  a result, \<open>Invalid\<close> for \<open>mtbdd_invalid\<close> (the apply framework then
  recurses into the cofactors), or \<open>Abort\<close> for an \<open>assert(0)\<close>.
\<close>

datatype leaf =
    LInt "64 word"
  | LDouble real
  | LFraction "64 word"
  | LOther nat "64 word"

datatype mtbdd = MFalse | MTrue | MLeaf leaf | MNode nat mtbdd mtbdd

datatype opres = Done mtbdd | Invalid | Abort string

text \<open>The type id of a leaf (\<open>mtbddnode_gettype\<close>).\<close>

fun leafType :: "leaf \<Rightarrow> nat" where
  "leafType (LInt _) = 0"
| "leafType (LDouble _) = 1"
| "leafType (LFraction _) = 2"
| "leafType (LOther t _) = t"

section \<open>Packed fractions\<close>

text \<open>
  The code unpacks a fraction leaf as \<open>val >> 32\<close> and \<open>val & 0xffffffff\<close>,
  both \<open>uint64_t\<close>; \<open>frac_val\<close> is the rational number this unsigned reading
  denotes.
\<close>

definition frac_nom :: "64 word \<Rightarrow> 64 word" where
  "frac_nom v = drop_bit 32 v"

definition frac_denom :: "64 word \<Rightarrow> 64 word" where
  "frac_denom v = v AND 0xffffffff"

definition frac_val :: "64 word \<Rightarrow> rat" where
  "frac_val v = of_nat (unat (frac_nom v)) / of_nat (unat (frac_denom v))"

text \<open>
  \<open>mtbdd_fraction(nom, denom)\<close> (sylvan, not in the repository): the leaf of
  type 2 whose high half is the numerator and low half the denominator,
  each cut to 32 bits.
\<close>

definition pack_fraction :: "64 word \<Rightarrow> 64 word \<Rightarrow> 64 word" where
  "pack_fraction n d = push_bit 32 n OR (d AND 0xffffffff)"

definition mtbdd_fraction :: "64 word \<Rightarrow> 64 word \<Rightarrow> mtbdd" where
  "mtbdd_fraction n d = MLeaf (LFraction (pack_fraction n d))"

section \<open>Binary leaf operations\<close>

text \<open>\<open>mtbdd_op_divide\<close> (lines 44--109).\<close>

definition mtbdd_op_divide :: "mtbdd \<Rightarrow> mtbdd \<Rightarrow> opres" where
  "mtbdd_op_divide a b =
     (if a = MFalse \<or> b = MFalse then Done MFalse
      else case (a, b) of
        (MLeaf (LInt va), MLeaf (LInt vb)) \<Rightarrow>
          if va = 0 then Done a
          else if vb = 0 then Done b
          else if va = 1 then Done b
          else if vb = 1 then Done a
          else Done (MLeaf (LInt (va * vb)))
      | (MLeaf (LDouble x), MLeaf (LDouble y)) \<Rightarrow>
          if x = 0 then Done a
          else if y = 0 then Done b
          else Done (MLeaf (LDouble (x / y)))
      | (MLeaf (LFraction va), MLeaf (LFraction vb)) \<Rightarrow>
          (let nom_a = frac_nom va; nom_b = frac_nom vb;
               denom_a = frac_denom va; denom_b = frac_denom vb;
               c = word_of_nat (gcd (unat denom_b) (unat denom_a)) :: 64 word;
               d = word_of_nat (gcd (unat nom_a) (unat nom_b)) :: 64 word
           in if d = 0 then Abort ''integer division by zero''
              else if c = 0 then Abort ''integer division by zero''
              else Done (mtbdd_fraction ((nom_a div d) * (denom_b div c))
                                        ((denom_a div c) * (nom_b div d))))
      | _ \<Rightarrow> Invalid)"

text \<open>
  \<open>mtbdd_op_equals\<close> (lines 117--163). The final swap of \<open>*pa\<close> and \<open>*pb\<close>
  only orders the operands of this commutative operation for the operation
  cache by their node index, which the model does not have.
\<close>

definition mtbdd_op_equals :: "mtbdd \<Rightarrow> mtbdd \<Rightarrow> opres" where
  "mtbdd_op_equals a b =
     (if a = MFalse \<and> b = MFalse then Done MTrue
      else if a = MTrue \<and> b = MTrue then Done MTrue
      else case (a, b) of
        (MLeaf (LInt va), MLeaf (LInt vb)) \<Rightarrow> Done (if va = vb then MTrue else MFalse)
      | (MLeaf (LDouble x), MLeaf (LDouble y)) \<Rightarrow> Done (if x = y then MTrue else MFalse)
      | (MLeaf (LFraction va), MLeaf (LFraction vb)) \<Rightarrow>
          Done (if frac_nom va = frac_nom vb \<and> frac_denom va = frac_denom vb then MTrue else MFalse)
      | _ \<Rightarrow> Invalid)"

text \<open>\<open>mtbdd_op_less\<close> (lines 171--211).\<close>

definition mtbdd_op_less :: "mtbdd \<Rightarrow> mtbdd \<Rightarrow> opres" where
  "mtbdd_op_less a b =
     (if a = MFalse \<and> b = MFalse then Done MTrue
      else if a = MTrue \<and> b = MTrue then Done MTrue
      else case (a, b) of
        (MLeaf (LInt va), MLeaf (LInt vb)) \<Rightarrow> Done (if sint va < sint vb then MTrue else MFalse)
      | (MLeaf (LDouble x), MLeaf (LDouble y)) \<Rightarrow> Done (if x < y then MTrue else MFalse)
      | (MLeaf (LFraction va), MLeaf (LFraction vb)) \<Rightarrow>
          Done (if frac_nom va * frac_denom vb < frac_nom vb * frac_denom va then MTrue else MFalse)
      | _ \<Rightarrow> Invalid)"

text \<open>\<open>mtbdd_op_less_or_equal\<close> (lines 219--260).\<close>

definition mtbdd_op_less_or_equal :: "mtbdd \<Rightarrow> mtbdd \<Rightarrow> opres" where
  "mtbdd_op_less_or_equal a b =
     (if a = MFalse \<and> b = MFalse then Done MTrue
      else if a = MTrue \<and> b = MTrue then Done MTrue
      else case (a, b) of
        (MLeaf (LInt va), MLeaf (LInt vb)) \<Rightarrow> Done (if sint va \<le> sint vb then MTrue else MFalse)
      | (MLeaf (LDouble x), MLeaf (LDouble y)) \<Rightarrow> Done (if x \<le> y then MTrue else MFalse)
      | (MLeaf (LFraction va), MLeaf (LFraction vb)) \<Rightarrow>
          Done (if frac_nom va * frac_denom vb \<le> frac_nom vb * frac_denom va then MTrue else MFalse)
      | _ \<Rightarrow> Invalid)"

text \<open>
  The C library functions the double branches of \<open>pow\<close>, \<open>mod\<close> and
  \<open>logxy\<close> call (\<open>pow\<close>, \<open>fmod\<close>, \<open>log\<close> of libm), passed as parameters.
\<close>

record libm =
  c_pow :: "real \<Rightarrow> real \<Rightarrow> real"
  c_fmod :: "real \<Rightarrow> real \<Rightarrow> real"
  c_log :: "real \<Rightarrow> real"

text \<open>
  The three operations defined on double leaves only (lines 268--371):
  integer and fraction leaves hit \<open>assert(0)\<close>.
\<close>

definition doubleOnlyOp :: "(real \<Rightarrow> real \<Rightarrow> real) \<Rightarrow> mtbdd \<Rightarrow> mtbdd \<Rightarrow> opres" where
  "doubleOnlyOp f a b =
     (case (a, b) of
        (MLeaf (LInt _), MLeaf (LInt _)) \<Rightarrow> Abort ''assert(0)''
      | (MLeaf (LDouble x), MLeaf (LDouble y)) \<Rightarrow> Done (MLeaf (LDouble (f x y)))
      | (MLeaf (LFraction _), MLeaf (LFraction _)) \<Rightarrow> Abort ''assert(0)''
      | _ \<Rightarrow> Invalid)"

definition mtbdd_op_pow :: "libm \<Rightarrow> mtbdd \<Rightarrow> mtbdd \<Rightarrow> opres" where
  "mtbdd_op_pow L = doubleOnlyOp (c_pow L)"

definition mtbdd_op_mod :: "libm \<Rightarrow> mtbdd \<Rightarrow> mtbdd \<Rightarrow> opres" where
  "mtbdd_op_mod L = doubleOnlyOp (c_fmod L)"

definition mtbdd_op_logxy :: "libm \<Rightarrow> mtbdd \<Rightarrow> mtbdd \<Rightarrow> opres" where
  "mtbdd_op_logxy L = doubleOnlyOp (\<lambda>x y. c_log L x / c_log L y)"

section \<open>Unary leaf operations\<close>

text \<open>\<open>mtbdd_op_not_zero\<close> (lines 373--401).\<close>

definition mtbdd_op_not_zero :: "mtbdd \<Rightarrow> opres" where
  "mtbdd_op_not_zero a =
     (case a of
        MFalse \<Rightarrow> Done MFalse
      | MTrue \<Rightarrow> Done MTrue
      | MLeaf (LInt v) \<Rightarrow> Done (if v \<noteq> 0 then MTrue else MFalse)
      | MLeaf (LDouble x) \<Rightarrow> Done (if x \<noteq> 0 then MTrue else MFalse)
      | MLeaf (LFraction v) \<Rightarrow> Done (if frac_nom v \<noteq> 0 then MTrue else MFalse)
      | _ \<Rightarrow> Invalid)"

text \<open>\<open>mtbdd_op_floor\<close> (lines 408--439).\<close>

definition mtbdd_op_floor :: "mtbdd \<Rightarrow> opres" where
  "mtbdd_op_floor a =
     (case a of
        MFalse \<Rightarrow> Done MFalse
      | MTrue \<Rightarrow> Done MTrue
      | MLeaf (LInt v) \<Rightarrow> Done a
      | MLeaf (LDouble x) \<Rightarrow> Done (MLeaf (LDouble (of_int \<lfloor>x\<rfloor>)))
      | MLeaf (LFraction v) \<Rightarrow>
          if frac_denom v = 0 then Abort ''integer division by zero''
          else Done (mtbdd_fraction (frac_nom v div frac_denom v) 1)
      | _ \<Rightarrow> Invalid)"

text \<open>\<open>mtbdd_op_ceil\<close> (lines 446--477).\<close>

definition mtbdd_op_ceil :: "mtbdd \<Rightarrow> opres" where
  "mtbdd_op_ceil a =
     (case a of
        MFalse \<Rightarrow> Done MFalse
      | MTrue \<Rightarrow> Done MTrue
      | MLeaf (LInt v) \<Rightarrow> Done a
      | MLeaf (LDouble x) \<Rightarrow> Done (MLeaf (LDouble (of_int \<lceil>x\<rceil>)))
      | MLeaf (LFraction v) \<Rightarrow>
          if frac_denom v = 0 then Abort ''integer division by zero''
          else Done (mtbdd_fraction (frac_nom v div frac_denom v + 1) 1)
      | _ \<Rightarrow> Invalid)"

text \<open>\<open>mtbdd_op_bool_to_double\<close> and \<open>mtbdd_op_bool_to_int64\<close> (lines 484--511).\<close>

definition mtbdd_op_bool_to_double :: "mtbdd \<Rightarrow> opres" where
  "mtbdd_op_bool_to_double a =
     (case a of MFalse \<Rightarrow> Done (MLeaf (LDouble 0)) | MTrue \<Rightarrow> Done (MLeaf (LDouble 1)) | _ \<Rightarrow> Invalid)"

definition mtbdd_op_bool_to_int64 :: "mtbdd \<Rightarrow> opres" where
  "mtbdd_op_bool_to_int64 a =
     (case a of MFalse \<Rightarrow> Done (MLeaf (LInt 0)) | MTrue \<Rightarrow> Done (MLeaf (LInt 1)) | _ \<Rightarrow> Invalid)"

text \<open>\<open>mtbdd_op_complement\<close> (lines 590--627): false stays false, a partial function.\<close>

definition mtbdd_op_complement :: "mtbdd \<Rightarrow> opres" where
  "mtbdd_op_complement a =
     (case a of
        MFalse \<Rightarrow> Done MFalse
      | MLeaf (LInt v) \<Rightarrow> Done (MLeaf (LInt (if v = 0 then 1 else 0)))
      | MLeaf (LDouble x) \<Rightarrow> Done (MLeaf (LDouble (if x = 0 then 1 else 0)))
      | MLeaf (LFraction _) \<Rightarrow> Abort ''assert(0)''
      | _ \<Rightarrow> Invalid)"

text \<open>\<open>mtbdd_iszero\<close> and \<open>mtbdd_isnonzero\<close> (lines 565--583), on a leaf.\<close>

fun mtbdd_iszero :: "leaf \<Rightarrow> bool" where
  "mtbdd_iszero (LInt v) = (v = 0)"
| "mtbdd_iszero (LDouble x) = (x = 0)"
| "mtbdd_iszero (LFraction v) = (frac_nom v = 0)"
| "mtbdd_iszero (LOther _ _) = False"

definition mtbdd_isnonzero :: "leaf \<Rightarrow> bool" where
  "mtbdd_isnonzero l = (\<not> mtbdd_iszero l)"

section \<open>Fractions: bounds and values\<close>

lemma unat_frac_nom_less: "unat (frac_nom v) < 2 ^ 32"
proof -
  have "unat (frac_nom v) = unat v div 2 ^ 32"
    by (simp add: frac_nom_def drop_bit_eq_div unat_div)
  moreover have "unat v < 2 ^ 64" using unsigned_less [of v] by simp
  ultimately show ?thesis by simp
qed

lemma unat_frac_denom_less: "unat (frac_denom v) < 2 ^ 32"
proof -
  have "frac_denom v \<le> 0xffffffff" by (simp add: frac_denom_def word_and_le1)
  then have "unat (frac_denom v) \<le> unat (0xffffffff :: 64 word)" by (simp add: word_le_nat_alt)
  then show ?thesis by simp
qed

lemma unat_frac_mult:
  "unat (frac_nom a * frac_denom b) = unat (frac_nom a) * unat (frac_denom b)"
proof (rule unat_mult_lem [THEN iffD1])
  have "unat (frac_nom a) * unat (frac_denom b) < 2 ^ 32 * 2 ^ 32"
    using unat_frac_nom_less [of a] unat_frac_denom_less [of b] by (intro mult_strict_mono) simp_all
  then show "unat (frac_nom a) * unat (frac_denom b) < 2 ^ LENGTH(64)" by simp
qed

lemma frac_cross_less:
  fixes a b c d :: nat
  assumes "0 < b" "0 < d"
  shows "(of_nat a / of_nat b < (of_nat c / of_nat d :: rat)) \<longleftrightarrow> a * d < c * b"
proof -
  have "(of_nat a / of_nat b < (of_nat c / of_nat d :: rat)) \<longleftrightarrow> of_nat a * of_nat d < (of_nat c * of_nat b :: rat)"
    using assms by (simp add: divide_less_eq less_divide_eq mult.commute mult.left_commute)
  also have "\<dots> \<longleftrightarrow> a * d < c * b" by (simp flip: of_nat_mult)
  finally show ?thesis .
qed

lemma frac_cross_le:
  fixes a b c d :: nat
  assumes "0 < b" "0 < d"
  shows "(of_nat a / of_nat b \<le> (of_nat c / of_nat d :: rat)) \<longleftrightarrow> a * d \<le> c * b"
  using frac_cross_less [OF assms(2,1), of c a] by (simp add: not_less [symmetric])

lemma frac_val_less:
  "frac_denom va \<noteq> 0 \<Longrightarrow> frac_denom vb \<noteq> 0 \<Longrightarrow> frac_val va < frac_val vb \<longleftrightarrow>
     unat (frac_nom va) * unat (frac_denom vb) < unat (frac_nom vb) * unat (frac_denom va)"
  unfolding frac_val_def by (rule frac_cross_less) (simp_all add: unat_gt_0)

lemma frac_val_le:
  "frac_denom va \<noteq> 0 \<Longrightarrow> frac_denom vb \<noteq> 0 \<Longrightarrow> frac_val va \<le> frac_val vb \<longleftrightarrow>
     unat (frac_nom va) * unat (frac_denom vb) \<le> unat (frac_nom vb) * unat (frac_denom va)"
  unfolding frac_val_def by (rule frac_cross_le) (simp_all add: unat_gt_0)

text \<open>
  C13: On fraction leaves with non-zero denominators, \<open>mtbdd_op_less\<close>
  decides the order of the rational numbers they denote: the cross
  products of two 32-bit halves cannot overflow the \<open>uint64_t\<close> arithmetic.
\<close>

theorem mtbdd_op_less_fraction: "frac_denom va \<noteq> 0 \<Longrightarrow> frac_denom vb \<noteq> 0 \<Longrightarrow>
   mtbdd_op_less (MLeaf (LFraction va)) (MLeaf (LFraction vb)) =
   Done (if frac_val va < frac_val vb then MTrue else MFalse)"
  by (simp add: mtbdd_op_less_def word_less_nat_alt unat_frac_mult frac_val_less)

text \<open>
  Likewise \<open>mtbdd_op_less_or_equal\<close> decides \<open>\<le>\<close> on the
  rational numbers that fraction leaves with non-zero denominators denote.
\<close>

theorem mtbdd_op_less_or_equal_fraction: "frac_denom va \<noteq> 0 \<Longrightarrow> frac_denom vb \<noteq> 0 \<Longrightarrow>
   mtbdd_op_less_or_equal (MLeaf (LFraction va)) (MLeaf (LFraction vb)) =
   Done (if frac_val va \<le> frac_val vb then MTrue else MFalse)"
  by (simp add: mtbdd_op_less_or_equal_def word_le_nat_alt unat_frac_mult frac_val_le)

lemma mask32_literal: "(0xffffffff :: 64 word) = mask 32"
  by (simp add: mask_eq_exp_minus_1)

lemma frac_nom_pack: "frac_nom (pack_fraction n d) = take_bit 32 n"
  by (rule bit_word_eqI) (auto simp: frac_nom_def pack_fraction_def mask32_literal bit_simps)

lemma frac_denom_pack: "frac_denom (pack_fraction n d) = take_bit 32 d"
  by (rule bit_word_eqI) (auto simp: frac_denom_def pack_fraction_def mask32_literal bit_simps)

lemma take_bit_32_small: "unat (q :: 64 word) < 2 ^ 32 \<Longrightarrow> take_bit 32 q = q"
proof -
  assume "unat q < 2 ^ 32"
  then have "q < 2 ^ 32" by (simp add: word_less_nat_alt)
  then show ?thesis by (simp add: take_bit_eq_mask less_mask_eq)
qed

lemma frac_val_fraction_1:
  assumes "unat q < 2 ^ 32"
  shows "mtbdd_fraction q 1 = MLeaf (LFraction (pack_fraction q 1))"
    and "frac_denom (pack_fraction q 1) = 1"
    and "frac_val (pack_fraction q 1) = of_nat (unat q)"
proof -
  show "mtbdd_fraction q 1 = MLeaf (LFraction (pack_fraction q 1))" by (simp add: mtbdd_fraction_def)
  show d: "frac_denom (pack_fraction q 1) = 1" by (simp add: frac_denom_pack)
  have "frac_nom (pack_fraction q 1) = q" using assms by (simp add: frac_nom_pack take_bit_32_small)
  then show "frac_val (pack_fraction q 1) = of_nat (unat q)" unfolding frac_val_def d by simp
qed

lemma unat_frac_quot:
  "unat (frac_nom v div frac_denom v) = unat (frac_nom v) div unat (frac_denom v)"
  by (simp add: unat_div)

lemma floor_frac_val:
  "\<lfloor>frac_val v\<rfloor> = int (unat (frac_nom v) div unat (frac_denom v))"
  unfolding frac_val_def by (rule floor_divide_of_nat_eq)

lemma unat_frac_quot_le: "unat (frac_nom v div frac_denom v) \<le> unat (frac_nom v)"
  by (simp add: unat_frac_quot)

text \<open>
  \<open>mtbdd_op_floor\<close> on a fraction leaf with a non-zero denominator
  yields the fraction \<open>\<lfloor>x\<rfloor>/1\<close>.
\<close>

theorem mtbdd_op_floor_fraction:
  assumes "frac_denom v \<noteq> 0"
  shows "\<exists>r. mtbdd_op_floor (MLeaf (LFraction v)) = Done (MLeaf (LFraction r)) \<and>
    frac_denom r = 1 \<and> frac_val r = of_int \<lfloor>frac_val v\<rfloor>"
proof -
  let ?q = "frac_nom v div frac_denom v"
  have qb: "unat ?q < 2 ^ 32"
    using unat_frac_quot_le [of v] unat_frac_nom_less [of v] by (rule le_less_trans)
  have r: "mtbdd_op_floor (MLeaf (LFraction v)) = Done (MLeaf (LFraction (pack_fraction ?q 1)))"
    using assms by (simp add: mtbdd_op_floor_def mtbdd_fraction_def)
  have "frac_val (pack_fraction ?q 1) = of_int \<lfloor>frac_val v\<rfloor>"
    using frac_val_fraction_1(3) [OF qb] by (simp add: floor_frac_val unat_frac_quot)
  then show ?thesis using r frac_val_fraction_1(2) [OF qb] by blast
qed

text \<open>
  C15: \<open>mtbdd_op_ceil\<close> on a fraction leaf yields \<open>\<lfloor>x\<rfloor> + 1\<close>, not
  \<open>\<lceil>x\<rceil>\<close>: on a fraction denoting an integer it is one too large
  (line 462). Below \<open>2\<^sup>3\<^sup>2 - 1\<close> the sum does not wrap.
\<close>

theorem mtbdd_op_ceil_fraction:
  assumes "frac_denom v \<noteq> 0" "unat (frac_nom v) < 2 ^ 32 - 1"
  shows "\<exists>r. mtbdd_op_ceil (MLeaf (LFraction v)) = Done (MLeaf (LFraction r)) \<and>
    frac_denom r = 1 \<and> frac_val r = of_int \<lfloor>frac_val v\<rfloor> + 1"
proof -
  let ?q = "frac_nom v div frac_denom v"
  have q: "unat ?q < 2 ^ 32 - 1"
    using unat_frac_quot_le [of v] assms(2) by (rule le_less_trans)
  have q1: "unat (?q + 1) = unat ?q + 1"
  proof -
    have "unat ?q + unat (1 :: 64 word) < 2 ^ LENGTH(64)" using q by simp
    then have "unat (?q + 1) = unat ?q + unat (1 :: 64 word)" by (rule unat_add_lem [THEN iffD1])
    then show ?thesis by simp
  qed
  have qb: "unat (?q + 1) < 2 ^ 32" using q q1 by simp
  have r: "mtbdd_op_ceil (MLeaf (LFraction v)) = Done (MLeaf (LFraction (pack_fraction (?q + 1) 1)))"
    using assms by (simp add: mtbdd_op_ceil_def mtbdd_fraction_def)
  have "frac_val (pack_fraction (?q + 1) 1) = of_int \<lfloor>frac_val v\<rfloor> + 1"
    using frac_val_fraction_1(3) [OF qb] q1 by (simp add: floor_frac_val unat_frac_quot)
  then show ?thesis using r frac_val_fraction_1(2) [OF qb] by blast
qed

section \<open>Division\<close>

text \<open>
  On two double leaves \<open>mtbdd_op_divide\<close> is division, except that a
  zero divisor yields the zero leaf (HOL's \<open>x / 0 = 0\<close> is exactly what the
  code returns, where IEEE division would give an infinity or NaN).
\<close>

theorem mtbdd_op_divide_double:
  "mtbdd_op_divide (MLeaf (LDouble x)) (MLeaf (LDouble y)) = Done (MLeaf (LDouble (x / y)))"
  by (simp add: mtbdd_op_divide_def)

section \<open>Witnesses\<close>

theorem mtbdd_op_less_fraction_witness:
  "frac_denom (pack_fraction 1 3) \<noteq> 0 \<and> frac_denom (pack_fraction 1 2) \<noteq> 0 \<and>
   mtbdd_op_less (MLeaf (LFraction (pack_fraction 1 3))) (MLeaf (LFraction (pack_fraction 1 2))) = Done MTrue"
proof -
  have d: "frac_denom (pack_fraction 1 3) \<noteq> 0" "frac_denom (pack_fraction 1 2) \<noteq> 0"
    by (simp_all add: frac_denom_pack)
  have "frac_val (pack_fraction 1 3) < frac_val (pack_fraction 1 2)"
    by (simp add: frac_val_def frac_nom_pack frac_denom_pack)
  then show ?thesis using mtbdd_op_less_fraction [OF d] d by simp
qed

theorem mtbdd_op_less_or_equal_fraction_witness:
  "frac_denom (pack_fraction 2 4) \<noteq> 0 \<and> frac_denom (pack_fraction 1 2) \<noteq> 0 \<and>
   mtbdd_op_less_or_equal (MLeaf (LFraction (pack_fraction 2 4))) (MLeaf (LFraction (pack_fraction 1 2))) = Done MTrue"
proof -
  have d: "frac_denom (pack_fraction 2 4) \<noteq> 0" "frac_denom (pack_fraction 1 2) \<noteq> 0"
    by (simp_all add: frac_denom_pack)
  have "frac_val (pack_fraction 2 4) \<le> frac_val (pack_fraction 1 2)"
    by (simp add: frac_val_def frac_nom_pack frac_denom_pack)
  then show ?thesis using mtbdd_op_less_or_equal_fraction [OF d] d by simp
qed

theorem mtbdd_op_floor_fraction_witness:
  "frac_denom (pack_fraction 7 2) \<noteq> 0 \<and>
   (\<exists>r. mtbdd_op_floor (MLeaf (LFraction (pack_fraction 7 2))) = Done (MLeaf (LFraction r)) \<and>
        frac_denom r = 1 \<and> frac_val r = 3)"
proof -
  have d: "frac_denom (pack_fraction 7 2) \<noteq> 0" by (simp add: frac_denom_pack)
  have "\<lfloor>frac_val (pack_fraction 7 2)\<rfloor> = 3" by (simp add: floor_frac_val frac_nom_pack frac_denom_pack)
  then show ?thesis using mtbdd_op_floor_fraction [OF d] d by simp
qed

theorem mtbdd_op_ceil_fraction_witness:
  "frac_denom (pack_fraction 4 2) \<noteq> 0 \<and> unat (frac_nom (pack_fraction 4 2)) < 2 ^ 32 - 1 \<and>
   \<lceil>frac_val (pack_fraction 4 2)\<rceil> = 2 \<and>
   (\<exists>r. mtbdd_op_ceil (MLeaf (LFraction (pack_fraction 4 2))) = Done (MLeaf (LFraction r)) \<and>
        frac_denom r = 1 \<and> frac_val r = 3)"
proof -
  have d: "frac_denom (pack_fraction 4 2) \<noteq> 0" by (simp add: frac_denom_pack)
  have n: "unat (frac_nom (pack_fraction 4 2)) < 2 ^ 32 - 1" by (simp add: frac_nom_pack)
  have v: "frac_val (pack_fraction 4 2) = 2" by (simp add: frac_val_def frac_nom_pack frac_denom_pack)
  show ?thesis using mtbdd_op_ceil_fraction [OF d n] d n v by simp
qed

end
