(* ===== verification/MtbddDiagram.thy ===== *)
theory MtbddDiagram
  imports Mtbdd
begin

text \<open>
  The diagram-level operations of \<open>sylvan_mtbdd_storm.c\<close>: the unary
  operations lifted by sylvan's \<open>mtbdd_uapply\<close> (not in the repository: it
  applies the leaf operation to the diagram, recursing into both cofactors
  when the operation answers \<open>mtbdd_invalid\<close> and rebuilding the node with
  \<open>mtbdd_makenode\<close>, which returns the common cofactor when both are equal),
  \<open>mtbdd_ithvar\<close>, and the satisfying-assignment count
  \<open>mtbdd_non_zero_count\<close>. The operation cache and garbage collection do not
  change results and are not modelled. A diagram denotes, for each
  assignment of the variable levels, the terminal its path reaches
  (\<open>mtbdd_eval\<close>).
\<close>

definition mtbdd_makenode :: "nat \<Rightarrow> mtbdd \<Rightarrow> mtbdd \<Rightarrow> mtbdd" where
  "mtbdd_makenode v low high = (if low = high then low else MNode v low high)"

fun mtbdd_eval :: "mtbdd \<Rightarrow> (nat \<Rightarrow> bool) \<Rightarrow> mtbdd" where
  "mtbdd_eval (MNode v low high) a = (if a v then mtbdd_eval high a else mtbdd_eval low a)"
| "mtbdd_eval t a = t"

fun terminals :: "mtbdd \<Rightarrow> mtbdd set" where
  "terminals (MNode v low high) = terminals low \<union> terminals high"
| "terminals t = {t}"

text \<open>
  \<open>mtbdd_uapply\<close>: a leaf operation answering \<open>mtbdd_invalid\<close> on a
  terminal leaves nothing to recurse into; the C code then reads the
  cofactors of a leaf, which the model reports as an abort.
\<close>

fun mtbdd_uapply :: "(mtbdd \<Rightarrow> opres) \<Rightarrow> mtbdd \<Rightarrow> opres" where
  "mtbdd_uapply op (MNode v low high) =
     (case op (MNode v low high) of
        Invalid \<Rightarrow>
          (case mtbdd_uapply op low of
             Done l \<Rightarrow> (case mtbdd_uapply op high of
                          Done h \<Rightarrow> Done (mtbdd_makenode v l h)
                        | r \<Rightarrow> r)
           | r \<Rightarrow> r)
      | r \<Rightarrow> r)"
| "mtbdd_uapply op t =
     (case op t of Invalid \<Rightarrow> Abort ''cofactors of a terminal'' | r \<Rightarrow> r)"

text \<open>The lifted operations (lines 403--406, 441--444, 479--482, 496--499, 513--516).\<close>

definition mtbdd_not_zero :: "mtbdd \<Rightarrow> opres" where
  "mtbdd_not_zero dd = mtbdd_uapply mtbdd_op_not_zero dd"

definition mtbdd_floor :: "mtbdd \<Rightarrow> opres" where
  "mtbdd_floor dd = mtbdd_uapply mtbdd_op_floor dd"

definition mtbdd_ceil :: "mtbdd \<Rightarrow> opres" where
  "mtbdd_ceil dd = mtbdd_uapply mtbdd_op_ceil dd"

definition mtbdd_bool_to_double :: "mtbdd \<Rightarrow> opres" where
  "mtbdd_bool_to_double dd = mtbdd_uapply mtbdd_op_bool_to_double dd"

definition mtbdd_bool_to_int64 :: "mtbdd \<Rightarrow> opres" where
  "mtbdd_bool_to_int64 dd = mtbdd_uapply mtbdd_op_bool_to_int64 dd"

text \<open>\<open>mtbdd_ithvar\<close> (lines 585--588): the BDD of one variable.\<close>

definition mtbdd_ithvar :: "nat \<Rightarrow> mtbdd" where
  "mtbdd_ithvar level = mtbdd_makenode level MFalse MTrue"

text \<open>
  \<open>mtbdd_non_zero_count\<close> (lines 521--563): \<open>nvars\<close> is a \<open>size_t\<close>, decremented
  at every node; a leaf counts \<open>2\<^sup>n\<^sup>v\<^sup>a\<^sup>r\<^sup>s\<close> assignments when it is not
  zero. The result is a \<open>double\<close> (a real number here). A terminal of
  another type, or \<open>mtbdd_true\<close>, falls through to the node case of the C
  code, whose result the model leaves undefined (\<open>None\<close>).
\<close>

fun mtbdd_non_zero_count :: "mtbdd \<Rightarrow> 64 word \<Rightarrow> real option" where
  "mtbdd_non_zero_count MFalse nvars = Some 0"
| "mtbdd_non_zero_count (MLeaf (LInt v)) nvars = Some (if v \<noteq> 0 then 2 ^ unat nvars else 0)"
| "mtbdd_non_zero_count (MLeaf (LDouble x)) nvars = Some (if x \<noteq> 0 then 2 ^ unat nvars else 0)"
| "mtbdd_non_zero_count (MLeaf (LFraction v)) nvars =
     Some (if frac_nom v \<noteq> 0 then 2 ^ unat nvars else 0)"
| "mtbdd_non_zero_count (MLeaf (LOther t v)) nvars = None"
| "mtbdd_non_zero_count MTrue nvars = None"
| "mtbdd_non_zero_count (MNode v low high) nvars =
     (case (mtbdd_non_zero_count high (nvars - 1), mtbdd_non_zero_count low (nvars - 1)) of
        (Some h, Some l) \<Rightarrow> Some (l + h)
      | _ \<Rightarrow> None)"

section \<open>Semantic notions\<close>

text \<open>The terminals \<open>mtbdd_op_not_zero\<close> handles: the constants and the integer, double and fraction leaves.\<close>

fun numeric_terminal :: "mtbdd \<Rightarrow> bool" where
  "numeric_terminal (MLeaf (LOther _ _)) = False"
| "numeric_terminal (MNode _ _ _) = False"
| "numeric_terminal _ = True"

definition not_zero_terminal :: "mtbdd \<Rightarrow> mtbdd" where
  "not_zero_terminal t = (case t of MLeaf l \<Rightarrow> if mtbdd_isnonzero l then MTrue else MFalse | _ \<Rightarrow> t)"

text \<open>
  The levels a diagram tests, diagrams that test no level twice on a path,
  the non-zero terminals, and the sets \<open>S \<subseteq> V\<close> of true variables under
  which a diagram reaches a non-zero terminal.
\<close>

fun vars :: "mtbdd \<Rightarrow> nat set" where
  "vars (MNode v l h) = insert v (vars l \<union> vars h)"
| "vars _ = {}"

fun path_distinct :: "mtbdd \<Rightarrow> bool" where
  "path_distinct (MNode v l h) \<longleftrightarrow> v \<notin> vars l \<and> v \<notin> vars h \<and> path_distinct l \<and> path_distinct h"
| "path_distinct _ = True"

fun nonzero_terminal :: "mtbdd \<Rightarrow> bool" where
  "nonzero_terminal (MLeaf l) = mtbdd_isnonzero l"
| "nonzero_terminal _ = False"

definition nz_sets :: "mtbdd \<Rightarrow> nat set \<Rightarrow> nat set set" where
  "nz_sets dd V = {S. S \<subseteq> V \<and> nonzero_terminal (mtbdd_eval dd (\<lambda>i. i \<in> S))}"

section \<open>Lifting leaf operations\<close>

lemma eval_makenode [simp]: "mtbdd_eval (mtbdd_makenode v l h) a = mtbdd_eval (MNode v l h) a"
  by (simp add: mtbdd_makenode_def)

lemma eval_in_terminals: "mtbdd_eval dd a \<in> terminals dd"
  by (induction dd a rule: mtbdd_eval.induct) auto

text \<open>
  \<open>mtbdd_uapply\<close> refines the pointwise application: when the leaf operation
  answers \<open>mtbdd_invalid\<close> on inner nodes and a result \<open>f t\<close> on every
  terminal of the diagram, the lifted operation succeeds and its result
  evaluates, under every assignment, to \<open>f\<close> of the terminal the argument
  reaches.
\<close>

lemma uapply_pointwise:
  assumes nodes: "\<And>v l h. op (MNode v l h) = Invalid"
    and leaves: "\<forall>t \<in> terminals dd. op t = Done (f t) \<and> (\<forall>a. mtbdd_eval (f t) a = f t)"
  shows "\<exists>r. mtbdd_uapply op dd = Done r \<and> (\<forall>a. mtbdd_eval r a = f (mtbdd_eval dd a))"
  using leaves
proof (induction dd)
  case (MNode v l h)
  then obtain rl rh where l: "mtbdd_uapply op l = Done rl" "\<forall>a. mtbdd_eval rl a = f (mtbdd_eval l a)"
    and h: "mtbdd_uapply op h = Done rh" "\<forall>a. mtbdd_eval rh a = f (mtbdd_eval h a)"
    by auto
  then show ?case by (simp add: nodes)
qed auto

lemma op_not_zero_numeric:
  "numeric_terminal t \<Longrightarrow> mtbdd_op_not_zero t = Done (not_zero_terminal t) \<and>
     (\<forall>a. mtbdd_eval (not_zero_terminal t) a = not_zero_terminal t)"
  by (induction t rule: numeric_terminal.induct)
    (simp_all add: mtbdd_op_not_zero_def not_zero_terminal_def mtbdd_isnonzero_def)

text \<open>
  C17: \<open>mtbdd_not_zero\<close> on a diagram whose terminals are Boolean constants
  or numeric leaves succeeds, and its result is the BDD of the assignments
  under which the argument reaches a non-zero leaf (constants kept as they
  are).
\<close>

theorem mtbdd_not_zero_correct:
  assumes "\<forall>t \<in> terminals dd. numeric_terminal t"
  shows "\<exists>r. mtbdd_not_zero dd = Done r \<and> (\<forall>a. mtbdd_eval r a = not_zero_terminal (mtbdd_eval dd a))"
  unfolding mtbdd_not_zero_def
  by (rule uapply_pointwise) (use assms op_not_zero_numeric in \<open>simp_all add: mtbdd_op_not_zero_def\<close>)

section \<open>Counting non-zero assignments\<close>

lemma finite_vars [simp]: "finite (vars dd)"
  by (induction dd) auto

lemma eval_cong: "(\<forall>i \<in> vars dd. a i = b i) \<Longrightarrow> mtbdd_eval dd a = mtbdd_eval dd b"
  by (induction dd) auto

lemma nz_sets_terminal:
  assumes "vars dd = {}" "finite V"
  shows "card (nz_sets dd V) = (if nonzero_terminal (mtbdd_eval dd (\<lambda>_. False)) then 2 ^ card V else 0)"
proof -
  have "\<And>S. mtbdd_eval dd (\<lambda>i. i \<in> S) = mtbdd_eval dd (\<lambda>_. False)"
    using assms(1) by (intro eval_cong) simp
  then have "nz_sets dd V = (if nonzero_terminal (mtbdd_eval dd (\<lambda>_. False)) then Pow V else {})"
    by (auto simp: nz_sets_def)
  then show ?thesis using assms(2) by (simp add: card_Pow)
qed

lemma nz_sets_node:
  assumes v: "v \<in> V" and nl: "v \<notin> vars l" and nh: "v \<notin> vars h"
  shows "nz_sets (MNode v l h) V = nz_sets l (V - {v}) \<union> insert v ` nz_sets h (V - {v})"
proof (rule set_eqI, rule iffI)
  fix S assume S: "S \<in> nz_sets (MNode v l h) V"
  show "S \<in> nz_sets l (V - {v}) \<union> insert v ` nz_sets h (V - {v})"
  proof (cases "v \<in> S")
    case True
    have "mtbdd_eval h (\<lambda>i. i \<in> S) = mtbdd_eval h (\<lambda>i. i \<in> S - {v})"
      using nh by (intro eval_cong) auto
    then have "S - {v} \<in> nz_sets h (V - {v})" using S True by (auto simp: nz_sets_def)
    then show ?thesis using True by (metis UnI2 image_eqI insert_Diff)
  next
    case False
    then show ?thesis using S by (auto simp: nz_sets_def)
  qed
next
  fix S assume "S \<in> nz_sets l (V - {v}) \<union> insert v ` nz_sets h (V - {v})"
  then consider "S \<in> nz_sets l (V - {v})" | T where "T \<in> nz_sets h (V - {v})" "S = insert v T" by blast
  then show "S \<in> nz_sets (MNode v l h) V"
  proof cases
    case (2 T)
    have "mtbdd_eval h (\<lambda>i. i \<in> insert v T) = mtbdd_eval h (\<lambda>i. i \<in> T)"
      using nh by (intro eval_cong) auto
    then show ?thesis using 2 v by (auto simp: nz_sets_def)
  qed (auto simp: nz_sets_def)
qed

lemma card_nz_sets_node:
  assumes "finite V" "v \<in> V" "v \<notin> vars l" "v \<notin> vars h"
  shows "card (nz_sets (MNode v l h) V) = card (nz_sets l (V - {v})) + card (nz_sets h (V - {v}))"
proof -
  have fin: "finite (nz_sets g (V - {v}))" for g using assms(1) by (simp add: nz_sets_def)
  have inj: "inj_on (insert v) (nz_sets h (V - {v}))"
    by (rule inj_onI) (auto simp: nz_sets_def)
  have disj: "nz_sets l (V - {v}) \<inter> insert v ` nz_sets h (V - {v}) = {}"
    by (auto simp: nz_sets_def)
  show ?thesis
    using nz_sets_node [OF assms(2-4)] card_Un_disjoint [OF fin [of l] finite_imageI [OF fin [of h]] disj]
      card_image [OF inj] by simp
qed

text \<open>
  C14: \<open>mtbdd_non_zero_count\<close> counts satisfying assignments: for a diagram
  over numeric leaves that tests each variable at most once on a path and
  only variables of a set \<open>V\<close> (of fewer than \<open>2\<^sup>6\<^sup>4\<close> elements), called
  with \<open>nvars = |V|\<close>, the result is the number of subsets of \<open>V\<close> under
  which the diagram reaches a non-zero leaf. Decrementing \<open>nvars\<close> once per
  node, whatever the levels skipped, is right because the skipped variables
  are counted by the \<open>2\<^sup>n\<^sup>v\<^sup>a\<^sup>r\<^sup>s\<close> of the leaves below.
\<close>

theorem mtbdd_non_zero_count_correct:
  assumes "finite V" "vars dd \<subseteq> V" "path_distinct dd" "\<forall>t \<in> terminals dd. numeric_terminal t \<and> t \<noteq> MTrue"
    "card V < 2 ^ 64"
  shows "mtbdd_non_zero_count dd (of_nat (card V)) = Some (real (card (nz_sets dd V)))"
  using assms
proof (induction dd arbitrary: V)
  case MFalse
  then show ?case using nz_sets_terminal [of MFalse V] by simp
next
  case MTrue
  then show ?case by simp
next
  case (MLeaf l)
  have "unat (of_nat (card V) :: 64 word) = card V" using MLeaf.prems(5) by (simp add: unat_of_nat)
  then show ?case using MLeaf nz_sets_terminal [of "MLeaf l" V]
    by (cases l) (simp_all add: mtbdd_isnonzero_def)
next
  case (MNode v l h)
  let ?V = "V - {v}"
  have v: "v \<in> V" and fin: "finite ?V" and sub: "vars l \<subseteq> ?V" "vars h \<subseteq> ?V"
    using MNode.prems by auto
  have c: "card ?V = card V - 1" "0 < card V" using v MNode.prems(1) by (auto simp: card_gt_0_iff)
  have w: "(of_nat (card V) :: 64 word) - 1 = of_nat (card ?V)" using c by (simp add: of_nat_diff)
  have lt: "card ?V < 2 ^ 64" using c MNode.prems(5) by simp
  have "mtbdd_non_zero_count l (of_nat (card ?V)) = Some (real (card (nz_sets l ?V)))"
    using MNode.IH(1) [OF fin sub(1)] MNode.prems lt by simp
  moreover have "mtbdd_non_zero_count h (of_nat (card ?V)) = Some (real (card (nz_sets h ?V)))"
    using MNode.IH(2) [OF fin sub(2)] MNode.prems lt by simp
  ultimately show ?case
    using card_nz_sets_node [OF MNode.prems(1) v] MNode.prems(3) w by simp
qed

theorem mtbdd_non_zero_count_correct_witness:
  "finite {0, 1} \<and> vars (MNode 1 (MLeaf (LInt 0)) (MLeaf (LInt 5))) \<subseteq> {0, 1} \<and>
   path_distinct (MNode 1 (MLeaf (LInt 0)) (MLeaf (LInt 5))) \<and>
   terminals (MNode 1 (MLeaf (LInt 0)) (MLeaf (LInt 5))) = {MLeaf (LInt 0)} \<union> {MLeaf (LInt 5)} \<and>
   numeric_terminal (MLeaf (LInt 0)) \<and> numeric_terminal (MLeaf (LInt 5)) \<and>
   card {0, 1 :: nat} < 2 ^ 64 \<and>
   mtbdd_non_zero_count (MNode 1 (MLeaf (LInt 0)) (MLeaf (LInt 5))) (of_nat (card {0, 1 :: nat})) =
     Some (real (card (nz_sets (MNode 1 (MLeaf (LInt 0)) (MLeaf (LInt 5))) {0, 1}))) \<and>
   mtbdd_non_zero_count (MNode 1 (MLeaf (LInt 0)) (MLeaf (LInt 5))) (of_nat (card {0, 1 :: nat})) = Some 2"
proof -
  let ?d = "MNode 1 (MLeaf (LInt 0)) (MLeaf (LInt 5))"
  have h: "finite {0, 1 :: nat}" "vars ?d \<subseteq> {0, 1}" "path_distinct ?d"
    "\<forall>t \<in> terminals ?d. numeric_terminal t \<and> t \<noteq> MTrue" "card {0, 1 :: nat} < 2 ^ 64"
    by simp_all
  show ?thesis using mtbdd_non_zero_count_correct [OF h] h by simp
qed

theorem mtbdd_not_zero_correct_witness:
  "terminals (MNode 0 (MLeaf (LInt 0)) (MLeaf (LDouble 2))) = {MLeaf (LInt 0)} \<union> {MLeaf (LDouble 2)} \<and>
   numeric_terminal (MLeaf (LInt 0)) \<and> numeric_terminal (MLeaf (LDouble 2)) \<and>
   (\<exists>r. mtbdd_not_zero (MNode 0 (MLeaf (LInt 0)) (MLeaf (LDouble 2))) = Done r \<and>
        (\<forall>a. mtbdd_eval r a = not_zero_terminal (mtbdd_eval (MNode 0 (MLeaf (LInt 0)) (MLeaf (LDouble 2))) a)))"
proof -
  have h: "\<forall>t \<in> terminals (MNode 0 (MLeaf (LInt 0)) (MLeaf (LDouble 2))). numeric_terminal t" by simp
  show ?thesis using mtbdd_not_zero_correct [OF h] by simp
qed

end
