(* ===== verification/MtbddAbstract.thy ===== *)
theory MtbddAbstract
  imports MtbddDiagram "HOL-Library.Monad_Syntax"
begin

unbundle bit_operations_syntax

text \<open>
  The two remaining groups of \<open>sylvan_mtbdd_storm.c\<close>: the structural SHA2
  hash of a diagram (\<open>mtbdd_sha2_rec\<close>, \<open>mtbdd_getsha\<close>) and the
  abstraction of variables keeping a minimising representative
  (\<open>mtbdd_minExistsRepresentative\<close>, \<open>mtbdd_maxExistsRepresentative\<close>).

  The hash feeds SHA256 with the 64-bit words of the constants and leaves and
  the 32-bit levels of the inner nodes; the SHA256 implementation is a
  parameter from the chunks fed to it to the digest. The node marks the
  recursion sets (so that a shared node is hashed once, and which
  \<open>mtbdd_getsha\<close> clears again) are the set of visited nodes: diagrams are
  trees here, and a node shared in sylvan's hash-consed table is an equal
  subtree. Leaves give their raw 64 bits; for a double those are a parameter
  \<open>double_bits\<close>, since doubles are real numbers in this model.

  The representative abstraction calls sylvan's \<open>mtbdd_ite\<close>,
  \<open>mtbdd_abstract_min\<close>, \<open>mtbdd_less_or_equal_as_bdd\<close> and
  \<open>mtbdd_get_complement\<close>, which are outside the repository; they are the
  fields of a record \<open>mtbddLib\<close>, each returning \<open>None\<close> for
  \<open>mtbdd_invalid\<close>. Variable sets are sylvan cubes: \<open>mtbdd_true\<close> is the
  empty set and a node's high edge is the rest of the set.
\<close>

section \<open>Structural hashes\<close>

datatype shaChunk = Chunk64 "64 word" | Chunk32 "32 word"

text \<open>\<open>mtbddnode_getvalue\<close> of a leaf (outside \<open>src/\<close>).\<close>

fun leafValue :: "(real \<Rightarrow> 64 word) \<Rightarrow> leaf \<Rightarrow> 64 word" where
  "leafValue double_bits (LInt v) = v"
| "leafValue double_bits (LDouble x) = double_bits x"
| "leafValue double_bits (LFraction v) = v"
| "leafValue double_bits (LOther t v) = v"

text \<open>
  \<open>mtbdd_sha2_rec\<close> (lines 1--26): the constants feed their \<open>MTBDD\<close> value
  (\<open>mtbdd_true\<close> is \<open>0x8000000000000000\<close>, \<open>mtbdd_false\<close> is 0), a leaf its
  value, an unmarked node its level, with bit 31 set when the high edge with
  its complement mark stripped is not 0, i.e. when the high child is not a
  constant, then the high and the low child.
\<close>

fun mtbdd_sha2_rec ::
    "(real \<Rightarrow> 64 word) \<Rightarrow> mtbdd \<Rightarrow> mtbdd set \<Rightarrow> shaChunk list \<times> mtbdd set" where
  "mtbdd_sha2_rec double_bits MTrue marks = ([Chunk64 0x8000000000000000], marks)"
| "mtbdd_sha2_rec double_bits MFalse marks = ([Chunk64 0], marks)"
| "mtbdd_sha2_rec double_bits (MLeaf l) marks = ([Chunk64 (leafValue double_bits l)], marks)"
| "mtbdd_sha2_rec double_bits (MNode v low high) marks =
     (if MNode v low high \<in> marks then ([], marks)
      else
        (let level = (of_nat v :: 32 word) OR (if high \<noteq> MFalse \<and> high \<noteq> MTrue then 0x80000000 else 0);
             (hashHigh, marks1) = mtbdd_sha2_rec double_bits high (insert (MNode v low high) marks);
             (hashLow, marks2) = mtbdd_sha2_rec double_bits low marks1
         in (Chunk32 level # hashHigh @ hashLow, marks2)))"

text \<open>\<open>mtbdd_getsha\<close> (lines 28--36): hash from no marks; the marks are cleared afterwards.\<close>

definition mtbdd_getsha :: "(shaChunk list \<Rightarrow> 'h) \<Rightarrow> (real \<Rightarrow> 64 word) \<Rightarrow> mtbdd \<Rightarrow> 'h" where
  "mtbdd_getsha sha256 double_bits mtbdd = sha256 (fst (mtbdd_sha2_rec double_bits mtbdd {}))"

section \<open>Representatives of an abstraction\<close>

record mtbddLib =
  lib_ite :: "mtbdd \<Rightarrow> mtbdd \<Rightarrow> mtbdd \<Rightarrow> mtbdd option"
  lib_abstract_min :: "mtbdd \<Rightarrow> mtbdd \<Rightarrow> mtbdd option"
  lib_less_or_equal_as_bdd :: "mtbdd \<Rightarrow> mtbdd \<Rightarrow> mtbdd option"
  lib_get_complement :: "mtbdd \<Rightarrow> mtbdd option"

text \<open>\<open>mtbdd_isleaf\<close>, \<open>mtbdd_set_isempty\<close>, \<open>mtbdd_set_next\<close> and the level of a set's first variable (outside \<open>src/\<close>).\<close>

fun mtbdd_isleaf :: "mtbdd \<Rightarrow> bool" where
  "mtbdd_isleaf (MNode v low high) = False"
| "mtbdd_isleaf t = True"

definition mtbdd_set_isempty :: "mtbdd \<Rightarrow> bool" where
  "mtbdd_set_isempty s \<longleftrightarrow> s = MTrue"

fun mtbdd_set_next :: "mtbdd \<Rightarrow> mtbdd" where
  "mtbdd_set_next (MNode v low high) = high"
| "mtbdd_set_next t = MTrue"

text \<open>
  The level of a diagram's top node; a constant is below every variable
  (the order CUDD, whose algorithm the function follows, gives constants).
\<close>

fun topLevel :: "mtbdd \<Rightarrow> nat option" where
  "topLevel (MNode v low high) = Some v"
| "topLevel t = None"

fun mtbdd_getlow :: "mtbdd \<Rightarrow> mtbdd" where
  "mtbdd_getlow (MNode v low high) = low"
| "mtbdd_getlow t = t"

fun mtbdd_gethigh :: "mtbdd \<Rightarrow> mtbdd" where
  "mtbdd_gethigh (MNode v low high) = high"
| "mtbdd_gethigh t = t"

text \<open>Each call descends into a cofactor of \<open>a\<close> or drops the first variable of the set.\<close>

lemma size_getlow_less: "\<not> mtbdd_isleaf a \<Longrightarrow> size (mtbdd_getlow a) < size a"
  by (cases a) auto

lemma size_gethigh_less: "\<not> mtbdd_isleaf a \<Longrightarrow> size (mtbdd_gethigh a) < size a"
  by (cases a) auto

lemma size_set_next_less: "topLevel s = Some v \<Longrightarrow> size (mtbdd_set_next s) < size s"
  by (cases s) auto

text \<open>
  The case of a variable that is abstracted at the top of \<open>a\<close> (lines
  693--770), after the two recursive calls: compare the minima of both
  cofactors and keep each representative where its cofactor's minimum is
  the smaller one (the low one on ties).
\<close>

definition minExistsSameLevel ::
    "mtbddLib \<Rightarrow> nat \<Rightarrow> mtbdd \<Rightarrow> mtbdd \<Rightarrow> mtbdd \<Rightarrow> mtbdd \<Rightarrow> mtbdd \<Rightarrow> mtbdd option" where
  "minExistsSameLevel L va E T v' res1 res2 = do {
     left \<leftarrow> lib_abstract_min L E v';
     right \<leftarrow> lib_abstract_min L T v';
     tmp \<leftarrow> lib_less_or_equal_as_bdd L left right;
     res1Inf \<leftarrow> lib_ite L tmp res1 MFalse;
     tmp2 \<leftarrow> lib_get_complement L tmp;
     res2Inf \<leftarrow> lib_ite L tmp2 res2 MFalse;
     if res1Inf = res2Inf then lib_ite L (mtbdd_ithvar va) MFalse res1Inf
     else lib_ite L (mtbdd_ithvar va) res2Inf res1Inf
   }"

text \<open>The case of a top variable of \<open>a\<close> that is not abstracted (lines 785--795), after the two recursive calls.\<close>

definition minExistsKeep :: "mtbddLib \<Rightarrow> nat \<Rightarrow> mtbdd \<Rightarrow> mtbdd \<Rightarrow> mtbdd option" where
  "minExistsKeep L va res1 res2 =
     (if res1 = res2 then lib_ite L (mtbdd_ithvar va) MFalse res1
      else lib_ite L (mtbdd_ithvar va) res2 res1)"

text \<open>\<open>mtbdd_minExistsRepresentative\<close> (lines 629--800); \<open>prev_level\<close> is unused.\<close>

function mtbdd_minExistsRepresentative :: "mtbddLib \<Rightarrow> mtbdd \<Rightarrow> mtbdd \<Rightarrow> mtbdd option" where
  "mtbdd_minExistsRepresentative L a variables =
     (if mtbdd_isleaf a then (if mtbdd_set_isempty variables then Some a else Some variables)
      else
        (let va = the (topLevel a); E = mtbdd_getlow a; T = mtbdd_gethigh a
         in case topLevel variables of
              Some vv \<Rightarrow>
                if vv < va then do {
                  res \<leftarrow> mtbdd_minExistsRepresentative L a (mtbdd_set_next variables);
                  lib_ite L (mtbdd_ithvar vv) MFalse res
                }
                else if va = vv then do {
                  res1 \<leftarrow> mtbdd_minExistsRepresentative L E (mtbdd_set_next variables);
                  res2 \<leftarrow> mtbdd_minExistsRepresentative L T (mtbdd_set_next variables);
                  minExistsSameLevel L va E T (mtbdd_set_next variables) res1 res2
                }
                else do {
                  res1 \<leftarrow> mtbdd_minExistsRepresentative L E variables;
                  res2 \<leftarrow> mtbdd_minExistsRepresentative L T variables;
                  minExistsKeep L va res1 res2
                }
            | None \<Rightarrow> do {
                res1 \<leftarrow> mtbdd_minExistsRepresentative L E variables;
                res2 \<leftarrow> mtbdd_minExistsRepresentative L T variables;
                minExistsKeep L va res1 res2
              }))"
  by pat_completeness auto

termination
  by (relation "measure (\<lambda>(L, a, variables). size a + size variables)")
     (auto intro: add_strict_mono add_less_le_mono size_getlow_less size_gethigh_less
        size_set_next_less)

declare mtbdd_minExistsRepresentative.simps [simp del]

text \<open>\<open>mtbdd_maxExistsRepresentative\<close> (lines 802--806): a stub that returns its argument.\<close>

definition mtbdd_maxExistsRepresentative :: "mtbdd \<Rightarrow> mtbdd \<Rightarrow> nat \<Rightarrow> mtbdd" where
  "mtbdd_maxExistsRepresentative a variables prev_level = a"

text \<open>A cube: the set of variables as a chain of nodes with a false low edge.\<close>

fun is_cube :: "mtbdd \<Rightarrow> bool" where
  "is_cube MTrue = True"
| "is_cube (MNode v low high) = (low = MFalse \<and> is_cube high)"
| "is_cube t = False"

text \<open>The library's \<open>mtbdd_ite\<close> keeps the terminals of its branches.\<close>

definition ite_keeps_terminals :: "mtbddLib \<Rightarrow> bool" where
  "ite_keeps_terminals L \<longleftrightarrow>
     (\<forall>f g h r. lib_ite L f g h = Some r \<longrightarrow> terminals r \<subseteq> terminals g \<union> terminals h)"

text \<open>
  An example library on diagrams as trees: \<open>ite\<close> substitutes the
  branches for the constants of the condition, the minimum abstraction
  supports the empty set only, and the comparison and the complement work
  on constants and integer leaves.
\<close>

fun ite_tree :: "mtbdd \<Rightarrow> mtbdd \<Rightarrow> mtbdd \<Rightarrow> mtbdd" where
  "ite_tree MTrue g h = g"
| "ite_tree (MNode v low high) g h = mtbdd_makenode v (ite_tree low g h) (ite_tree high g h)"
| "ite_tree t g h = h"

fun ex_constValue :: "mtbdd \<Rightarrow> int option" where
  "ex_constValue MFalse = Some 0"
| "ex_constValue MTrue = Some 1"
| "ex_constValue (MLeaf (LInt w)) = Some (sint w)"
| "ex_constValue t = None"

fun ex_complement :: "mtbdd \<Rightarrow> mtbdd option" where
  "ex_complement MFalse = Some MTrue"
| "ex_complement MTrue = Some MFalse"
| "ex_complement t = None"

definition ex_lib :: mtbddLib where
  "ex_lib = \<lparr>lib_ite = (\<lambda>f g h. Some (ite_tree f g h)),
             lib_abstract_min = (\<lambda>f s. if s = MTrue then Some f else None),
             lib_less_or_equal_as_bdd = (\<lambda>f g. case (ex_constValue f, ex_constValue g) of
                 (Some x, Some y) \<Rightarrow> Some (if x \<le> y then MTrue else MFalse) | _ \<Rightarrow> None),
             lib_get_complement = ex_complement\<rparr>"

section \<open>Lemmas on the representative abstraction\<close>

lemma terminals_makenode: "terminals (mtbdd_makenode v l h) \<subseteq> terminals l \<union> terminals h"
  by (simp add: mtbdd_makenode_def)

lemma terminals_ite_tree: "terminals (ite_tree f g h) \<subseteq> terminals g \<union> terminals h"
  by (induction f g h rule: ite_tree.induct) (use terminals_makenode in fastforce)+

lemma ite_keeps_terminals_ex_lib: "ite_keeps_terminals ex_lib"
  by (simp add: ite_keeps_terminals_def ex_lib_def terminals_ite_tree)

lemma terminals_ithvar: "terminals (mtbdd_ithvar v) = {MFalse, MTrue}"
  by (auto simp add: mtbdd_ithvar_def mtbdd_makenode_def)


lemma terminals_cube: "is_cube s \<Longrightarrow> terminals s \<subseteq> {MFalse, MTrue}"
  by (induction s rule: is_cube.induct) auto

lemma is_cube_set_next: "is_cube s \<Longrightarrow> is_cube (mtbdd_set_next s)"
  by (cases s) auto

lemma cube_topLevel_None: "is_cube s \<Longrightarrow> topLevel s = None \<Longrightarrow> s = MTrue"
  by (cases s) auto

lemma terminals_cofactors:
  "\<not> mtbdd_isleaf a \<Longrightarrow> terminals a = terminals (mtbdd_getlow a) \<union> terminals (mtbdd_gethigh a)"
  by (cases a) auto

lemma ite_terminals:
  "ite_keeps_terminals L \<Longrightarrow> lib_ite L f g h = Some r \<Longrightarrow> terminals r \<subseteq> terminals g \<union> terminals h"
  unfolding ite_keeps_terminals_def by blast

lemma minExistsKeep_terminals:
  "ite_keeps_terminals L \<Longrightarrow> minExistsKeep L va res1 res2 = Some r \<Longrightarrow>
     terminals r \<subseteq> {MFalse} \<union> terminals res1 \<union> terminals res2"
  unfolding minExistsKeep_def by (auto split: if_splits dest!: ite_terminals)

lemma minExistsSameLevel_terminals:
  assumes "ite_keeps_terminals L" "minExistsSameLevel L va E T v' res1 res2 = Some r"
  shows "terminals r \<subseteq> {MFalse} \<union> terminals res1 \<union> terminals res2"
proof -
  obtain tmp tmp2 res1Inf res2Inf where
    i1: "lib_ite L tmp res1 MFalse = Some res1Inf" and i2: "lib_ite L tmp2 res2 MFalse = Some res2Inf"
    and i3: "minExistsKeep L va res1Inf res2Inf = Some r"
    using assms(2) by (auto simp: minExistsSameLevel_def minExistsKeep_def split: Option.bind_splits)
  show ?thesis
    using minExistsKeep_terminals [OF assms(1) i3] ite_terminals [OF assms(1) i1]
      ite_terminals [OF assms(1) i2] by auto
qed

lemma minExistsRepresentative_leaf:
  "mtbdd_isleaf a \<Longrightarrow>
     mtbdd_minExistsRepresentative L a variables = Some (if variables = MTrue then a else variables)"
  by (subst mtbdd_minExistsRepresentative.simps) (simp add: mtbdd_set_isempty_def)

lemma minExistsRepresentative_node:
  "\<not> mtbdd_isleaf a \<Longrightarrow> mtbdd_minExistsRepresentative L a variables =
     (let va = the (topLevel a); E = mtbdd_getlow a; T = mtbdd_gethigh a
      in case topLevel variables of
           Some vv \<Rightarrow>
             if vv < va then mtbdd_minExistsRepresentative L a (mtbdd_set_next variables) \<bind>
                               lib_ite L (mtbdd_ithvar vv) MFalse
             else if va = vv then
               mtbdd_minExistsRepresentative L E (mtbdd_set_next variables) \<bind> (\<lambda>res1.
               mtbdd_minExistsRepresentative L T (mtbdd_set_next variables) \<bind> (\<lambda>res2.
               minExistsSameLevel L va E T (mtbdd_set_next variables) res1 res2))
             else mtbdd_minExistsRepresentative L E variables \<bind> (\<lambda>res1.
                  mtbdd_minExistsRepresentative L T variables \<bind> (\<lambda>res2. minExistsKeep L va res1 res2))
         | None \<Rightarrow> mtbdd_minExistsRepresentative L E variables \<bind> (\<lambda>res1.
                  mtbdd_minExistsRepresentative L T variables \<bind> (\<lambda>res2. minExistsKeep L va res1 res2)))"
  by (subst mtbdd_minExistsRepresentative.simps) simp


lemma minExistsRepresentative_cases:
  assumes "\<not> mtbdd_isleaf a" "mtbdd_minExistsRepresentative L a variables = Some r"
  shows "(\<exists>vv res. topLevel variables = Some vv
            \<and> mtbdd_minExistsRepresentative L a (mtbdd_set_next variables) = Some res
            \<and> lib_ite L (mtbdd_ithvar vv) MFalse res = Some r)
       \<or> (\<exists>res1 res2. topLevel variables = Some (the (topLevel a))
            \<and> mtbdd_minExistsRepresentative L (mtbdd_getlow a) (mtbdd_set_next variables) = Some res1
            \<and> mtbdd_minExistsRepresentative L (mtbdd_gethigh a) (mtbdd_set_next variables) = Some res2
            \<and> minExistsSameLevel L (the (topLevel a)) (mtbdd_getlow a) (mtbdd_gethigh a)
                 (mtbdd_set_next variables) res1 res2 = Some r)
       \<or> (\<exists>res1 res2. mtbdd_minExistsRepresentative L (mtbdd_getlow a) variables = Some res1
            \<and> mtbdd_minExistsRepresentative L (mtbdd_gethigh a) variables = Some res2
            \<and> minExistsKeep L (the (topLevel a)) res1 res2 = Some r)"
  using assms(2) unfolding minExistsRepresentative_node [OF assms(1), where L = L and variables = variables] Let_def
  by (auto split: option.splits if_splits Option.bind_splits)

section \<open>Lemmas on the hash\<close>

lemma level_low_bits:
  fixes c :: "32 word"
  assumes "v < 2 ^ 31" "c = 0 \<or> c = 0x80000000"
  shows "unat ((of_nat v OR c) AND 0x7FFFFFFF) = v"
proof -
  have m: "(0x7FFFFFFF :: 32 word) = mask 31" by (simp add: mask_eq_exp_minus_1)
  have c: "c AND mask 31 = 0" using assms(2) by (auto simp: mask_eq_exp_minus_1)
  have "(of_nat v OR c) AND mask 31 = (of_nat v :: 32 word) AND mask 31"
    using c by (simp add: bit.conj_disj_distrib2)
  also have "\<dots> = of_nat (take_bit 31 v)" by (simp add: take_bit_eq_mask [symmetric] of_nat_take_bit)
  also have "take_bit 31 v = v" using assms(1) by (simp add: take_bit_nat_eq_self_iff)
  finally show ?thesis using assms(1) m by (simp add: unat_of_nat take_bit_nat_eq_self_iff)
qed

lemma level_flag_bit:
  fixes c :: "32 word"
  assumes "v < 2 ^ 31" "c = 0 \<or> c = 0x80000000"
  shows "bit (of_nat v OR c) 31 \<longleftrightarrow> c \<noteq> 0"
proof -
  have "take_bit 31 v = v" using assms(1) by (simp add: take_bit_nat_eq_self_iff)
  then have "\<not> bit v 31" by (metis bit_take_bit_iff less_irrefl)
  then have "\<not> bit (of_nat v :: 32 word) 31" by (simp add: bit_of_nat_iff)
  then show ?thesis using assms(2) by (auto simp: bit_or_iff)
qed
section \<open>Properties\<close>

text \<open>
  C40: The level word that \<open>mtbdd_sha2_rec\<close> feeds for an unmarked node
  holds the node's variable in its low 31 bits, and its bit 31 is set
  exactly when the high child is not one of the two constants.
\<close>

theorem mtbdd_sha2_rec_level_chunk:
  assumes "v < 2 ^ 31" "MNode v low high \<notin> marks"
  shows "\<exists>w rest. fst (mtbdd_sha2_rec double_bits (MNode v low high) marks) = Chunk32 w # rest
           \<and> unat (w AND 0x7FFFFFFF) = v \<and> (bit w 31 \<longleftrightarrow> high \<noteq> MFalse \<and> high \<noteq> MTrue)"
proof -
  define c :: "32 word" where "c = (if high \<noteq> MFalse \<and> high \<noteq> MTrue then 0x80000000 else 0)"
  have c: "c = 0 \<or> c = 0x80000000" and flag: "c \<noteq> 0 \<longleftrightarrow> high \<noteq> MFalse \<and> high \<noteq> MTrue"
    by (simp_all add: c_def)
  have "\<exists>rest. fst (mtbdd_sha2_rec double_bits (MNode v low high) marks) = Chunk32 (of_nat v OR c) # rest"
    using assms(2) by (simp add: c_def Let_def split: prod.split)
  then show ?thesis
    using level_low_bits [OF assms(1) c] level_flag_bit [OF assms(1) c] flag by blast
qed

text \<open>
  With a library whose \<open>mtbdd_ite\<close> keeps the terminals of its
  branches, the representative that \<open>mtbdd_minExistsRepresentative\<close>
  computes for a cube of variables has no terminals other than the two
  constants and the leaves of its argument; for a Boolean argument it is a
  BDD. The bound is reached: on a leaf with the empty cube the function
  returns the leaf itself (the \<open>FIXME\<close> at line 638).
\<close>

theorem mtbdd_minExistsRepresentative_terminals:
  assumes "ite_keeps_terminals L" "is_cube variables"
    and "mtbdd_minExistsRepresentative L a variables = Some r"
  shows "terminals r \<subseteq> {MFalse, MTrue} \<union> terminals a"
  using assms(2,3)
proof (induction "size a + size variables" arbitrary: a variables r rule: less_induct)
  case less
  show ?case
  proof (cases "mtbdd_isleaf a")
    case True
    then show ?thesis using less.prems terminals_cube [of variables]
      by (auto simp: minExistsRepresentative_leaf split: if_splits)
  next
    case leaf: False
    have IH: "terminals r' \<subseteq> {MFalse, MTrue} \<union> terminals a"
      if "a' \<in> {a, mtbdd_getlow a, mtbdd_gethigh a}" "v' \<in> {variables, mtbdd_set_next variables}"
        "size a' + size v' < size a + size variables" "mtbdd_minExistsRepresentative L a' v' = Some r'"
      for a' v' r'
    proof -
      have "is_cube v'" using that(2) is_cube_set_next [OF less.prems(1)] less.prems(1) by blast
      then have "terminals r' \<subseteq> {MFalse, MTrue} \<union> terminals a'" using less.hyps that(3,4) by blast
      then show ?thesis using that(1) terminals_cofactors [OF leaf] by blast
    qed
    have E: "size (mtbdd_getlow a) < size a" and T: "size (mtbdd_gethigh a) < size a"
      using size_getlow_less [OF leaf] size_gethigh_less [OF leaf] .
    show ?thesis
      using minExistsRepresentative_cases [OF leaf less.prems(2)]
    proof (elim disjE exE conjE)
      fix vv res
      assume "topLevel variables = Some vv" "mtbdd_minExistsRepresentative L a (mtbdd_set_next variables) = Some res"
        "lib_ite L (mtbdd_ithvar vv) MFalse res = Some r"
      then show ?thesis using IH [of a "mtbdd_set_next variables" res] size_set_next_less
          ite_terminals [OF assms(1)] terminals_ithvar by fastforce
    next
      fix res1 res2
      assume "topLevel variables = Some (the (topLevel a))"
        "mtbdd_minExistsRepresentative L (mtbdd_getlow a) (mtbdd_set_next variables) = Some res1"
        "mtbdd_minExistsRepresentative L (mtbdd_gethigh a) (mtbdd_set_next variables) = Some res2"
        "minExistsSameLevel L (the (topLevel a)) (mtbdd_getlow a) (mtbdd_gethigh a) (mtbdd_set_next variables) res1 res2 = Some r"
      then show ?thesis using IH [of "mtbdd_getlow a" "mtbdd_set_next variables" res1]
          IH [of "mtbdd_gethigh a" "mtbdd_set_next variables" res2] size_set_next_less [of variables] E T
          minExistsSameLevel_terminals [OF assms(1)] by fastforce
    next
      fix res1 res2
      assume "mtbdd_minExistsRepresentative L (mtbdd_getlow a) variables = Some res1"
        "mtbdd_minExistsRepresentative L (mtbdd_gethigh a) variables = Some res2"
        "minExistsKeep L (the (topLevel a)) res1 res2 = Some r"
      then show ?thesis using IH [of "mtbdd_getlow a" variables res1] IH [of "mtbdd_gethigh a" variables res2] E T
          minExistsKeep_terminals [OF assms(1)] by fastforce
    qed
  qed
qed

section \<open>Examples\<close>

theorem mtbdd_sha2_rec_level_chunk_witness:
  "fst (mtbdd_sha2_rec (\<lambda>_. 0) (MNode 3 MFalse (MLeaf (LInt 7))) {}) = [Chunk32 0x80000003, Chunk64 7, Chunk64 0]
   \<and> unat ((0x80000003 :: 32 word) AND 0x7FFFFFFF) = 3 \<and> bit (0x80000003 :: 32 word) 31"
proof -
  have run: "fst (mtbdd_sha2_rec (\<lambda>_. 0) (MNode 3 MFalse (MLeaf (LInt 7))) {}) = [Chunk32 0x80000003, Chunk64 7, Chunk64 0]"
    by simp
  have "(3::nat) < 2 ^ 31" "MNode 3 MFalse (MLeaf (LInt 7)) \<notin> {}" by simp_all
  from mtbdd_sha2_rec_level_chunk [OF this, of "\<lambda>_. 0"] run show ?thesis by auto
qed

theorem mtbdd_minExistsRepresentative_terminals_witness:
  "mtbdd_minExistsRepresentative ex_lib (MNode 0 (MLeaf (LInt 1)) (MLeaf (LInt 0))) (mtbdd_ithvar 0)
     = Some (MNode 0 MFalse (MLeaf (LInt 0)))
   \<and> terminals (MNode 0 MFalse (MLeaf (LInt 0)))
       \<subseteq> {MFalse, MTrue} \<union> terminals (MNode 0 (MLeaf (LInt 1)) (MLeaf (LInt 0)))"
proof -
  have run: "mtbdd_minExistsRepresentative ex_lib (MNode 0 (MLeaf (LInt 1)) (MLeaf (LInt 0))) (mtbdd_ithvar 0)
     = Some (MNode 0 MFalse (MLeaf (LInt 0)))"
    by code_simp
  have "is_cube (mtbdd_ithvar 0)" by (simp add: mtbdd_ithvar_def mtbdd_makenode_def)
  then show ?thesis using mtbdd_minExistsRepresentative_terminals [OF ite_keeps_terminals_ex_lib _ run] run by simp
qed

end
