(* ===== verification/RewardModel.thy ===== *)
theory RewardModel
  imports Model
begin

text \<open>
  Storm's standard reward model (\<open>src/src/storm/models/sparse/StandardRewardModel.cpp\<close>):
  three optional parts, a state reward vector, a state-action reward vector
  (one entry per choice, i.e. per matrix row) and a transition reward matrix.
  Reward values are exact rationals (the \<open>RationalNumber\<close> instantiation).
  The transition matrix the operations receive is read through the same
  record as the model (row group indices and rows). \<open>STORM_LOG_ASSERT\<close>
  failures and \<open>STORM_LOG_THROW\<close> exceptions are the two error values; an
  access to an absent \<open>boost::optional\<close> without a preceding assertion is
  reported as an \<open>AssertionFailed\<close> of boost's own \<open>get()\<close> assertion.

  The vector utilities of \<open>storm::utility::vector\<close> and the two matrix
  operations the file calls live outside \<open>src/\<close>; they are modelled by
  their documented effect.
\<close>

type_synonym reward = rat
type_synonym bitvector = "bool list"

record rewardModel =
  optionalStateRewardVector :: "reward list option"
  optionalStateActionRewardVector :: "reward list option"
  optionalTransitionRewardMatrix :: "(state \<times> reward) list list option"

datatype reward_error = AssertionFailed string | InvalidOperationException string

section \<open>Vector and matrix utilities (outside \<open>src/\<close>)\<close>

text \<open>\<open>addVectors(a, b, target)\<close>: the element-wise sum.\<close>

definition addVectors :: "reward list \<Rightarrow> reward list \<Rightarrow> reward list" where
  "addVectors a b = map2 (+) a b"

text \<open>The row group (state) of every row, from the row group indices.\<close>

definition rowGroupOf :: "nat list \<Rightarrow> nat list" where
  "rowGroupOf rgi = concat (map (\<lambda>g. replicate (rgi ! Suc g - rgi ! g) g) [0..<length rgi - 1])"

text \<open>\<open>addVectorToGroupedVector(target, source, rowGroupIndices)\<close>: every row gets the value of its group.\<close>

definition addVectorToGroupedVector :: "reward list \<Rightarrow> reward list \<Rightarrow> nat list \<Rightarrow> reward list" where
  "addVectorToGroupedVector target source rgi = map2 (\<lambda>t g. t + source ! g) target (rowGroupOf rgi)"

text \<open>
  \<open>getPointwiseProductRowSumVector(other)\<close> of the transition matrix: per row,
  the sum of the products of the entries with the entries of the other
  matrix's row in the same column.
\<close>

definition entryAt :: "(state \<times> reward) list \<Rightarrow> state \<Rightarrow> reward" where
  "entryAt row col = (case map_of row col of Some v \<Rightarrow> v | None \<Rightarrow> 0)"

definition getPointwiseProductRowSumVector :: "mdp \<Rightarrow> (state \<times> reward) list list \<Rightarrow> reward list" where
  "getPointwiseProductRowSumVector M other =
     map2 (\<lambda>row orow. sum_list (map (\<lambda>e. snd e * entryAt orow (fst e)) row)) (rows M) other"

text \<open>\<open>selectVectorValues(target, filter, source)\<close>: the source entries whose bit is set, in order.\<close>

definition selectVectorValues :: "bitvector \<Rightarrow> reward list \<Rightarrow> reward list" where
  "selectVectorValues flt source = map snd (filter fst (zip flt source))"

text \<open>\<open>SparseMatrix::restrictRows(enabled)\<close>: the rows whose bit is set.\<close>

definition restrictRows :: "bitvector \<Rightarrow> (state \<times> reward) list list \<Rightarrow> (state \<times> reward) list list" where
  "restrictRows enabled rs = map snd (filter fst (zip enabled rs))"

text \<open>
  The rows of the row groups whose bit is set, in order: the positions the
  filtered utilities below read, writing their results from position 0 on.
\<close>

definition selectedRows :: "bitvector \<Rightarrow> nat list \<Rightarrow> nat list" where
  "selectedRows flt rgi = concat (map (\<lambda>g. [rgi ! g..<rgi ! Suc g]) (filter (\<lambda>g. flt ! g) [0..<length flt]))"

definition selectedGroupRows :: "bitvector \<Rightarrow> nat list \<Rightarrow> nat list" where
  "selectedGroupRows flt rgi =
     concat (map (\<lambda>g. replicate (rgi ! Suc g - rgi ! g) g) (filter (\<lambda>g. flt ! g) [0..<length flt]))"

text \<open>Adding a vector to the first entries of another.\<close>

definition addPrefix :: "reward list \<Rightarrow> reward list \<Rightarrow> reward list" where
  "addPrefix target ys = map2 (+) (take (length ys) target) ys @ drop (length ys) target"

text \<open>\<open>selectVectorValues(target, filter, rowGroupIndices, values)\<close>: the rows of the selected groups.\<close>

definition selectVectorValuesGrouped :: "reward list \<Rightarrow> bitvector \<Rightarrow> nat list \<Rightarrow> reward list \<Rightarrow> reward list" where
  "selectVectorValuesGrouped target flt rgi values =
     put_segment target 0 (map (\<lambda>i. values ! i) (selectedRows flt rgi))"

text \<open>\<open>selectVectorValuesRepeatedly(target, filter, rowGroupIndices, values)\<close>: each selected group's value, once per row.\<close>

definition selectVectorValuesRepeatedly :: "reward list \<Rightarrow> bitvector \<Rightarrow> nat list \<Rightarrow> reward list \<Rightarrow> reward list" where
  "selectVectorValuesRepeatedly target flt rgi values =
     put_segment target 0 (map (\<lambda>g. values ! g) (selectedGroupRows flt rgi))"

text \<open>\<open>addFilteredVectorGroupsToGroupedVector(target, source, filter, rowGroupIndices)\<close>.\<close>

definition addFilteredVectorGroupsToGroupedVector :: "reward list \<Rightarrow> reward list \<Rightarrow> bitvector \<Rightarrow> nat list \<Rightarrow> reward list" where
  "addFilteredVectorGroupsToGroupedVector target source flt rgi =
     addPrefix target (map (\<lambda>i. source ! i) (selectedRows flt rgi))"

text \<open>\<open>addFilteredVectorToGroupedVector(target, source, filter, rowGroupIndices)\<close>.\<close>

definition addFilteredVectorToGroupedVector :: "reward list \<Rightarrow> reward list \<Rightarrow> bitvector \<Rightarrow> nat list \<Rightarrow> reward list" where
  "addFilteredVectorToGroupedVector target source flt rgi =
     addPrefix target (map (\<lambda>g. source ! g) (selectedGroupRows flt rgi))"

text \<open>\<open>applyPointwise(a, b, target, f)\<close>: \<open>target[i] = f(a[i], b[i], target[i])\<close>.\<close>

definition applyPointwise :: "(rat \<Rightarrow> reward \<Rightarrow> reward \<Rightarrow> reward) \<Rightarrow> rat list \<Rightarrow> reward list \<Rightarrow> reward list \<Rightarrow> reward list" where
  "applyPointwise f a b target = map (\<lambda>(x, y, z). f x y z) (zip a (zip b target))"

section \<open>Queries\<close>

definition hasStateRewards :: "rewardModel \<Rightarrow> bool" where
  "hasStateRewards rm \<longleftrightarrow> optionalStateRewardVector rm \<noteq> None"

definition hasOnlyStateRewards :: "rewardModel \<Rightarrow> bool" where
  "hasOnlyStateRewards rm \<longleftrightarrow> optionalStateRewardVector rm \<noteq> None \<and>
     optionalStateActionRewardVector rm = None \<and> optionalTransitionRewardMatrix rm = None"

definition hasStateActionRewards :: "rewardModel \<Rightarrow> bool" where
  "hasStateActionRewards rm \<longleftrightarrow> optionalStateActionRewardVector rm \<noteq> None"

definition hasTransitionRewards :: "rewardModel \<Rightarrow> bool" where
  "hasTransitionRewards rm \<longleftrightarrow> optionalTransitionRewardMatrix rm \<noteq> None"

text \<open>\<open>getStateRewardVector\<close> and \<open>getStateActionRewardVector\<close> (lines 39--48, 75--85).\<close>

definition getStateRewardVector :: "rewardModel \<Rightarrow> reward_error + reward list" where
  "getStateRewardVector rm = (case optionalStateRewardVector rm of
     None \<Rightarrow> Inl (AssertionFailed ''No state rewards available.'') | Some v \<Rightarrow> Inr v)"

definition getStateActionRewardVector :: "rewardModel \<Rightarrow> reward_error + reward list" where
  "getStateActionRewardVector rm = (case optionalStateActionRewardVector rm of
     None \<Rightarrow> Inl (AssertionFailed ''No state action rewards available.'') | Some v \<Rightarrow> Inr v)"

text \<open>\<open>getTransitionRewardMatrix\<close> (lines 112--120): \<open>optional::get()\<close> without a check of its own.\<close>

definition getTransitionRewardMatrix :: "rewardModel \<Rightarrow> reward_error + (state \<times> reward) list list" where
  "getTransitionRewardMatrix rm = (case optionalTransitionRewardMatrix rm of
     None \<Rightarrow> Inl (AssertionFailed ''optional::get() of an empty optional'') | Some m \<Rightarrow> Inr m)"

text \<open>\<open>getStateReward\<close> and \<open>setStateReward\<close> (lines 56--68).\<close>

definition getStateReward :: "rewardModel \<Rightarrow> state \<Rightarrow> reward_error + reward" where
  "getStateReward rm s = (case optionalStateRewardVector rm of
     None \<Rightarrow> Inl (AssertionFailed ''No state rewards available.'')
   | Some v \<Rightarrow> if s < length v then Inr (v ! s) else Inl (AssertionFailed ''Invalid state.''))"

definition setStateReward :: "rewardModel \<Rightarrow> state \<Rightarrow> reward \<Rightarrow> reward_error + rewardModel" where
  "setStateReward rm s r = (case optionalStateRewardVector rm of
     None \<Rightarrow> Inl (AssertionFailed ''No state rewards available.'')
   | Some v \<Rightarrow> if s < length v then Inr (rm\<lparr>optionalStateRewardVector := Some (v[s := r])\<rparr>)
               else Inl (AssertionFailed ''Invalid state.''))"

text \<open>\<open>getStateActionReward\<close> and \<open>setStateActionReward\<close> (lines 87--100).\<close>

definition getStateActionReward :: "rewardModel \<Rightarrow> choice \<Rightarrow> reward_error + reward" where
  "getStateActionReward rm c = (case optionalStateActionRewardVector rm of
     None \<Rightarrow> Inl (AssertionFailed ''No state action rewards available.'')
   | Some v \<Rightarrow> if c < length v then Inr (v ! c) else Inl (AssertionFailed ''Invalid choiceIndex.''))"

definition setStateActionReward :: "rewardModel \<Rightarrow> choice \<Rightarrow> reward \<Rightarrow> reward_error + rewardModel" where
  "setStateActionReward rm c r = (case optionalStateActionRewardVector rm of
     None \<Rightarrow> Inl (AssertionFailed ''No state action rewards available.'')
   | Some v \<Rightarrow> if c < length v then Inr (rm\<lparr>optionalStateActionRewardVector := Some (v[c := r])\<rparr>)
               else Inl (AssertionFailed ''Invalid choiceIndex.''))"

text \<open>
  \<open>setStateActionRewardValue\<close> (lines 236--239): no assertion; the model
  reports the empty optional and leaves an index out of range unchanged,
  where the C++ \<open>operator[]\<close> writes out of bounds.
\<close>

definition setStateActionRewardValue :: "rewardModel \<Rightarrow> choice \<Rightarrow> reward \<Rightarrow> reward_error + rewardModel" where
  "setStateActionRewardValue rm row r = (case optionalStateActionRewardVector rm of
     None \<Rightarrow> Inl (AssertionFailed ''optional::get() of an empty optional'')
   | Some v \<Rightarrow> Inr (rm\<lparr>optionalStateActionRewardVector := Some (v[row := r])\<rparr>))"

text \<open>\<open>empty\<close>, \<open>isAllZero\<close> and \<open>isCompatible\<close> (lines 241--271).\<close>

definition empty_rewards :: "rewardModel \<Rightarrow> bool" where
  "empty_rewards rm \<longleftrightarrow> \<not> (optionalStateRewardVector rm \<noteq> None \<or>
     optionalStateActionRewardVector rm \<noteq> None \<or> optionalTransitionRewardMatrix rm \<noteq> None)"

definition isAllZero :: "rewardModel \<Rightarrow> bool" where
  "isAllZero rm \<longleftrightarrow>
     (case optionalStateRewardVector rm of None \<Rightarrow> True | Some v \<Rightarrow> list_all (\<lambda>x. x = 0) v) \<and>
     (case optionalStateActionRewardVector rm of None \<Rightarrow> True | Some v \<Rightarrow> list_all (\<lambda>x. x = 0) v) \<and>
     (case optionalTransitionRewardMatrix rm of None \<Rightarrow> True
      | Some m \<Rightarrow> list_all (list_all (\<lambda>e. snd e = 0)) m)"

definition isCompatible :: "rewardModel \<Rightarrow> nat \<Rightarrow> nat \<Rightarrow> bool" where
  "isCompatible rm nrStates nrChoices \<longleftrightarrow>
     (case optionalStateRewardVector rm of None \<Rightarrow> True | Some v \<Rightarrow> length v = nrStates) \<and>
     (case optionalStateActionRewardVector rm of None \<Rightarrow> True | Some v \<Rightarrow> length v = nrChoices)"

section \<open>Transformations\<close>

text \<open>\<open>restrictActions\<close> (lines 127--140).\<close>

definition restrictActions :: "rewardModel \<Rightarrow> bitvector \<Rightarrow> rewardModel" where
  "restrictActions rm enabledActions =
     \<lparr>optionalStateRewardVector = optionalStateRewardVector rm,
      optionalStateActionRewardVector =
        map_option (selectVectorValues enabledActions) (optionalStateActionRewardVector rm),
      optionalTransitionRewardMatrix =
        map_option (restrictRows enabledActions) (optionalTransitionRewardMatrix rm)\<rparr>"

text \<open>\<open>reduceToStateBasedRewards\<close> (lines 142--163).\<close>

definition reduceToStateBasedRewards :: "rewardModel \<Rightarrow> mdp \<Rightarrow> bool \<Rightarrow> reward_error + rewardModel" where
  "reduceToStateBasedRewards rm transitionMatrix reduceToStateRewards =
     (let rm1 = (case optionalTransitionRewardMatrix rm of
                   None \<Rightarrow> rm
                 | Some tm \<Rightarrow>
                     (case optionalStateActionRewardVector rm of
                        Some sa \<Rightarrow> rm\<lparr>optionalStateActionRewardVector :=
                                        Some (addVectors sa (getPointwiseProductRowSumVector transitionMatrix tm)),
                                      optionalTransitionRewardMatrix := None\<rparr>
                      | None \<Rightarrow> rm\<lparr>optionalStateActionRewardVector :=
                                   Some (getPointwiseProductRowSumVector transitionMatrix tm)\<rparr>))
      in case optionalStateActionRewardVector rm1 of
           Some sa \<Rightarrow>
             if reduceToStateRewards then
               (if numberOfStates transitionMatrix \<noteq> length sa
                then Inl (InvalidOperationException
                  ''The reduction to state rewards is only possible if the size of the action reward vector equals the number of states.'')
                else Inr ((case optionalStateRewardVector rm1 of
                             Some sr \<Rightarrow> rm1\<lparr>optionalStateRewardVector := Some (addVectors sa sr)\<rparr>
                           | None \<Rightarrow> rm1\<lparr>optionalStateRewardVector := Some sa\<rparr>)
                          \<lparr>optionalStateActionRewardVector := None\<rparr>))
             else Inr rm1
         | None \<Rightarrow> Inr rm1)"

section \<open>Total reward vectors\<close>

text \<open>\<open>getTotalRewardVector(transitionMatrix)\<close> (lines 165--176).\<close>

definition getTotalRewardVector :: "rewardModel \<Rightarrow> mdp \<Rightarrow> reward list" where
  "getTotalRewardVector rm transitionMatrix =
     (let result = (case optionalTransitionRewardMatrix rm of
                      Some tm \<Rightarrow> getPointwiseProductRowSumVector transitionMatrix tm
                    | None \<Rightarrow> (case optionalStateActionRewardVector rm of
                                Some sa \<Rightarrow> sa
                              | None \<Rightarrow> replicate (numberOfChoices transitionMatrix) 0));
          result = (case (optionalStateActionRewardVector rm, optionalTransitionRewardMatrix rm) of
                      (Some sa, Some _) \<Rightarrow> addVectors result sa
                    | _ \<Rightarrow> result)
      in case optionalStateRewardVector rm of
           Some sr \<Rightarrow> addVectorToGroupedVector result sr (rowGroupIndices transitionMatrix)
         | None \<Rightarrow> result)"

text \<open>
  \<open>getTotalRewardVector(transitionMatrix, weights, scaleTransAndActions)\<close>
  (lines 178--195). The flag is never read. With transition rewards the
  state-action reward vector is read unconditionally.
\<close>

definition getTotalRewardVectorWeighted ::
    "rewardModel \<Rightarrow> mdp \<Rightarrow> rat list \<Rightarrow> bool \<Rightarrow> reward_error + reward list" where
  "getTotalRewardVectorWeighted rm transitionMatrix weights scaleTransAndActions =
     (let result =
        (case optionalTransitionRewardMatrix rm of
           Some tm \<Rightarrow>
             (case getStateActionRewardVector rm of
                Inl e \<Rightarrow> Inl e
              | Inr sa \<Rightarrow> Inr (applyPointwise (\<lambda>w r res. w * (res + r)) weights sa
                                 (getPointwiseProductRowSumVector transitionMatrix tm)))
         | None \<Rightarrow>
             (let zero = replicate (numberOfChoices transitionMatrix) 0
              in case optionalStateActionRewardVector rm of
                   Some sa \<Rightarrow> Inr (applyPointwise (\<lambda>w r res. w * r) weights sa zero)
                 | None \<Rightarrow> Inr zero))
      in case result of
           Inl e \<Rightarrow> Inl e
         | Inr res \<Rightarrow> Inr (case optionalStateRewardVector rm of
                             Some sr \<Rightarrow> addVectorToGroupedVector res sr (rowGroupIndices transitionMatrix)
                           | None \<Rightarrow> res))"

text \<open>\<open>getTotalRewardVector(numberOfRows, transitionMatrix, filter)\<close> (lines 197--213).\<close>

definition getTotalRewardVectorFiltered :: "rewardModel \<Rightarrow> nat \<Rightarrow> mdp \<Rightarrow> bitvector \<Rightarrow> reward list" where
  "getTotalRewardVectorFiltered rm numberOfRows transitionMatrix flt =
     (let rgi = rowGroupIndices transitionMatrix;
          result = replicate numberOfRows 0;
          result = (case optionalTransitionRewardMatrix rm of
                      Some tm \<Rightarrow> selectVectorValuesGrouped result flt rgi
                                  (getPointwiseProductRowSumVector transitionMatrix tm)
                    | None \<Rightarrow> result);
          result = (case optionalStateActionRewardVector rm of
                      Some sa \<Rightarrow> addFilteredVectorGroupsToGroupedVector result sa flt rgi
                    | None \<Rightarrow> result)
      in case optionalStateRewardVector rm of
           Some sr \<Rightarrow> addFilteredVectorToGroupedVector result sr flt rgi
         | None \<Rightarrow> result)"

text \<open>\<open>getTotalStateActionRewardVector\<close>, both overloads (lines 215--234).\<close>

definition getTotalStateActionRewardVector :: "rewardModel \<Rightarrow> nat \<Rightarrow> nat list \<Rightarrow> reward list" where
  "getTotalStateActionRewardVector rm numberOfRows rgi =
     (let result = (case optionalStateActionRewardVector rm of
                      Some sa \<Rightarrow> sa | None \<Rightarrow> replicate numberOfRows 0)
      in case optionalStateRewardVector rm of
           Some sr \<Rightarrow> addVectorToGroupedVector result sr rgi
         | None \<Rightarrow> result)"

definition getTotalStateActionRewardVectorFiltered ::
    "rewardModel \<Rightarrow> nat \<Rightarrow> nat list \<Rightarrow> bitvector \<Rightarrow> reward list" where
  "getTotalStateActionRewardVectorFiltered rm numberOfRows rgi flt =
     (let result = replicate numberOfRows 0;
          result = (case optionalStateRewardVector rm of
                      Some sr \<Rightarrow> selectVectorValuesRepeatedly result flt rgi sr
                    | None \<Rightarrow> result)
      in case optionalStateActionRewardVector rm of
           Some sa \<Rightarrow> addFilteredVectorGroupsToGroupedVector result sa flt rgi
         | None \<Rightarrow> result)"

text \<open>
  \<open>getSizeInBytes\<close> (lines 274--287), with \<open>sizeof(ValueType)\<close> and the
  matrix's own \<open>getSizeInBytes\<close> as parameters.
\<close>

definition getSizeInBytes :: "nat \<Rightarrow> ((state \<times> reward) list list \<Rightarrow> nat) \<Rightarrow> rewardModel \<Rightarrow> nat" where
  "getSizeInBytes valueSize matrixSize rm =
     (case optionalStateRewardVector rm of Some v \<Rightarrow> length v * valueSize | None \<Rightarrow> 0) +
     (case optionalStateActionRewardVector rm of Some v \<Rightarrow> length v * valueSize | None \<Rightarrow> 0) +
     (case optionalTransitionRewardMatrix rm of Some m \<Rightarrow> matrixSize m | None \<Rightarrow> 0)"

text \<open>\<open>operator<<\<close> (lines 289--300), with \<open>std::boolalpha\<close>.\<close>

definition boolalpha :: "bool \<Rightarrow> string" where
  "boolalpha b = (if b then ''true'' else ''false'')"

definition showRewardModel :: "rewardModel \<Rightarrow> string" where
  "showRewardModel rm =
     ''reward model [state reward: '' @ boolalpha (hasStateRewards rm) @
     '', state-action rewards: '' @ boolalpha (hasStateActionRewards rm) @
     '', transition rewards: '' @ boolalpha (hasTransitionRewards rm) @ '']''"

section \<open>Properties\<close>

text \<open>
  Reward models whose vectors fit the matrix, and the reward of one choice
  the total reward vector is meant to hold: transition, state-action and
  state reward (of the choice's state) together.
\<close>

definition reward_wf :: "rewardModel \<Rightarrow> mdp \<Rightarrow> bool" where
  "reward_wf rm M \<longleftrightarrow> isCompatible rm (numberOfStates M) (numberOfChoices M) \<and>
     (case optionalTransitionRewardMatrix rm of None \<Rightarrow> True | Some tm \<Rightarrow> length tm = numberOfChoices M)"

definition choiceReward :: "rewardModel \<Rightarrow> mdp \<Rightarrow> choice \<Rightarrow> reward" where
  "choiceReward rm M r =
     (case optionalTransitionRewardMatrix rm of Some tm \<Rightarrow> getPointwiseProductRowSumVector M tm ! r | None \<Rightarrow> 0) +
     (case optionalStateActionRewardVector rm of Some sa \<Rightarrow> sa ! r | None \<Rightarrow> 0) +
     (case optionalStateRewardVector rm of Some sr \<Rightarrow> sr ! (rowGroupOf (rowGroupIndices M) ! r) | None \<Rightarrow> 0)"

definition doubledTransitionReward :: "rewardModel \<Rightarrow> mdp \<Rightarrow> choice \<Rightarrow> reward" where
  "doubledTransitionReward rm M r =
     (case (optionalTransitionRewardMatrix rm, optionalStateActionRewardVector rm) of
        (Some tm, None) \<Rightarrow> getPointwiseProductRowSumVector M tm ! r
      | _ \<Rightarrow> 0)"

lemma length_rowGroupOf: "mdp_wf M \<Longrightarrow> length (rowGroupOf (rowGroupIndices M)) = numberOfChoices M"
  using sum_group_sizes [of M "numberOfStates M"] mdp_wf_last [of M]
  by (simp add: rowGroupOf_def length_concat comp_def numberOfStates_def)

lemma length_pprs: "length tm = numberOfChoices M \<Longrightarrow> length (getPointwiseProductRowSumVector M tm) = numberOfChoices M"
  by (simp add: getPointwiseProductRowSumVector_def numberOfChoices_def)

lemma nth_addVectorToGroupedVector:
  "i < length t \<Longrightarrow> i < length (rowGroupOf rgi) \<Longrightarrow>
   addVectorToGroupedVector t s rgi ! i = t ! i + s ! (rowGroupOf rgi ! i)"
  by (simp add: addVectorToGroupedVector_def)

lemma length_addVectorToGroupedVector:
  "length (addVectorToGroupedVector t s rgi) = min (length t) (length (rowGroupOf rgi))"
  by (simp add: addVectorToGroupedVector_def)

lemma total_reward_by_choice:
  assumes wf: "reward_wf rm M" and m: "mdp_wf M"
  shows "getTotalRewardVector rm M = map (choiceReward rm M) [0..<numberOfChoices M]"
proof (rule nth_equalityI)
  have g: "length (rowGroupOf (rowGroupIndices M)) = numberOfChoices M" using m by (rule length_rowGroupOf)
  show "length (getTotalRewardVector rm M) = length (map (choiceReward rm M) [0..<numberOfChoices M])"
    using wf g by (auto simp: getTotalRewardVector_def reward_wf_def isCompatible_def addVectors_def
        length_pprs length_addVectorToGroupedVector split: option.splits)
  fix i assume "i < length (getTotalRewardVector rm M)"
  then have i: "i < numberOfChoices M"
    using wf g by (auto simp: getTotalRewardVector_def reward_wf_def isCompatible_def addVectors_def
        length_pprs length_addVectorToGroupedVector split: option.splits)
  show "getTotalRewardVector rm M ! i = map (choiceReward rm M) [0..<numberOfChoices M] ! i"
    using wf g i by (auto simp: getTotalRewardVector_def reward_wf_def isCompatible_def addVectors_def
        choiceReward_def length_pprs nth_addVectorToGroupedVector split: option.splits)
qed

lemma nth_addVectors: "i < length a \<Longrightarrow> i < length b \<Longrightarrow> addVectors a b ! i = a ! i + b ! i"
  by (simp add: addVectors_def)

lemma length_addVectors [simp]: "length (addVectors a b) = min (length a) (length b)"
  by (simp add: addVectors_def)

lemma reduce_total:
  assumes wf: "reward_wf rm M" and m: "mdp_wf M"
    and red: "reduceToStateBasedRewards rm M False = Inr rm'"
  shows "getTotalRewardVector rm' M =
    map (\<lambda>r. choiceReward rm M r + doubledTransitionReward rm M r) [0..<numberOfChoices M]"
proof (cases "optionalTransitionRewardMatrix rm")
  case None
  then have "rm' = rm" using red
    by (auto simp: reduceToStateBasedRewards_def split: option.splits)
  then show ?thesis using total_reward_by_choice [OF wf m] None by (simp add: doubledTransitionReward_def)
next
  case (Some tm)
  have tl: "length tm = numberOfChoices M" using wf Some by (simp add: reward_wf_def)
  show ?thesis
  proof (cases "optionalStateActionRewardVector rm")
    case None
    let ?p = "getPointwiseProductRowSumVector M tm"
    have r': "rm' = rm\<lparr>optionalStateActionRewardVector := Some ?p\<rparr>"
      using red Some None by (simp add: reduceToStateBasedRewards_def)
    have wf': "reward_wf rm' M" using wf r' tl by (simp add: reward_wf_def isCompatible_def length_pprs)
    show ?thesis using total_reward_by_choice [OF wf' m] r' Some None
      by (simp add: choiceReward_def doubledTransitionReward_def)
  next
    case sa: (Some sa)
    let ?p = "getPointwiseProductRowSumVector M tm"
    have sl: "length sa = numberOfChoices M" using wf sa by (simp add: reward_wf_def isCompatible_def)
    have r': "rm' = rm\<lparr>optionalStateActionRewardVector := Some (addVectors sa ?p),
                         optionalTransitionRewardMatrix := None\<rparr>"
      using red Some sa by (simp add: reduceToStateBasedRewards_def)
    have wf': "reward_wf rm' M" using wf r' tl sl by (simp add: reward_wf_def isCompatible_def length_pprs)
    show ?thesis using total_reward_by_choice [OF wf' m] r' Some sa sl tl
      by (simp add: choiceReward_def doubledTransitionReward_def nth_addVectors length_pprs)
  qed
qed

text \<open>
  C23: The total reward vector holds, for every choice, the sum of the
  choice's transition reward (pointwise product row sum), its state-action
  reward and the state reward of its state.
\<close>

theorem getTotalRewardVector_nth:
  assumes "reward_wf rm M" "mdp_wf M" "r < numberOfChoices M"
  shows "getTotalRewardVector rm M ! r = choiceReward rm M r"
  using total_reward_by_choice [OF assms(1,2)] assms(3) by simp

text \<open>
  C22: \<open>reduceToStateBasedRewards\<close> without the reduction to state rewards
  keeps the total reward vector when the model has state-action rewards or
  no transition rewards: the transition rewards are folded into the
  state-action rewards and dropped.
\<close>

theorem reduceToStateBasedRewards_preserves_total:
  assumes "reward_wf rm M" "mdp_wf M" "hasStateActionRewards rm \<or> \<not> hasTransitionRewards rm"
    "reduceToStateBasedRewards rm M False = Inr rm'"
  shows "getTotalRewardVector rm' M = getTotalRewardVector rm M"
proof -
  have "doubledTransitionReward rm M r = 0" for r
    using assms(3) by (auto simp: doubledTransitionReward_def hasStateActionRewards_def
        hasTransitionRewards_def split: option.splits)
  then show ?thesis using reduce_total [OF assms(1,2,4)] total_reward_by_choice [OF assms(1,2)] by simp
qed

text \<open>
  C21: With transition rewards and no state-action rewards,
  \<open>reduceToStateBasedRewards\<close> stores the transition rewards as
  state-action rewards but keeps the transition reward matrix (line 150 has
  no reset, unlike line 148): every later total reward vector counts the
  transition rewards twice.
\<close>

theorem reduceToStateBasedRewards_double_counts:
  assumes "reward_wf rm M" "mdp_wf M" "optionalTransitionRewardMatrix rm = Some tm"
    "\<not> hasStateActionRewards rm"
  shows "\<exists>rm'. reduceToStateBasedRewards rm M False = Inr rm' \<and> hasTransitionRewards rm' \<and>
    getTotalRewardVector rm' M =
      map (\<lambda>r. choiceReward rm M r + getPointwiseProductRowSumVector M tm ! r) [0..<numberOfChoices M]"
proof -
  let ?rm' = "rm\<lparr>optionalStateActionRewardVector := Some (getPointwiseProductRowSumVector M tm)\<rparr>"
  have red: "reduceToStateBasedRewards rm M False = Inr ?rm'"
    using assms(3,4) by (simp add: reduceToStateBasedRewards_def hasStateActionRewards_def)
  have "doubledTransitionReward rm M r = getPointwiseProductRowSumVector M tm ! r" for r
    using assms(3,4) by (simp add: doubledTransitionReward_def hasStateActionRewards_def)
  then show ?thesis using reduce_total [OF assms(1,2) red] red assms(3)
    by (simp add: hasTransitionRewards_def)
qed

text \<open>
  C24: The weighted total reward vector fails on a model with transition
  rewards and no state-action rewards: line 184 reads the state-action
  reward vector unconditionally.
\<close>

theorem getTotalRewardVectorWeighted_needs_action_rewards:
  assumes "hasTransitionRewards rm" "\<not> hasStateActionRewards rm"
  shows "getTotalRewardVectorWeighted rm M w scale = Inl (AssertionFailed ''No state action rewards available.'')"
  using assms by (auto simp: getTotalRewardVectorWeighted_def getStateActionRewardVector_def
      hasTransitionRewards_def hasStateActionRewards_def)

text \<open>
  C25: For well-formed rewards (the vectors sized by the states and the
  choices) with state-action or transition rewards, the reduction to state
  rewards throws \<open>InvalidOperationException\<close> exactly when the state-action
  vector left after merging in the transition rewards does not have one entry
  per state, that is, exactly when some state does not have exactly one
  choice; otherwise it succeeds.
\<close>

theorem reduceToStateRewards_size_error:
  assumes "reward_wf rm M" "hasStateActionRewards rm \<or> hasTransitionRewards rm"
  shows "reduceToStateBasedRewards rm M True = Inl (InvalidOperationException
    ''The reduction to state rewards is only possible if the size of the action reward vector equals the number of states.'')
         \<longleftrightarrow> numberOfChoices M \<noteq> numberOfStates M"
proof (cases "optionalTransitionRewardMatrix rm")
  case None
  with assms obtain sa where sa: "optionalStateActionRewardVector rm = Some sa" "length sa = numberOfChoices M"
    by (auto simp: reward_wf_def isCompatible_def hasStateActionRewards_def hasTransitionRewards_def)
  show ?thesis
    using None sa by (simp add: reduceToStateBasedRewards_def split: option.split)
next
  case (Some tm)
  then have tm: "length tm = numberOfChoices M"
    using assms(1) by (simp add: reward_wf_def)
  show ?thesis
  proof (cases "optionalStateActionRewardVector rm")
    case None
    then show ?thesis
      using Some tm by (simp add: reduceToStateBasedRewards_def length_pprs Let_def split: option.split)
  next
    case (Some sa)
    then have "length sa = numberOfChoices M"
      using assms(1) by (simp add: reward_wf_def isCompatible_def)
    then show ?thesis
      using Some \<open>optionalTransitionRewardMatrix rm = Some tm\<close> tm
      by (simp add: reduceToStateBasedRewards_def length_pprs Let_def split: option.split)
  qed
qed

section \<open>Witnesses\<close>

text \<open>
  A model with two states (choices 0 and 1 of state 0, choice 2 of state 1)
  and transition rewards whose pointwise product row sums are 3, 6 and 0.
\<close>

lemma ex_reward_facts:
  "mdp_wf (\<lparr>rowGroupIndices = [0, 2, 3], rows = [[(0, 1/2), (1, 1/2)], [(1, 1)], [(0, 1)]]\<rparr> :: mdp)"
  "reward_wf (\<lparr>optionalStateRewardVector = Some [1, 2], optionalStateActionRewardVector = None, optionalTransitionRewardMatrix = Some [[(0, 2), (1, 4)], [(1, 6)], [(0, 0)]]\<rparr> :: rewardModel) \<lparr>rowGroupIndices = [0, 2, 3], rows = [[(0, 1/2), (1, 1/2)], [(1, 1)], [(0, 1)]]\<rparr>"
  "reward_wf (\<lparr>optionalStateRewardVector = Some [1, 2], optionalStateActionRewardVector = Some [1, 1, 1], optionalTransitionRewardMatrix = Some [[(0, 2), (1, 4)], [(1, 6)], [(0, 0)]]\<rparr> :: rewardModel) \<lparr>rowGroupIndices = [0, 2, 3], rows = [[(0, 1/2), (1, 1/2)], [(1, 1)], [(0, 1)]]\<rparr>"
  "map (choiceReward \<lparr>optionalStateRewardVector = Some [1, 2], optionalStateActionRewardVector = None, optionalTransitionRewardMatrix = Some [[(0, 2), (1, 4)], [(1, 6)], [(0, 0)]]\<rparr> \<lparr>rowGroupIndices = [0, 2, 3], rows = [[(0, 1/2), (1, 1/2)], [(1, 1)], [(0, 1)]]\<rparr>) [0..<numberOfChoices \<lparr>rowGroupIndices = [0, 2, 3], rows = [[(0, 1/2), (1, 1/2)], [(1, 1)], [(0, 1)]]\<rparr>] = [4, 7, 2]"
  "getPointwiseProductRowSumVector \<lparr>rowGroupIndices = [0, 2, 3], rows = [[(0, 1/2), (1, 1/2)], [(1, 1)], [(0, 1)]]\<rparr> [[(0, 2), (1, 4)], [(1, 6)], [(0, 0)]] = [3, 6, 0]"
  by (simp_all add: mdp_wf_def numberOfChoices_def numberOfStates_def reward_wf_def isCompatible_def
      choiceReward_def getPointwiseProductRowSumVector_def entryAt_def rowGroupOf_def numeral_2_eq_2)

theorem getTotalRewardVector_nth_witness:
  "reward_wf \<lparr>optionalStateRewardVector = Some [1, 2], optionalStateActionRewardVector = None, optionalTransitionRewardMatrix = Some [[(0, 2), (1, 4)], [(1, 6)], [(0, 0)]]\<rparr> \<lparr>rowGroupIndices = [0, 2, 3], rows = [[(0, 1/2), (1, 1/2)], [(1, 1)], [(0, 1)]]\<rparr> \<and> mdp_wf \<lparr>rowGroupIndices = [0, 2, 3], rows = [[(0, 1/2), (1, 1/2)], [(1, 1)], [(0, 1)]]\<rparr> \<and> 1 < numberOfChoices \<lparr>rowGroupIndices = [0, 2, 3], rows = [[(0, 1/2), (1, 1/2)], [(1, 1)], [(0, 1)]]\<rparr> \<and>
   getTotalRewardVector \<lparr>optionalStateRewardVector = Some [1, 2], optionalStateActionRewardVector = None, optionalTransitionRewardMatrix = Some [[(0, 2), (1, 4)], [(1, 6)], [(0, 0)]]\<rparr> \<lparr>rowGroupIndices = [0, 2, 3], rows = [[(0, 1/2), (1, 1/2)], [(1, 1)], [(0, 1)]]\<rparr> ! 1 = 7"
proof -
  have c: "1 < numberOfChoices \<lparr>rowGroupIndices = [0, 2, 3], rows = [[(0, 1/2), (1, 1/2)], [(1, 1)], [(0, 1)]]\<rparr>" by (simp add: numberOfChoices_def)
  have "choiceReward \<lparr>optionalStateRewardVector = Some [1, 2], optionalStateActionRewardVector = None, optionalTransitionRewardMatrix = Some [[(0, 2), (1, 4)], [(1, 6)], [(0, 0)]]\<rparr> \<lparr>rowGroupIndices = [0, 2, 3], rows = [[(0, 1/2), (1, 1/2)], [(1, 1)], [(0, 1)]]\<rparr> 1 = 7" using ex_reward_facts(4) by (simp add: numberOfChoices_def)
  then show ?thesis using getTotalRewardVector_nth [OF ex_reward_facts(2,1) c] ex_reward_facts c by simp
qed

theorem reduceToStateBasedRewards_preserves_total_witness:
  "reward_wf \<lparr>optionalStateRewardVector = Some [1, 2], optionalStateActionRewardVector = Some [1, 1, 1], optionalTransitionRewardMatrix = Some [[(0, 2), (1, 4)], [(1, 6)], [(0, 0)]]\<rparr> \<lparr>rowGroupIndices = [0, 2, 3], rows = [[(0, 1/2), (1, 1/2)], [(1, 1)], [(0, 1)]]\<rparr> \<and> mdp_wf \<lparr>rowGroupIndices = [0, 2, 3], rows = [[(0, 1/2), (1, 1/2)], [(1, 1)], [(0, 1)]]\<rparr> \<and> (hasStateActionRewards \<lparr>optionalStateRewardVector = Some [1, 2], optionalStateActionRewardVector = Some [1, 1, 1], optionalTransitionRewardMatrix = Some [[(0, 2), (1, 4)], [(1, 6)], [(0, 0)]]\<rparr> \<or> \<not> hasTransitionRewards \<lparr>optionalStateRewardVector = Some [1, 2], optionalStateActionRewardVector = Some [1, 1, 1], optionalTransitionRewardMatrix = Some [[(0, 2), (1, 4)], [(1, 6)], [(0, 0)]]\<rparr>) \<and>
   reduceToStateBasedRewards \<lparr>optionalStateRewardVector = Some [1, 2], optionalStateActionRewardVector = Some [1, 1, 1], optionalTransitionRewardMatrix = Some [[(0, 2), (1, 4)], [(1, 6)], [(0, 0)]]\<rparr> \<lparr>rowGroupIndices = [0, 2, 3], rows = [[(0, 1/2), (1, 1/2)], [(1, 1)], [(0, 1)]]\<rparr> False = Inr ((projr (reduceToStateBasedRewards \<lparr>optionalStateRewardVector = Some [1, 2], optionalStateActionRewardVector = Some [1, 1, 1], optionalTransitionRewardMatrix = Some [[(0, 2), (1, 4)], [(1, 6)], [(0, 0)]]\<rparr> \<lparr>rowGroupIndices = [0, 2, 3], rows = [[(0, 1/2), (1, 1/2)], [(1, 1)], [(0, 1)]]\<rparr> False))) \<and>
   getTotalRewardVector ((projr (reduceToStateBasedRewards \<lparr>optionalStateRewardVector = Some [1, 2], optionalStateActionRewardVector = Some [1, 1, 1], optionalTransitionRewardMatrix = Some [[(0, 2), (1, 4)], [(1, 6)], [(0, 0)]]\<rparr> \<lparr>rowGroupIndices = [0, 2, 3], rows = [[(0, 1/2), (1, 1/2)], [(1, 1)], [(0, 1)]]\<rparr> False))) \<lparr>rowGroupIndices = [0, 2, 3], rows = [[(0, 1/2), (1, 1/2)], [(1, 1)], [(0, 1)]]\<rparr> = getTotalRewardVector \<lparr>optionalStateRewardVector = Some [1, 2], optionalStateActionRewardVector = Some [1, 1, 1], optionalTransitionRewardMatrix = Some [[(0, 2), (1, 4)], [(1, 6)], [(0, 0)]]\<rparr> \<lparr>rowGroupIndices = [0, 2, 3], rows = [[(0, 1/2), (1, 1/2)], [(1, 1)], [(0, 1)]]\<rparr>"
proof -
  have h: "hasStateActionRewards \<lparr>optionalStateRewardVector = Some [1, 2], optionalStateActionRewardVector = Some [1, 1, 1], optionalTransitionRewardMatrix = Some [[(0, 2), (1, 4)], [(1, 6)], [(0, 0)]]\<rparr> \<or> \<not> hasTransitionRewards \<lparr>optionalStateRewardVector = Some [1, 2], optionalStateActionRewardVector = Some [1, 1, 1], optionalTransitionRewardMatrix = Some [[(0, 2), (1, 4)], [(1, 6)], [(0, 0)]]\<rparr>" by (simp add: hasStateActionRewards_def)
  have r: "reduceToStateBasedRewards \<lparr>optionalStateRewardVector = Some [1, 2], optionalStateActionRewardVector = Some [1, 1, 1], optionalTransitionRewardMatrix = Some [[(0, 2), (1, 4)], [(1, 6)], [(0, 0)]]\<rparr> \<lparr>rowGroupIndices = [0, 2, 3], rows = [[(0, 1/2), (1, 1/2)], [(1, 1)], [(0, 1)]]\<rparr> False = Inr ((projr (reduceToStateBasedRewards \<lparr>optionalStateRewardVector = Some [1, 2], optionalStateActionRewardVector = Some [1, 1, 1], optionalTransitionRewardMatrix = Some [[(0, 2), (1, 4)], [(1, 6)], [(0, 0)]]\<rparr> \<lparr>rowGroupIndices = [0, 2, 3], rows = [[(0, 1/2), (1, 1/2)], [(1, 1)], [(0, 1)]]\<rparr> False)))"
    by (simp add: reduceToStateBasedRewards_def)
  show ?thesis using reduceToStateBasedRewards_preserves_total [OF ex_reward_facts(3,1) h r] ex_reward_facts h r by simp
qed

theorem reduceToStateBasedRewards_double_counts_witness:
  "reward_wf \<lparr>optionalStateRewardVector = Some [1, 2], optionalStateActionRewardVector = None, optionalTransitionRewardMatrix = Some [[(0, 2), (1, 4)], [(1, 6)], [(0, 0)]]\<rparr> \<lparr>rowGroupIndices = [0, 2, 3], rows = [[(0, 1/2), (1, 1/2)], [(1, 1)], [(0, 1)]]\<rparr> \<and> mdp_wf \<lparr>rowGroupIndices = [0, 2, 3], rows = [[(0, 1/2), (1, 1/2)], [(1, 1)], [(0, 1)]]\<rparr> \<and> optionalTransitionRewardMatrix \<lparr>optionalStateRewardVector = Some [1, 2], optionalStateActionRewardVector = None, optionalTransitionRewardMatrix = Some [[(0, 2), (1, 4)], [(1, 6)], [(0, 0)]]\<rparr> = Some [[(0, 2), (1, 4)], [(1, 6)], [(0, 0)]] \<and>
   \<not> hasStateActionRewards \<lparr>optionalStateRewardVector = Some [1, 2], optionalStateActionRewardVector = None, optionalTransitionRewardMatrix = Some [[(0, 2), (1, 4)], [(1, 6)], [(0, 0)]]\<rparr> \<and>
   (\<exists>rm'. reduceToStateBasedRewards \<lparr>optionalStateRewardVector = Some [1, 2], optionalStateActionRewardVector = None, optionalTransitionRewardMatrix = Some [[(0, 2), (1, 4)], [(1, 6)], [(0, 0)]]\<rparr> \<lparr>rowGroupIndices = [0, 2, 3], rows = [[(0, 1/2), (1, 1/2)], [(1, 1)], [(0, 1)]]\<rparr> False = Inr rm' \<and> hasTransitionRewards rm' \<and>
      getTotalRewardVector rm' \<lparr>rowGroupIndices = [0, 2, 3], rows = [[(0, 1/2), (1, 1/2)], [(1, 1)], [(0, 1)]]\<rparr> = [7, 13, 2]) \<and>
   getTotalRewardVector \<lparr>optionalStateRewardVector = Some [1, 2], optionalStateActionRewardVector = None, optionalTransitionRewardMatrix = Some [[(0, 2), (1, 4)], [(1, 6)], [(0, 0)]]\<rparr> \<lparr>rowGroupIndices = [0, 2, 3], rows = [[(0, 1/2), (1, 1/2)], [(1, 1)], [(0, 1)]]\<rparr> = [4, 7, 2]"
proof -
  have t: "optionalTransitionRewardMatrix \<lparr>optionalStateRewardVector = Some [1, 2], optionalStateActionRewardVector = None, optionalTransitionRewardMatrix = Some [[(0, 2), (1, 4)], [(1, 6)], [(0, 0)]]\<rparr> = Some [[(0, 2), (1, 4)], [(1, 6)], [(0, 0)]]" by simp
  have n: "\<not> hasStateActionRewards \<lparr>optionalStateRewardVector = Some [1, 2], optionalStateActionRewardVector = None, optionalTransitionRewardMatrix = Some [[(0, 2), (1, 4)], [(1, 6)], [(0, 0)]]\<rparr>" by (simp add: hasStateActionRewards_def)
  have tot: "getTotalRewardVector \<lparr>optionalStateRewardVector = Some [1, 2], optionalStateActionRewardVector = None, optionalTransitionRewardMatrix = Some [[(0, 2), (1, 4)], [(1, 6)], [(0, 0)]]\<rparr> \<lparr>rowGroupIndices = [0, 2, 3], rows = [[(0, 1/2), (1, 1/2)], [(1, 1)], [(0, 1)]]\<rparr> = [4, 7, 2]"
    by (simp add: getTotalRewardVector_def getPointwiseProductRowSumVector_def entryAt_def
        addVectorToGroupedVector_def rowGroupOf_def numeral_2_eq_2)
  show ?thesis using reduceToStateBasedRewards_double_counts [OF ex_reward_facts(2,1) t n] ex_reward_facts t n tot
    by (simp add: numberOfChoices_def)
qed

theorem getTotalRewardVectorWeighted_needs_action_rewards_witness:
  "hasTransitionRewards \<lparr>optionalStateRewardVector = Some [1, 2], optionalStateActionRewardVector = None, optionalTransitionRewardMatrix = Some [[(0, 2), (1, 4)], [(1, 6)], [(0, 0)]]\<rparr> \<and> \<not> hasStateActionRewards \<lparr>optionalStateRewardVector = Some [1, 2], optionalStateActionRewardVector = None, optionalTransitionRewardMatrix = Some [[(0, 2), (1, 4)], [(1, 6)], [(0, 0)]]\<rparr> \<and>
   getTotalRewardVectorWeighted \<lparr>optionalStateRewardVector = Some [1, 2], optionalStateActionRewardVector = None, optionalTransitionRewardMatrix = Some [[(0, 2), (1, 4)], [(1, 6)], [(0, 0)]]\<rparr> \<lparr>rowGroupIndices = [0, 2, 3], rows = [[(0, 1/2), (1, 1/2)], [(1, 1)], [(0, 1)]]\<rparr> [1, 1, 1] True = Inl (AssertionFailed ''No state action rewards available.'')"
proof -
  have h: "hasTransitionRewards \<lparr>optionalStateRewardVector = Some [1, 2], optionalStateActionRewardVector = None, optionalTransitionRewardMatrix = Some [[(0, 2), (1, 4)], [(1, 6)], [(0, 0)]]\<rparr>" "\<not> hasStateActionRewards \<lparr>optionalStateRewardVector = Some [1, 2], optionalStateActionRewardVector = None, optionalTransitionRewardMatrix = Some [[(0, 2), (1, 4)], [(1, 6)], [(0, 0)]]\<rparr>"
    by (simp_all add: hasTransitionRewards_def hasStateActionRewards_def)
  show ?thesis using getTotalRewardVectorWeighted_needs_action_rewards [OF h] h by simp
qed

theorem reduceToStateRewards_size_error_witness:
  "reward_wf \<lparr>optionalStateRewardVector = Some [1, 2], optionalStateActionRewardVector = None, optionalTransitionRewardMatrix = Some [[(0, 2), (1, 4)], [(1, 6)], [(0, 0)]]\<rparr> \<lparr>rowGroupIndices = [0, 2, 3], rows = [[(0, 1/2), (1, 1/2)], [(1, 1)], [(0, 1)]]\<rparr> \<and>
   hasTransitionRewards \<lparr>optionalStateRewardVector = Some [1, 2], optionalStateActionRewardVector = None, optionalTransitionRewardMatrix = Some [[(0, 2), (1, 4)], [(1, 6)], [(0, 0)]]\<rparr> \<and>
   reduceToStateBasedRewards \<lparr>optionalStateRewardVector = Some [1, 2], optionalStateActionRewardVector = None, optionalTransitionRewardMatrix = Some [[(0, 2), (1, 4)], [(1, 6)], [(0, 0)]]\<rparr> \<lparr>rowGroupIndices = [0, 2, 3], rows = [[(0, 1/2), (1, 1/2)], [(1, 1)], [(0, 1)]]\<rparr> True = Inl (InvalidOperationException
    ''The reduction to state rewards is only possible if the size of the action reward vector equals the number of states.'')"
proof -
  have h: "hasTransitionRewards \<lparr>optionalStateRewardVector = Some [1, 2], optionalStateActionRewardVector = None, optionalTransitionRewardMatrix = Some [[(0, 2), (1, 4)], [(1, 6)], [(0, 0)]]\<rparr>"
    by (simp add: hasTransitionRewards_def)
  have n: "numberOfChoices \<lparr>rowGroupIndices = [0, 2, 3], rows = [[(0, 1/2), (1, 1/2)], [(1, 1)], [(0, 1)]]\<rparr> \<noteq> numberOfStates \<lparr>rowGroupIndices = [0, 2, 3], rows = [[(0, 1/2), (1, 1/2)], [(1, 1)], [(0, 1)]]\<rparr>"
    by (simp add: numberOfChoices_def numberOfStates_def)
  show ?thesis
    using reduceToStateRewards_size_error [OF ex_reward_facts(2)] h n ex_reward_facts(2) by simp
qed

end
