(* ===== verification/Jani.thy ===== *)
theory Jani
  imports Prelude "HOL-Library.List_Lexorder"
begin

text \<open>
  Parts of the JANI next-state generator
  (\<open>src/src/generator/JaniNextStateGenerator.cpp\<close>): the model type,
  the location of each automaton in the compressed state (a bit field of the
  state's \<open>BitVector\<close>), and the enabled edges of an action, one list per
  automaton that has edges with the action. The JANI model classes, the
  bit vector and the expression evaluator live outside \<open>src/\<close>: a
  compressed state is a list of bits, \<open>getAsInt\<close>/\<open>setFromInt\<close> read and
  write a field most significant bit first, an automaton is its list of
  edges, and a guard is evaluated on the current state by a function the
  edge carries.
\<close>

type_synonym compressed_state = "bool list"

section \<open>Bit fields of the compressed state\<close>

fun bits_to_nat :: "bool list \<Rightarrow> nat" where
  "bits_to_nat [] = 0"
| "bits_to_nat (b # bs) = (if b then 2 ^ length bs else 0) + bits_to_nat bs"

fun nat_to_bits :: "nat \<Rightarrow> nat \<Rightarrow> bool list" where
  "nat_to_bits 0 v = []"
| "nat_to_bits (Suc w) v = (v div 2 ^ w mod 2 = 1) # nat_to_bits w v"

text \<open>\<open>BitVector::getAsInt(bitIndex, numberOfBits)\<close> and \<open>setFromInt\<close> (outside \<open>src/\<close>).\<close>

definition getAsInt :: "compressed_state \<Rightarrow> nat \<Rightarrow> nat \<Rightarrow> nat" where
  "getAsInt s off w = bits_to_nat (segment s off (off + w))"

definition setFromInt :: "compressed_state \<Rightarrow> nat \<Rightarrow> nat \<Rightarrow> nat \<Rightarrow> compressed_state" where
  "setFromInt s off w v = put_segment s off (nat_to_bits w v)"

record locationVariableInformation =
  bitOffset :: nat
  bitWidth :: nat

text \<open>\<open>getLocation\<close>, \<open>setLocation\<close> and \<open>getLocations\<close> (lines 63--89 of the generator).\<close>

definition getLocation :: "compressed_state \<Rightarrow> locationVariableInformation \<Rightarrow> nat" where
  "getLocation state lv = (if bitWidth lv = 0 then 0 else getAsInt state (bitOffset lv) (bitWidth lv))"

definition setLocation :: "compressed_state \<Rightarrow> locationVariableInformation \<Rightarrow> nat \<Rightarrow> compressed_state" where
  "setLocation state lv locationIndex =
     (if bitWidth lv \<noteq> 0 then setFromInt state (bitOffset lv) (bitWidth lv) locationIndex else state)"

definition getLocations :: "locationVariableInformation list \<Rightarrow> compressed_state \<Rightarrow> nat list" where
  "getLocations locationVariables state = map (getLocation state) locationVariables"

section \<open>Model types\<close>

datatype janiModelType = UNDEFINED | LTS | DTMC | CTMC | MDP | MA | TA | PTA | STA | HA | PHA | SHA

datatype modelType = ModelDTMC | ModelCTMC | ModelMDP | ModelMA

datatype jani_error = WrongFormatException string | InvalidSettingsException string | AssertionFailure string

text \<open>\<open>getModelType\<close> (lines 41--51).\<close>

fun getModelType :: "janiModelType \<Rightarrow> jani_error + modelType" where
  "getModelType DTMC = Inr ModelDTMC"
| "getModelType CTMC = Inr ModelCTMC"
| "getModelType MDP = Inr ModelMDP"
| "getModelType MA = Inr ModelMA"
| "getModelType _ = Inl (WrongFormatException ''Invalid model type.'')"

section \<open>Variables, edges and choices\<close>

text \<open>
  \<open>VariableInformation\<close> (outside \<open>src/\<close>): the bit position of every
  boolean variable, the bit field and the bounds of every integer variable,
  and the bit field of every automaton's location. Expressions are
  evaluated by the generator's evaluator, which holds the valuation of the
  state being expanded; an expression is here the function of that state it
  evaluates to, tagged with its type.
\<close>

record booleanVariableInformation =
  boolVariable :: nat
  boolBitOffset :: nat

record integerVariableInformation =
  intVariable :: nat
  intBitOffset :: nat
  intBitWidth :: nat
  lowerBound :: int
  upperBound :: int

record variableInformation =
  booleanVariables :: "booleanVariableInformation list"
  integerVariables :: "integerVariableInformation list"
  locationVariables :: "locationVariableInformation list"

datatype expression = BoolExpression "compressed_state \<Rightarrow> bool" | IntExpression "compressed_state \<Rightarrow> int"

datatype assignment = Assignment (assignedVariable: nat) (assignedExpression: expression)

record edgeDestination =
  destLocation :: nat
  destProbability :: "compressed_state \<Rightarrow> rat"
  destAssignments :: "assignment list"

record edge =
  edgeSource :: nat
  edgeAction :: nat
  edgeGuard :: "compressed_state \<Rightarrow> bool"
  edgeDestinations :: "edgeDestination list"

type_synonym automaton = "edge list"

text \<open>
  \<open>Choice\<close> and its \<open>Distribution\<close> (outside \<open>src/\<close>): a map from target
  state ids to probabilities, kept sorted by key; \<open>choice_addProbability\<close> adds to
  the entry of the key or inserts it. The same insertion is the
  \<open>flat_map<CompressedState, ValueType>\<close> of target states, ordered by the
  bit vectors' order (lexicographic on equally long states).
\<close>

fun choice_addProbability :: "'k::linorder \<Rightarrow> rat \<Rightarrow> ('k \<times> rat) list \<Rightarrow> ('k \<times> rat) list" where
  "choice_addProbability k v [] = [(k, v)]"
| "choice_addProbability k v ((k', v') # d) =
     (if k = k' then (k', v' + v) # d
      else if k < k' then (k, v) # (k', v') # d
      else (k', v') # choice_addProbability k v d)"

record generatorChoice =
  choiceAction :: nat
  choiceDistribution :: "(nat \<times> rat) list"

definition mass :: "('k \<times> rat) list \<Rightarrow> rat" where
  "mass d = sum_list (map snd d)"

text \<open>\<open>Automaton::hasEdgeLabeledWithActionIndex\<close> and the two \<open>getEdgesFromLocation\<close> (outside \<open>src/\<close>).\<close>

definition hasEdgeLabeledWithActionIndex :: "automaton \<Rightarrow> nat \<Rightarrow> bool" where
  "hasEdgeLabeledWithActionIndex A a \<longleftrightarrow> list_ex (\<lambda>e. edgeAction e = a) A"

definition getEdgesFromLocation :: "automaton \<Rightarrow> nat \<Rightarrow> nat \<Rightarrow> edge list" where
  "getEdgesFromLocation A loc a = filter (\<lambda>e. edgeSource e = loc \<and> edgeAction e = a) A"

definition edgesFromLocation :: "automaton \<Rightarrow> nat \<Rightarrow> edge list" where
  "edgesFromLocation A loc = filter (\<lambda>e. edgeSource e = loc) A"

section \<open>Applying an update\<close>

text \<open>
  \<open>applyUpdate\<close> (lines 170--207): the boolean assignments, then the integer
  assignments, each loop advancing its variable iterator to the assigned
  variable (running past the end, undefined behaviour in the code, is an
  assertion failure here); an integer value above the upper bound throws,
  the value minus the lower bound is cast to \<open>uint_fast64_t\<close> and written,
  and the assertion after the write reads it back. \<open>ev\<close> is the valuation
  of the evaluator, \<open>s\<close> the state being updated.
\<close>

fun applyBoolAssignments ::
    "compressed_state \<Rightarrow> booleanVariableInformation list \<Rightarrow> assignment list \<Rightarrow> compressed_state
     \<Rightarrow> jani_error + assignment list \<times> compressed_state" where
  "applyBoolAssignments ev bs (Assignment x (BoolExpression e) # as) s =
     (case dropWhile (\<lambda>b. boolVariable b \<noteq> x) bs of
        [] \<Rightarrow> Inl (AssertionFailure ''boolean variable iterator out of range'')
      | b # bs' \<Rightarrow> applyBoolAssignments ev (b # bs') as (s[boolBitOffset b := e ev]))"
| "applyBoolAssignments ev bs as s = Inr (as, s)"

fun applyIntAssignments ::
    "compressed_state \<Rightarrow> integerVariableInformation list \<Rightarrow> assignment list \<Rightarrow> compressed_state
     \<Rightarrow> jani_error + assignment list \<times> compressed_state" where
  "applyIntAssignments ev is (Assignment x (IntExpression e) # as) s =
     (case dropWhile (\<lambda>v. intVariable v \<noteq> x) is of
        [] \<Rightarrow> Inl (AssertionFailure ''integer variable iterator out of range'')
      | v # is' \<Rightarrow>
          (let assignedValue = e ev
           in if \<not> assignedValue \<le> upperBound v
              then Inl (WrongFormatException ''The update leads to an out-of-bounds value'')
              else
                (let s' = setFromInt s (intBitOffset v) (intBitWidth v)
                            (nat ((assignedValue - lowerBound v) mod 2 ^ 64))
                 in if int (getAsInt s' (intBitOffset v) (intBitWidth v)) + lowerBound v \<noteq> assignedValue
                    then Inl (AssertionFailure ''Writing to the bit vector bucket failed'')
                    else applyIntAssignments ev (v # is') as s')))"
| "applyIntAssignments ev is as s = Inr (as, s)"

definition applyUpdate ::
    "variableInformation \<Rightarrow> compressed_state \<Rightarrow> compressed_state \<Rightarrow> edgeDestination \<Rightarrow> jani_error + compressed_state" where
  "applyUpdate vi ev state destination =
     sbind (applyBoolAssignments ev (booleanVariables vi) (destAssignments destination) state)
       (\<lambda>(as, s). sbind (applyIntAssignments ev (integerVariables vi) as s)
          (\<lambda>(rest, s'). if rest = [] then Inr s'
                         else Inl (AssertionFailure ''Not all assignments were consumed.'')))"

section \<open>Enabled edges\<close>

text \<open>
  The loop of \<open>getEnabledEdges\<close> (lines 415--454) over the automata, with
  its counter \<open>automatonIndex\<close>; \<open>None\<close> is the early return of the empty
  vector. The counter is only incremented for automata that have the action
  (line 450, after the \<open>continue\<close> of line 424).
\<close>

fun enabledEdgesLoop ::
    "automaton list \<Rightarrow> nat \<Rightarrow> nat list \<Rightarrow> nat \<Rightarrow> compressed_state \<Rightarrow> edge list list option" where
  "enabledEdgesLoop [] automatonIndex locationIndices actionIndex state = Some []"
| "enabledEdgesLoop (A # As) automatonIndex locationIndices actionIndex state =
     (if \<not> hasEdgeLabeledWithActionIndex A actionIndex
      then enabledEdgesLoop As automatonIndex locationIndices actionIndex state
      else
        (let edges = getEdgesFromLocation A (locationIndices ! automatonIndex) actionIndex
         in if edges = [] then None
            else
              (let edgePointers = filter (\<lambda>e. edgeGuard e state) edges
               in if edgePointers = [] then None
                  else map_option (Cons edgePointers)
                         (enabledEdgesLoop As (Suc automatonIndex) locationIndices actionIndex state))))"

definition getEnabledEdges :: "automaton list \<Rightarrow> nat list \<Rightarrow> nat \<Rightarrow> compressed_state \<Rightarrow> edge list list" where
  "getEnabledEdges automata locationIndices actionIndex state =
     (case enabledEdgesLoop automata 0 locationIndices actionIndex state of None \<Rightarrow> [] | Some r \<Rightarrow> r)"

section \<open>Choices of a state\<close>

text \<open>
  One destination of a silent edge (lines 299--309): the successor state is
  the update applied to the expanded state, its id is given by the state
  storage's callback \<open>stateToId\<close>, and the probability is added to the choice
  and to the running sum.
\<close>

definition destinationStep ::
    "variableInformation \<Rightarrow> (compressed_state \<Rightarrow> nat) \<Rightarrow> compressed_state \<Rightarrow> edgeDestination
     \<Rightarrow> (nat \<times> rat) list \<times> rat \<Rightarrow> jani_error + (nat \<times> rat) list \<times> rat" where
  "destinationStep vi stateToId state destination =
     (\<lambda>(d, probabilitySum). sbind (applyUpdate vi state state destination)
        (\<lambda>s'. let probability = destProbability destination state
              in Inr (choice_addProbability (stateToId s') probability d, probabilitySum + probability)))"

definition silentEdgeChoice ::
    "variableInformation \<Rightarrow> (compressed_state \<Rightarrow> nat) \<Rightarrow> bool \<Rightarrow> compressed_state \<Rightarrow> edge \<Rightarrow> jani_error + generatorChoice" where
  "silentEdgeChoice vi stateToId discreteTime state e =
     sbind (sfold (destinationStep vi stateToId state) (edgeDestinations e) ([], 0))
       (\<lambda>(d, probabilitySum).
          if discreteTime \<and> probabilitySum \<noteq> 1
          then Inl (WrongFormatException ''Probabilities do not sum to one for edge'')
          else Inr \<lparr>choiceAction = edgeAction e, choiceDistribution = d\<rparr>)"

text \<open>\<open>getSilentActionChoices\<close> (lines 274--319): the counter \<open>automatonIndex\<close> advances for every automaton.\<close>

fun getSilentActionChoicesLoop ::
    "variableInformation \<Rightarrow> (compressed_state \<Rightarrow> nat) \<Rightarrow> bool \<Rightarrow> nat \<Rightarrow> automaton list \<Rightarrow> nat
     \<Rightarrow> nat list \<Rightarrow> compressed_state \<Rightarrow> generatorChoice list \<Rightarrow> jani_error + generatorChoice list" where
  "getSilentActionChoicesLoop vi stateToId discreteTime silentActionIndex [] automatonIndex locations state result =
     Inr result"
| "getSilentActionChoicesLoop vi stateToId discreteTime silentActionIndex (A # As) automatonIndex locations state result =
     sbind (sfold (\<lambda>e result.
                if edgeAction e \<noteq> silentActionIndex then Inr result
                else if \<not> edgeGuard e state then Inr result
                else sbind (silentEdgeChoice vi stateToId discreteTime state e) (\<lambda>c. Inr (result @ [c])))
              (edgesFromLocation A (locations ! automatonIndex)) result)
       (getSilentActionChoicesLoop vi stateToId discreteTime silentActionIndex As (Suc automatonIndex) locations state)"

text \<open>
  One edge of a command combination (lines 346--362): every destination is
  applied to every target state found so far, with the evaluator still
  holding the expanded state \<open>ev\<close>; the product of the probabilities is
  added to the new target state.
\<close>

definition edgeTargets ::
    "variableInformation \<Rightarrow> compressed_state \<Rightarrow> (compressed_state \<times> rat) list \<Rightarrow> edge
     \<Rightarrow> jani_error + (compressed_state \<times> rat) list" where
  "edgeTargets vi ev currentTargetStates e =
     sfold (\<lambda>destination newTargetStates.
              sfold (\<lambda>(s, p) newTargetStates.
                       sbind (applyUpdate vi ev s destination)
                         (\<lambda>s'. Inr (choice_addProbability s' (p * destProbability destination ev) newTargetStates)))
                    currentTargetStates newTargetStates)
           (edgeDestinations e) []"

definition combinationTargets ::
    "variableInformation \<Rightarrow> compressed_state \<Rightarrow> edge list \<Rightarrow> jani_error + (compressed_state \<times> rat) list" where
  "combinationTargets vi ev edges = sfold (\<lambda>e current. edgeTargets vi ev current e) edges [(ev, 1)]"

text \<open>The choice of one combination (lines 375--389).\<close>

definition combinationChoice ::
    "variableInformation \<Rightarrow> (compressed_state \<Rightarrow> nat) \<Rightarrow> bool \<Rightarrow> nat \<Rightarrow> compressed_state \<Rightarrow> edge list
     \<Rightarrow> jani_error + generatorChoice" where
  "combinationChoice vi stateToId discreteTime actionIndex state edges =
     sbind (combinationTargets vi state edges)
       (\<lambda>newTargetStates.
          if discreteTime \<and> mass newTargetStates \<noteq> 1
          then Inl (WrongFormatException ''Sum of update probabilities do not some to one for some command'')
          else Inr \<lparr>choiceAction = actionIndex,
                    choiceDistribution = fold (\<lambda>(s, p) d. choice_addProbability (stateToId s) p d) newTargetStates []\<rparr>)"

text \<open>
  The iterators over the enabled edges of every automaton (lines 395--407),
  as positions: the first one is advanced; one that reaches the end is
  reset and the next one advanced; \<open>None\<close> when all were reset.
\<close>

fun advance :: "nat list \<Rightarrow> nat list \<Rightarrow> nat list option" where
  "advance (n # ns) (i # its) = (if Suc i < n then Some (Suc i # its) else map_option (Cons 0) (advance ns its))"
| "advance _ _ = None"

text \<open>
  The position of the iterators as a mixed-radix number, least significant
  first (a position past the end counts as the last one, an empty list as
  radix one); \<open>advance\<close> increments it.
\<close>

fun rank :: "nat list \<Rightarrow> nat list \<Rightarrow> nat" where
  "rank (n # ns) (i # its) = min i (max n 1 - 1) + max n 1 * rank ns its"
| "rank _ _ = 0"

definition combinations_count :: "nat list \<Rightarrow> nat" where
  "combinations_count ns = prod_list (map (\<lambda>n. max n 1) ns)"

text \<open>Iterators that all point into their automaton's enabled edges.\<close>

definition iterators_valid :: "nat list \<Rightarrow> nat list \<Rightarrow> bool" where
  "iterators_valid ns its \<longleftrightarrow> list_all2 (\<lambda>i n. i < n) its ns"

lemma combinations_count_pos: "0 < combinations_count ns"
  by (induction ns) (simp_all add: combinations_count_def)

lemma rank_less: "rank ns its < combinations_count ns"
proof (induction ns its rule: rank.induct)
  case (1 n ns i its)
  let ?N = "max n 1" and ?r = "rank ns its" and ?P = "combinations_count ns"
  have "min i (?N - 1) + ?N * ?r \<le> (?N - 1) + ?N * (?P - 1)"
    using 1 by (intro add_mono mult_le_mono) auto
  also have "\<dots> < ?N * ?P" using 1
    by (cases ?P) (auto simp: algebra_simps)
  finally show ?case by (simp add: combinations_count_def)
qed (simp_all add: combinations_count_pos)

lemma rank_advance: "advance ns its = Some is' \<Longrightarrow> rank ns is' = Suc (rank ns its)"
proof (induction ns its arbitrary: is' rule: advance.induct)
  case (1 n ns i its)
  show ?case
  proof (cases "Suc i < n")
    case True
    then show ?thesis using 1 by auto
  next
    case False
    then obtain js where "advance ns its = Some js" "is' = 0 # js" using 1 by auto
    then show ?thesis using 1 False by (auto simp: max_def)
  qed
qed simp_all

text \<open>The loop over the command combinations of one action (lines 338--408).\<close>

function combinationLoop ::
    "variableInformation \<Rightarrow> (compressed_state \<Rightarrow> nat) \<Rightarrow> bool \<Rightarrow> nat \<Rightarrow> compressed_state \<Rightarrow> edge list list
     \<Rightarrow> nat list \<Rightarrow> generatorChoice list \<Rightarrow> jani_error + generatorChoice list" where
  "combinationLoop vi stateToId discreteTime actionIndex state enabledEdges iteratorList result =
     sbind (combinationChoice vi stateToId discreteTime actionIndex state (map2 (!) enabledEdges iteratorList))
       (\<lambda>c. case advance (map length enabledEdges) iteratorList of
              None \<Rightarrow> Inr (result @ [c])
            | Some iteratorList' \<Rightarrow>
                combinationLoop vi stateToId discreteTime actionIndex state enabledEdges iteratorList' (result @ [c]))"
  by pat_completeness auto
termination
  by (relation "measure (\<lambda>(_, _, _, _, _, ees, its, _).
                  combinations_count (map length ees) - rank (map length ees) its)")
     (auto dest!: rank_advance intro: diff_less_mono2 rank_less)

text \<open>\<open>getNonsilentActionChoices\<close> (lines 321--413).\<close>

definition getNonsilentActionChoices ::
    "variableInformation \<Rightarrow> (compressed_state \<Rightarrow> nat) \<Rightarrow> bool \<Rightarrow> automaton list \<Rightarrow> nat list \<Rightarrow> nat list
     \<Rightarrow> compressed_state \<Rightarrow> jani_error + generatorChoice list" where
  "getNonsilentActionChoices vi stateToId discreteTime automata nonsilentActionIndices locations state =
     sfold (\<lambda>actionIndex result.
              let enabledEdges = getEnabledEdges automata locations actionIndex state
              in if enabledEdges = [] then Inr result
                 else combinationLoop vi stateToId discreteTime actionIndex state enabledEdges
                        (replicate (length enabledEdges) 0) result)
           nonsilentActionIndices []"

section \<open>Expanding a state\<close>

text \<open>The JANI model as the generator reads it (outside \<open>src/\<close>).\<close>

record janiModel =
  jModelType :: janiModelType
  automata :: "automaton list"
  silentActionIndex :: nat
  nonsilentActionIndices :: "nat list"
  hasDefaultComposition :: bool

text \<open>The generator's options (\<open>NextStateGeneratorOptions\<close>, outside \<open>src/\<close>).\<close>

datatype expressionOrLabel = TerminalExpression "compressed_state \<Rightarrow> bool" | TerminalLabel string

record nextStateGeneratorOptions =
  buildAllRewardModels :: bool
  rewardModelNames :: "string list"
  buildChoiceLabels :: bool
  optionTerminalStates :: "(expressionOrLabel \<times> bool) list"

text \<open>
  The generator: the model, the variable layout \<open>VariableInformation(model)\<close>
  computes, and the terminal-state expressions.
\<close>

record janiNextStateGenerator =
  generatorModel :: janiModel
  variableInformation :: variableInformation
  terminalStates :: "((compressed_state \<Rightarrow> bool) \<times> bool) list"

text \<open>The constructor (lines 23--39).\<close>

definition JaniNextStateGenerator ::
    "janiModel \<Rightarrow> variableInformation \<Rightarrow> nextStateGeneratorOptions \<Rightarrow> jani_error + janiNextStateGenerator" where
  "JaniNextStateGenerator model vi options =
     (if \<not> hasDefaultComposition model
      then Inl (WrongFormatException ''The explicit next-state generator currently does not support custom system compositions.'')
      else if \<not> (\<not> buildAllRewardModels options \<and> rewardModelNames options = [])
      then Inl (InvalidSettingsException ''The explicit next-state generator currently does not support building reward models.'')
      else if buildChoiceLabels options
      then Inl (InvalidSettingsException ''JANI next-state generator cannot generate choice labels.'')
      else sbind (sfold (\<lambda>(expressionOrLabelAndBool, b) ts.
                           case expressionOrLabelAndBool of
                             TerminalExpression expression \<Rightarrow> Inr (ts @ [(expression, b)])
                           | TerminalLabel _ \<Rightarrow> Inl (InvalidSettingsException ''Cannot make label terminal for JANI models.''))
                         (optionTerminalStates options) [])
             (\<lambda>ts. Inr \<lparr>generatorModel = model, variableInformation = vi, terminalStates = ts\<rparr>))"

text \<open>\<open>getNumberOfRewardModels\<close> and \<open>getRewardModelInformation\<close> (lines 456--465).\<close>

definition getNumberOfRewardModels :: "janiNextStateGenerator \<Rightarrow> nat" where
  "getNumberOfRewardModels generator = 0"

definition getRewardModelInformation :: "janiNextStateGenerator \<Rightarrow> nat \<Rightarrow> jani_error + unit" where
  "getRewardModelInformation generator index =
     Inl (InvalidSettingsException ''Cannot retrieve reward model information.'')"

definition isDeterministicModel :: "janiModelType \<Rightarrow> bool" where
  "isDeterministicModel t \<longleftrightarrow> t = DTMC \<or> t = CTMC"

definition isDiscreteTimeModel :: "janiModelType \<Rightarrow> bool" where
  "isDiscreteTimeModel t \<longleftrightarrow> t = DTMC \<or> t = MDP"

record stateBehavior =
  behaviorChoices :: "generatorChoice list"
  behaviorExpanded :: bool

text \<open>
  The fusion of all choices of a deterministic model into one (lines
  241--263): in discrete time each probability is divided by the number of
  choices, in continuous time the rates are added. Choice labels are never
  built (the constructor rejects the option).
\<close>

definition fuseChoices :: "bool \<Rightarrow> generatorChoice list \<Rightarrow> generatorChoice" where
  "fuseChoices discreteTime allChoices =
     \<lparr>choiceAction = 0,
      choiceDistribution =
        fold (\<lambda>c d. fold (\<lambda>(k, p) d. choice_addProbability k
                                      (if discreteTime then p / of_nat (length allChoices) else p) d)
                          (choiceDistribution c) d)
             allChoices []\<rparr>"

text \<open>\<open>expand\<close> (lines 209--272), on the state loaded into the evaluator.\<close>

definition expand ::
    "janiNextStateGenerator \<Rightarrow> (compressed_state \<Rightarrow> nat) \<Rightarrow> compressed_state \<Rightarrow> jani_error + stateBehavior" where
  "expand generator stateToId state =
     (let model = generatorModel generator; vi = variableInformation generator
      in if list_ex (\<lambda>(expression, b). expression state = b) (terminalStates generator)
      then Inr \<lparr>behaviorChoices = [], behaviorExpanded = False\<rparr>
      else
        (let locations = getLocations (locationVariables vi) state;
             discreteTime = isDiscreteTimeModel (jModelType model)
         in sbind (getSilentActionChoicesLoop vi stateToId discreteTime (silentActionIndex model)
                     (automata model) 0 locations state [])
              (\<lambda>allChoices.
                 sbind (getNonsilentActionChoices vi stateToId discreteTime (automata model)
                          (nonsilentActionIndices model) locations state)
                   (\<lambda>allLabeledChoices.
                      let allChoices = allChoices @ allLabeledChoices;
                          totalNumberOfChoices = length allChoices
                      in if totalNumberOfChoices = 0
                         then Inr \<lparr>behaviorChoices = [], behaviorExpanded = False\<rparr>
                         else Inr \<lparr>behaviorChoices =
                                     (if isDeterministicModel (jModelType model) \<and> 1 < totalNumberOfChoices
                                      then [fuseChoices discreteTime allChoices] else allChoices),
                                   behaviorExpanded = True\<rparr>))))"

text \<open>
  The intended enabled edges: every automaton is read at its own location
  (the \<open>i\<close>-th entry of the location vector for the \<open>i\<close>-th automaton).
\<close>

fun enabledEdgesSpec ::
    "(automaton \<times> nat) list \<Rightarrow> nat \<Rightarrow> compressed_state \<Rightarrow> edge list list option" where
  "enabledEdgesSpec [] actionIndex state = Some []"
| "enabledEdgesSpec ((A, loc) # rest) actionIndex state =
     (if \<not> hasEdgeLabeledWithActionIndex A actionIndex then enabledEdgesSpec rest actionIndex state
      else
        (let ptrs = filter (\<lambda>e. edgeGuard e state) (getEdgesFromLocation A loc actionIndex)
         in if ptrs = [] then None else map_option (Cons ptrs) (enabledEdgesSpec rest actionIndex state)))"

section \<open>Well-formed variable layouts\<close>

text \<open>
  The layout \<open>VariableInformation\<close> computes: every field lies inside the
  state, and no location field shares a bit with another location field or
  with a variable. \<open>changes_only P s s'\<close>: \<open>s'\<close> differs from \<open>s\<close> at most
  at the positions \<open>P\<close>.
\<close>

definition location_positions :: "locationVariableInformation \<Rightarrow> nat set" where
  "location_positions lv = {bitOffset lv ..< bitOffset lv + bitWidth lv}"

definition fits :: "compressed_state \<Rightarrow> locationVariableInformation \<Rightarrow> bool" where
  "fits s lv \<longleftrightarrow> bitOffset lv + bitWidth lv \<le> length s"

definition disjoint_fields :: "locationVariableInformation \<Rightarrow> locationVariableInformation \<Rightarrow> bool" where
  "disjoint_fields lv lv' \<longleftrightarrow>
     bitOffset lv + bitWidth lv \<le> bitOffset lv' \<or> bitOffset lv' + bitWidth lv' \<le> bitOffset lv"

definition variable_positions :: "variableInformation \<Rightarrow> nat set" where
  "variable_positions vi =
     boolBitOffset ` set (booleanVariables vi)
     \<union> (\<Union>v\<in>set (integerVariables vi). {intBitOffset v ..< intBitOffset v + intBitWidth v})"

definition layout_wf :: "variableInformation \<Rightarrow> compressed_state \<Rightarrow> bool" where
  "layout_wf vi s \<longleftrightarrow>
     list_all (\<lambda>v. intBitOffset v + intBitWidth v \<le> length s) (integerVariables vi)
     \<and> list_all (\<lambda>lv. fits s lv \<and> location_positions lv \<inter> variable_positions vi = {}) (locationVariables vi)"

definition changes_only :: "nat set \<Rightarrow> compressed_state \<Rightarrow> compressed_state \<Rightarrow> bool" where
  "changes_only P s s' \<longleftrightarrow> length s' = length s \<and> (\<forall>p<length s. p \<notin> P \<longrightarrow> s' ! p = s ! p)"

section \<open>Example models\<close>

text \<open>Small layouts, edges and a one-automaton DTMC (a fair coin) on which the theorems are applied.\<close>

definition ex_locations :: "locationVariableInformation list" where
  "ex_locations = [\<lparr>bitOffset = 0, bitWidth = 2\<rparr>, \<lparr>bitOffset = 2, bitWidth = 1\<rparr>]"

definition ex_flag_layout :: variableInformation where
  "ex_flag_layout = \<lparr>booleanVariables = [\<lparr>boolVariable = 7, boolBitOffset = 2\<rparr>], integerVariables = [],
                      locationVariables = [\<lparr>bitOffset = 0, bitWidth = 2\<rparr>]\<rparr>"

definition ex_flag_destination :: edgeDestination where
  "ex_flag_destination =
     \<lparr>destLocation = 3, destProbability = \<lambda>_. 1, destAssignments = [Assignment 7 (BoolExpression (\<lambda>_. True))]\<rparr>"

definition ex_counter :: integerVariableInformation where
  "ex_counter = \<lparr>intVariable = 0, intBitOffset = 0, intBitWidth = 2, lowerBound = 1, upperBound = 4\<rparr>"

definition ex_counter_layout :: variableInformation where
  "ex_counter_layout = \<lparr>booleanVariables = [], integerVariables = [ex_counter], locationVariables = []\<rparr>"

definition ex_no_variables :: variableInformation where
  "ex_no_variables = \<lparr>booleanVariables = [], integerVariables = [], locationVariables = []\<rparr>"

definition ex_edge :: "nat \<Rightarrow> nat \<Rightarrow> edge" where
  "ex_edge source action = \<lparr>edgeSource = source, edgeAction = action, edgeGuard = \<lambda>_. True, edgeDestinations = []\<rparr>"

definition ex_half :: edgeDestination where
  "ex_half = \<lparr>destLocation = 0, destProbability = \<lambda>_. 1 / 2, destAssignments = []\<rparr>"

definition ex_coin_side :: "bool \<Rightarrow> edgeDestination" where
  "ex_coin_side b = \<lparr>destLocation = 0, destProbability = \<lambda>_. 1 / 2, destAssignments = [Assignment 0 (BoolExpression (\<lambda>_. b))]\<rparr>"

definition ex_coin_generator :: janiNextStateGenerator where
  "ex_coin_generator =
     \<lparr>generatorModel = \<lparr>jModelType = DTMC,
                         automata = [[(ex_edge 0 0)\<lparr>edgeDestinations := [ex_coin_side True, ex_coin_side False]\<rparr>]],
                         silentActionIndex = 0, nonsilentActionIndices = [], hasDefaultComposition = True\<rparr>,
      variableInformation = \<lparr>booleanVariables = [\<lparr>boolVariable = 0, boolBitOffset = 0\<rparr>], integerVariables = [],
                             locationVariables = [\<lparr>bitOffset = 1, bitWidth = 0\<rparr>]\<rparr>,
      terminalStates = []\<rparr>"

section \<open>Bit fields\<close>

lemma length_nat_to_bits [simp]: "length (nat_to_bits w v) = w"
  by (induction w) simp_all

lemma bits_to_nat_nat_to_bits: "bits_to_nat (nat_to_bits w v) = v mod 2 ^ w"
proof (induction w)
  case (Suc w)
  have "v mod 2 ^ Suc w = 2 ^ w * (v div 2 ^ w mod 2) + v mod 2 ^ w"
    unfolding power_Suc2 by (rule mod_mult2_eq)
  moreover have "v div 2 ^ w mod 2 = 1 \<or> v div 2 ^ w mod 2 = 0" by arith
  ultimately show ?case using Suc by (auto simp: length_nat_to_bits)
qed simp

lemma getAsInt_setFromInt_same:
  "off + w \<le> length s \<Longrightarrow> getAsInt (setFromInt s off w v) off w = v mod 2 ^ w"
  using segment_put_segment_same [of off "nat_to_bits w v" s]
  by (simp add: getAsInt_def setFromInt_def bits_to_nat_nat_to_bits)

lemma changes_only_setFromInt:
  "off + w \<le> length s \<Longrightarrow> changes_only {off ..< off + w} s (setFromInt s off w v)"
  by (simp add: changes_only_def setFromInt_def nth_put_segment)

lemma changes_only_update: "changes_only {p} s (s[p := b])"
  by (simp add: changes_only_def)

lemma changes_only_trans:
  "changes_only P s s' \<Longrightarrow> changes_only Q s' s'' \<Longrightarrow> P \<union> Q \<subseteq> R \<Longrightarrow> changes_only R s s''"
  by (auto simp: changes_only_def)

lemma changes_only_refl [simp]: "changes_only P s s"
  by (simp add: changes_only_def)

lemma getLocation_changes_only:
  assumes "changes_only P s s'" "fits s lv" "location_positions lv \<inter> P = {}"
  shows "getLocation s' lv = getLocation s lv"
proof -
  let ?o = "bitOffset lv" and ?w = "bitWidth lv"
  have len: "length s' = length s" "?o + ?w \<le> length s"
    using assms(1,2) by (simp_all add: changes_only_def fits_def)
  have "segment s' ?o (?o + ?w) = segment s ?o (?o + ?w)"
  proof (rule nth_equalityI)
    show "length (segment s' ?o (?o + ?w)) = length (segment s ?o (?o + ?w))" using len by simp
    fix i assume "i < length (segment s' ?o (?o + ?w))"
    then have i: "i < ?w" using len by simp
    then have "?o + i \<in> location_positions lv" by (simp add: location_positions_def)
    then have "?o + i \<notin> P" using assms(3) by blast
    then have "s' ! (?o + i) = s ! (?o + i)" using assms(1) i len(2) by (simp add: changes_only_def)
    then show "segment s' ?o (?o + ?w) ! i = segment s ?o (?o + ?w) ! i" using i len by simp
  qed
  then show ?thesis by (simp add: getLocation_def getAsInt_def)
qed

lemma length_setLocation [simp]: "fits s lv \<Longrightarrow> length (setLocation s lv i) = length s"
  by (simp add: setLocation_def setFromInt_def fits_def)

lemma getLocation_setLocation_same:
  "fits s lv \<Longrightarrow> getLocation (setLocation s lv i) lv = i mod 2 ^ bitWidth lv"
  by (simp add: getLocation_def setLocation_def fits_def getAsInt_setFromInt_same)

lemma getLocation_setLocation_other:
  assumes "fits s lv" "fits s lv'" "disjoint_fields lv lv'"
  shows "getLocation (setLocation s lv i) lv' = getLocation s lv'"
proof (cases "bitWidth lv = 0")
  case False
  have "changes_only (location_positions lv) s (setLocation s lv i)"
    using assms(1) False by (simp add: setLocation_def fits_def location_positions_def changes_only_setFromInt)
  moreover have "location_positions lv' \<inter> location_positions lv = {}"
    using assms(3) by (auto simp: disjoint_fields_def location_positions_def)
  ultimately show ?thesis using getLocation_changes_only [OF _ assms(2)] by blast
qed (simp add: setLocation_def)

section \<open>Updates leave the locations alone\<close>

lemma applyBoolAssignments_changes_only:
  "applyBoolAssignments ev bs as s = Inr (as', s') \<Longrightarrow>
   changes_only (boolBitOffset ` set bs) s s'"
proof (induction ev bs as s rule: applyBoolAssignments.induct)
  case (1 ev bs x e as s)
  show ?case
  proof (cases "dropWhile (\<lambda>b. boolVariable b \<noteq> x) bs")
    case Nil
    then show ?thesis using 1(2) by (simp add: Nil)
  next
    case (Cons b bs')
    then have sub: "set (b # bs') \<subseteq> set bs" by (metis set_dropWhileD subsetI)
    have "changes_only (boolBitOffset ` set (b # bs')) (s[boolBitOffset b := e ev]) s'"
      using 1 Cons by simp
    moreover have "{boolBitOffset b} \<union> boolBitOffset ` set (b # bs') \<subseteq> boolBitOffset ` set bs"
      using sub by auto
    ultimately show ?thesis by (rule changes_only_trans [OF changes_only_update])
  qed
qed simp_all

lemma applyIntAssignments_changes_only:
  "applyIntAssignments ev is as s = Inr (as', s') \<Longrightarrow>
   list_all (\<lambda>v. intBitOffset v + intBitWidth v \<le> length s) is \<Longrightarrow>
   changes_only (\<Union>v\<in>set is. {intBitOffset v ..< intBitOffset v + intBitWidth v}) s s'"
proof (induction ev "is" as s rule: applyIntAssignments.induct)
  case (1 ev "is" x e as s)
  show ?case
  proof (cases "dropWhile (\<lambda>v. intVariable v \<noteq> x) is")
    case Nil
    then show ?thesis using 1(2) by (simp add: Nil)
  next
    case (Cons v is')
    then have sub: "set (v # is') \<subseteq> set is" by (metis set_dropWhileD subsetI)
    let ?val = "e ev" and ?o = "intBitOffset v" and ?w = "intBitWidth v"
    define s1 where "s1 = setFromInt s ?o ?w (nat ((?val - lowerBound v) mod 2 ^ 64))"
    have fit: "?o + ?w \<le> length s" using 1(3) sub by (auto simp: list_all_iff)
    have step: "applyIntAssignments ev (v # is') as s1 = Inr (as', s')"
      using 1(2) by (simp add: Cons s1_def Let_def split: if_splits)
    have ub: "?val \<le> upperBound v" and rb: "int (getAsInt s1 ?o ?w) + lowerBound v = ?val"
      using 1(2) by (simp_all add: Cons s1_def Let_def split: if_splits)
    have len: "length s1 = length s" using fit by (simp add: s1_def setFromInt_def)
    have "list_all (\<lambda>v. intBitOffset v + intBitWidth v \<le> length s1) (v # is')"
      using 1(3) sub len by (auto simp: list_all_iff)
    then have c2: "changes_only (\<Union>w\<in>set (v # is'). {intBitOffset w ..< intBitOffset w + intBitWidth w}) s1 s'"
      using 1(1) [OF Cons refl _ s1_def _ step] ub rb by simp
    have c1: "changes_only {?o ..< ?o + ?w} s s1"
      unfolding s1_def by (rule changes_only_setFromInt [OF fit])
    have "{?o ..< ?o + ?w} \<union> (\<Union>w\<in>set (v # is'). {intBitOffset w ..< intBitOffset w + intBitWidth w})
                   \<subseteq> (\<Union>v\<in>set is. {intBitOffset v ..< intBitOffset v + intBitWidth v})"
      using sub by auto
    then show ?thesis by (rule changes_only_trans [OF c1 c2])
  qed
qed simp_all

lemma applyUpdate_changes_only:
  assumes "applyUpdate vi ev s destination = Inr s'"
    and "list_all (\<lambda>v. intBitOffset v + intBitWidth v \<le> length s) (integerVariables vi)"
  shows "changes_only (variable_positions vi) s s'"
proof -
  obtain as s1 as2 where b: "applyBoolAssignments ev (booleanVariables vi) (destAssignments destination) s = Inr (as, s1)"
    and i: "applyIntAssignments ev (integerVariables vi) as s1 = Inr (as2, s')"
    using assms(1) by (auto simp: applyUpdate_def sbind_eq_Inr split: if_splits)
  have c1: "changes_only (boolBitOffset ` set (booleanVariables vi)) s s1"
    using b by (rule applyBoolAssignments_changes_only)
  then have "length s1 = length s" by (simp add: changes_only_def)
  then show ?thesis using applyIntAssignments_changes_only [OF i] assms(2) c1
    by (auto simp: variable_positions_def elim: changes_only_trans)
qed

lemma applyUpdate_fields:
  "applyUpdate vi ev s destination = Inr s' \<Longrightarrow> layout_wf vi s \<Longrightarrow>
   lv \<in> set (locationVariables vi) \<Longrightarrow> getLocation s' lv = getLocation s lv"
  using applyUpdate_changes_only [of vi ev s destination s']
  by (intro getLocation_changes_only [of "variable_positions vi" s s'])
     (auto simp: layout_wf_def list_all_iff)

lemma wrapped_readback:
  fixes x :: int
  assumes "w \<le> 64"
  shows "int (nat (x mod 2 ^ 64) mod 2 ^ w) = x mod 2 ^ w"
proof -
  have "(2::int) ^ w dvd 2 ^ 64" using assms by (rule le_imp_power_dvd)
  then have "x mod 2 ^ 64 mod 2 ^ w = x mod 2 ^ w" by (rule mod_mod_cancel)
  then show ?thesis by (simp add: of_nat_mod)
qed

lemma mod_eq_self_iff_int: "0 < (m::int) \<Longrightarrow> x mod m = x \<longleftrightarrow> 0 \<le> x \<and> x < m"
  by (metis pos_mod_sign pos_mod_bound mod_pos_pos_trivial)

section \<open>Locations and updates\<close>

text \<open>
  C26: Writing the location of one automaton into the compressed state and
  reading all locations back gives the old locations with the written one
  replaced by the location index modulo the field size, when the location
  fields lie in the state and the written one overlaps no other.
\<close>

theorem getLocations_setLocation:
  assumes "k < length lvs" "list_all (fits s) lvs"
    and "\<forall>j<length lvs. j \<noteq> k \<longrightarrow> disjoint_fields (lvs ! k) (lvs ! j)"
  shows "getLocations lvs (setLocation s (lvs ! k) i) = (getLocations lvs s)[k := i mod 2 ^ bitWidth (lvs ! k)]"
proof (rule nth_equalityI)
  show "length (getLocations lvs (setLocation s (lvs ! k) i)) =
        length ((getLocations lvs s)[k := i mod 2 ^ bitWidth (lvs ! k)])"
    by (simp add: getLocations_def)
  fix j assume "j < length (getLocations lvs (setLocation s (lvs ! k) i))"
  then have j: "j < length lvs" by (simp add: getLocations_def)
  have f: "fits s (lvs ! j)" "fits s (lvs ! k)" using assms(1,2) j by (simp_all add: list_all_length)
  show "getLocations lvs (setLocation s (lvs ! k) i) ! j = (getLocations lvs s)[k := i mod 2 ^ bitWidth (lvs ! k)] ! j"
  proof (cases "j = k")
    case True
    then show ?thesis using f j by (simp add: getLocations_def getLocation_setLocation_same)
  next
    case False
    then show ?thesis using f j assms(3) by (simp add: getLocations_def getLocation_setLocation_other)
  qed
qed

text \<open>
  C6: Applying the update of an edge destination never changes the location
  of any automaton: \<open>applyUpdate\<close> carries out the boolean and integer
  assignments only and never writes the destination's target location, so
  the successor states computed by the generator stay in the locations of
  the expanded state.
\<close>

theorem applyUpdate_preserves_locations:
  assumes "layout_wf vi s" "applyUpdate vi ev s destination = Inr s'"
  shows "getLocations (locationVariables vi) s' = getLocations (locationVariables vi) s"
  using applyUpdate_fields [OF assms(2,1)] by (simp add: getLocations_def)

text \<open>
  C27: An integer assignment whose value exceeds the variable's upper bound
  throws \<open>WrongFormatException\<close>; a value below the lower bound is not
  checked and only caught by the assertion that reads the written bits back
  (as is a value too wide for the field); otherwise the field holds the value
  minus the lower bound.
\<close>

theorem applyUpdate_integer_assignment:
  assumes "integerVariables vi = [v]" "intBitOffset v + intBitWidth v \<le> length s" "intBitWidth v \<le> 64"
  shows "applyUpdate vi ev s \<lparr>destLocation = l, destProbability = q,
                             destAssignments = [Assignment (intVariable v) (IntExpression e)]\<rparr> =
         (if upperBound v < e ev then Inl (WrongFormatException ''The update leads to an out-of-bounds value'')
          else if e ev < lowerBound v \<or> 2 ^ intBitWidth v \<le> e ev - lowerBound v
          then Inl (AssertionFailure ''Writing to the bit vector bucket failed'')
          else Inr (setFromInt s (intBitOffset v) (intBitWidth v) (nat (e ev - lowerBound v))))"
proof -
  let ?x = "e ev - lowerBound v" and ?w = "intBitWidth v"
  have "int (nat (?x mod 2 ^ 64) mod 2 ^ ?w) = ?x mod 2 ^ ?w" by (rule wrapped_readback [OF assms(3)])
  then have rb: "int (getAsInt (setFromInt s (intBitOffset v) ?w (nat (?x mod 2 ^ 64))) (intBitOffset v) ?w)
            = ?x mod 2 ^ ?w"
    using assms(2) by (simp add: getAsInt_setFromInt_same)
  have iff: "?x mod 2 ^ ?w = ?x \<longleftrightarrow> 0 \<le> ?x \<and> ?x < 2 ^ ?w" by (simp add: mod_eq_self_iff_int)
  have small: "0 \<le> ?x \<Longrightarrow> ?x < 2 ^ ?w \<Longrightarrow> ?x mod 2 ^ 64 = ?x"
  proof -
    assume "0 \<le> ?x" "?x < 2 ^ ?w"
    moreover have "(2::int) ^ ?w \<le> 2 ^ 64" using assms(3) by (rule power_increasing) simp
    ultimately show ?thesis by simp
  qed
  show ?thesis
    using rb iff small by (auto simp: applyUpdate_def assms(1) Let_def)
qed

section \<open>Enabled edges\<close>

lemma enabledEdgesLoop_all_have_action:
  "list_all (\<lambda>A. hasEdgeLabeledWithActionIndex A a) As \<Longrightarrow> k + length As \<le> length locs \<Longrightarrow>
   enabledEdgesLoop As k locs a st = enabledEdgesSpec (zip As (drop k locs)) a st"
proof (induction As arbitrary: k)
  case (Cons A As)
  then have "drop k locs = locs ! k # drop (Suc k) locs" by (simp add: Cons_nth_drop_Suc)
  then show ?case using Cons by (simp add: Let_def)
qed simp

text \<open>
  C28: When every automaton has an edge labelled with the action, the
  enabled edges are those of every automaton at its own location.
\<close>

theorem getEnabledEdges_reads_own_location:
  assumes "list_all (\<lambda>A. hasEdgeLabeledWithActionIndex A actionIndex) As"
    and "length As \<le> length locationIndices"
  shows "getEnabledEdges As locationIndices actionIndex state =
         (case enabledEdgesSpec (zip As locationIndices) actionIndex state of None \<Rightarrow> [] | Some r \<Rightarrow> r)"
  using enabledEdgesLoop_all_have_action [OF assms(1), of 0] assms(2)
  by (simp add: getEnabledEdges_def)

text \<open>
  C7: When an automaton without the action precedes one with it, the
  counter \<open>automatonIndex\<close> has not advanced, and the edges of the second
  automaton are looked up at the location of the first one.
\<close>

theorem getEnabledEdges_skipped_automaton:
  assumes "\<not> hasEdgeLabeledWithActionIndex A0 actionIndex" "hasEdgeLabeledWithActionIndex A1 actionIndex"
  shows "getEnabledEdges [A0, A1] locationIndices actionIndex state =
         (let ptrs = filter (\<lambda>e. edgeGuard e state) (getEdgesFromLocation A1 (locationIndices ! 0) actionIndex)
          in if ptrs = [] then [] else [ptrs])"
  using assms by (simp add: getEnabledEdges_def Let_def)

section \<open>Command combinations\<close>

lemma length_advance: "advance ns its = Some its' \<Longrightarrow> length its' = length its"
  by (induction ns its arbitrary: its' rule: advance.induct) (auto split: if_splits)

lemma rank_advance_None:
  "advance ns its = None \<Longrightarrow> length its = length ns \<Longrightarrow> Suc (rank ns its) = combinations_count ns"
proof (induction ns its rule: advance.induct)
  case (1 n ns i its)
  then have IH: "combinations_count ns = Suc (rank ns its)" and ni: "\<not> Suc i < n" by (auto split: if_splits)
  obtain N where N: "max n 1 = Suc N" by (cases "max n (1::nat)") auto
  then have "min i N = N" using ni by (auto simp: max_def split: if_splits)
  then have "Suc (rank (n # ns) (i # its)) = Suc N + Suc N * rank ns its" using N by simp
  also have "\<dots> = Suc N * combinations_count ns" using IH by simp
  finally show ?case using N by (simp add: combinations_count_def)
qed (auto simp: combinations_count_def)

lemma rank_zeros: "rank ns (replicate (length ns) 0) = 0"
  by (induction ns) simp_all

lemma combinations_count_nonempty:
  "list_all (\<lambda>es. es \<noteq> []) ees \<Longrightarrow> combinations_count (map length ees) = prod_list (map length ees)"
proof (induction ees)
  case (Cons es ees)
  then have "max (length es) 1 = length es" by (cases es) simp_all
  then show ?case using Cons by (simp add: combinations_count_def)
qed (simp add: combinations_count_def)

lemma combinationLoop_length:
  "combinationLoop vi stateToId dt a st ees its acc = Inr r \<Longrightarrow> length its = length ees \<Longrightarrow>
   length r = length acc + (combinations_count (map length ees) - rank (map length ees) its)"
proof (induction vi stateToId dt a st ees its acc rule: combinationLoop.induct)
  case (1 vi stateToId dt a st ees its acc)
  obtain c where c: "combinationChoice vi stateToId dt a st (map2 (!) ees its) = Inr c"
    and rest: "(case advance (map length ees) its of None \<Rightarrow> Inr (acc @ [c])
               | Some its' \<Rightarrow> combinationLoop vi stateToId dt a st ees its' (acc @ [c])) = Inr r"
    using "1.prems"(1) by (subst (asm) combinationLoop.simps) (auto simp: sbind_eq_Inr)
  show ?case
  proof (cases "advance (map length ees) its")
    case None
    have r: "r = acc @ [c]" using rest None by simp
    have "combinations_count (map length ees) - rank (map length ees) its = 1"
      using rank_advance_None [OF None] "1.prems"(2) by simp
    then show ?thesis using r by simp
  next
    case (Some its')
    have rest': "combinationLoop vi stateToId dt a st ees its' (acc @ [c]) = Inr r" using rest Some by simp
    have "length r = length (acc @ [c]) + (combinations_count (map length ees) - rank (map length ees) its')"
      using "1.IH" [OF Some rest'] "1.prems"(2) length_advance [OF Some] by simp
    moreover have "rank (map length ees) its' = Suc (rank (map length ees) its)"
      using Some by (rule rank_advance)
    moreover have "rank (map length ees) its' < combinations_count (map length ees)" by (rule rank_less)
    ultimately show ?thesis by simp
  qed
qed

lemma iterators_valid_length: "iterators_valid ns its \<Longrightarrow> length its = length ns"
  by (simp add: iterators_valid_def list_all2_lengthD)

lemma iterators_valid_Cons [simp]:
  "iterators_valid (n # ns) (i # its) \<longleftrightarrow> i < n \<and> iterators_valid ns its"
  by (simp add: iterators_valid_def)

lemma advance_valid: "advance ns its = Some its' \<Longrightarrow> iterators_valid ns its \<Longrightarrow> iterators_valid ns its'"
  by (induction ns its arbitrary: its' rule: advance.induct) (auto split: if_splits)

lemma iterators_valid_zeros: "iterators_valid ns js \<Longrightarrow> iterators_valid ns (replicate (length ns) 0)"
  unfolding iterators_valid_def by (induction js ns rule: list_all2_induct) auto

lemma rank_valid_Cons: "i < n \<Longrightarrow> rank (n # ns) (i # its) = i + n * rank ns its"
  by (cases "n \<le> 1") (auto simp: max_def min_def)

lemma mixed_digit_unique:
  fixes i j n a b :: nat
  assumes "i < n" "j < n" "i + n * a = j + n * b"
  shows "i = j \<and> a = b"
proof -
  have "i = (i + n * a) mod n" "j = (j + n * b) mod n" using assms(1,2) by simp_all
  then have "i = j" using assms(3) by simp
  then show ?thesis using assms by simp
qed

lemma rank_inj:
  "iterators_valid ns xs \<Longrightarrow> iterators_valid ns ys \<Longrightarrow> rank ns xs = rank ns ys \<Longrightarrow> xs = ys"
proof (induction ns arbitrary: xs ys)
  case (Cons n ns)
  then obtain i its j jts where xs: "xs = i # its" and ys: "ys = j # jts"
    by (auto simp: iterators_valid_def list_all2_Cons2)
  have i: "i < n" "iterators_valid ns its" and j: "j < n" "iterators_valid ns jts"
    using Cons.prems xs ys by simp_all
  have "i + n * rank ns its = j + n * rank ns jts"
    using Cons.prems(3) i(1) j(1) by (simp add: xs ys rank_valid_Cons)
  then have "i = j \<and> rank ns its = rank ns jts"
    using mixed_digit_unique [OF i(1) j(1)] by blast
  then show ?case using Cons.IH [OF i(2) j(2)] xs ys by simp
qed (simp add: iterators_valid_def)

lemma combinationLoop_prefix:
  "combinationLoop vi stateToId dt a st ees its acc = Inr r \<Longrightarrow> \<exists>rest. r = acc @ rest"
proof (induction vi stateToId dt a st ees its acc rule: combinationLoop.induct)
  case (1 vi stateToId dt a st ees its acc)
  obtain c where c: "combinationChoice vi stateToId dt a st (map2 (!) ees its) = Inr c"
    and rest: "(case advance (map length ees) its of None \<Rightarrow> Inr (acc @ [c])
               | Some its' \<Rightarrow> combinationLoop vi stateToId dt a st ees its' (acc @ [c])) = Inr r"
    using "1.prems" by (subst (asm) combinationLoop.simps) (auto simp: sbind_eq_Inr)
  show ?case
  proof (cases "advance (map length ees) its")
    case None
    then show ?thesis using rest by (intro exI [of _ "[c]"]) simp
  next
    case (Some its')
    then show ?thesis using "1.IH" [of its' c, OF Some] rest by force
  qed
qed

lemma combinationLoop_emits_at_rank:
  assumes "combinationLoop vi stateToId dt a st ees its acc = Inr r"
    and "iterators_valid (map length ees) its" "iterators_valid (map length ees) js"
    and "rank (map length ees) its \<le> rank (map length ees) js"
  shows "\<exists>c. combinationChoice vi stateToId dt a st (map2 (!) ees js) = Inr c
           \<and> r ! (length acc + (rank (map length ees) js - rank (map length ees) its)) = c"
  using assms
proof (induction vi stateToId dt a st ees its acc rule: combinationLoop.induct)
  case (1 vi stateToId dt a st ees its acc)
  let ?ns = "map length ees"
  obtain c where c: "combinationChoice vi stateToId dt a st (map2 (!) ees its) = Inr c"
    and rest: "(case advance ?ns its of None \<Rightarrow> Inr (acc @ [c])
               | Some its' \<Rightarrow> combinationLoop vi stateToId dt a st ees its' (acc @ [c])) = Inr r"
    using "1.prems"(1) by (subst (asm) combinationLoop.simps) (auto simp: sbind_eq_Inr)
  show ?case
  proof (cases "rank ?ns js = rank ?ns its")
    case True
    then have js: "js = its" using rank_inj "1.prems"(2,3) by metis
    have "\<exists>rest'. r = (acc @ [c]) @ rest'"
    proof (cases "advance ?ns its")
      case None
      then show ?thesis using rest by simp
    next
      case (Some its')
      then show ?thesis using combinationLoop_prefix [of vi stateToId dt a st ees its' "acc @ [c]" r] rest by simp
    qed
    then show ?thesis using c js True by auto
  next
    case False
    then have less: "rank ?ns its < rank ?ns js" using "1.prems"(4) by simp
    obtain its' where adv: "advance ?ns its = Some its'"
    proof (cases "advance ?ns its")
      case None
      then have "Suc (rank ?ns its) = combinations_count ?ns"
        using rank_advance_None iterators_valid_length [OF "1.prems"(2)] by blast
      then show ?thesis using less rank_less [of ?ns js] by simp
    qed
    have run': "combinationLoop vi stateToId dt a st ees its' (acc @ [c]) = Inr r" using rest adv by simp
    have r': "rank ?ns its' = Suc (rank ?ns its)" using adv by (rule rank_advance)
    have idx: "length (acc @ [c]) + (rank ?ns js - rank ?ns its') = length acc + (rank ?ns js - rank ?ns its)"
      using r' less by simp
    show ?thesis
      using "1.IH" [OF adv run' advance_valid [OF adv "1.prems"(2)] "1.prems"(3)] r' less
      unfolding idx by simp
  qed
qed

text \<open>
  C29: The loop over the iterators of the enabled edges terminates (the
  function's termination proof) and produces one choice per combination of
  one enabled edge of every automaton: the product of the numbers of enabled
  edges.
\<close>

theorem combinationLoop_one_choice_per_combination:
  assumes "combinationLoop vi stateToId dt actionIndex state enabledEdges
             (replicate (length enabledEdges) 0) result = Inr result'"
    and "list_all (\<lambda>es. es \<noteq> []) enabledEdges"
  shows "length result' = length result + prod_list (map length enabledEdges)"
  using combinationLoop_length [OF assms(1)] rank_zeros [of "map length enabledEdges"]
    combinations_count_nonempty [OF assms(2)] by simp

text \<open>
  C39: The iterator loop of \<open>getNonsilentActionChoices\<close> reaches every
  combination of one enabled edge per automaton: started from the first
  edges, it emits the choice of each combination, at the position given by
  the combination's mixed-radix rank.
\<close>

theorem combinationLoop_reaches_every_combination:
  assumes "combinationLoop vi stateToId dt actionIndex state enabledEdges
             (replicate (length enabledEdges) 0) result = Inr result'"
    and "iterators_valid (map length enabledEdges) js"
  shows "\<exists>c. combinationChoice vi stateToId dt actionIndex state (map2 (!) enabledEdges js) = Inr c
           \<and> result' ! (length result + rank (map length enabledEdges) js) = c"
proof -
  have "iterators_valid (map length enabledEdges) (replicate (length enabledEdges) 0)"
    using iterators_valid_zeros [OF assms(2)] by simp
  then show ?thesis
    using combinationLoop_emits_at_rank [OF assms(1) _ assms(2)] rank_zeros [of "map length enabledEdges"]
    by simp
qed

section \<open>Probability mass of the choices\<close>

lemma mass_Nil [simp]: "mass [] = 0"
  by (simp add: mass_def)

lemma mass_Cons [simp]: "mass (x # d) = snd x + mass d"
  by (simp add: mass_def)

lemma mass_addProbability [simp]: "mass (choice_addProbability k v d) = mass d + v"
  by (induction d) (auto simp: algebra_simps)

lemma mass_fold_addProbability:
  "mass (fold (\<lambda>(k, p) d. choice_addProbability (g k) (f p) d) xs d) = mass d + sum_list (map (\<lambda>(k, p). f p) xs)"
  by (induction xs arbitrary: d) (auto simp: algebra_simps)

lemma sum_list_scaled_mass: "sum_list (map (\<lambda>(k, p). p * q) xs) = mass xs * q"
  by (induction xs) (auto simp: algebra_simps)

lemma sum_list_divided_mass: "sum_list (map (\<lambda>(k, p). p / q) xs) = mass xs / q"
  by (induction xs) (auto simp: add_divide_distrib)

lemma edgeTargets_mass:
  assumes "edgeTargets vi ev current e = Inr new"
  shows "mass new = mass current * sum_list (map (\<lambda>d. destProbability d ev) (edgeDestinations e))"
proof -
  have inner: "mass c' = mass c + mass current * destProbability d ev"
    if "sfold (\<lambda>(s, p) newTargetStates. sbind (applyUpdate vi ev s d)
              (\<lambda>s'. Inr (choice_addProbability s' (p * destProbability d ev) newTargetStates))) current c = Inr c'"
    for d c c'
  proof -
    have "mass c'' = mass c0 + (\<lambda>(s, p). p * destProbability d ev) x"
      if "(\<lambda>(s, p) newTargetStates. sbind (applyUpdate vi ev s d)
              (\<lambda>s'. Inr (choice_addProbability s' (p * destProbability d ev) newTargetStates))) x c0 = Inr c''"
      for x c0 c''
      using that by (auto simp: sbind_eq_Inr split: prod.splits)
    then show ?thesis
      using sfold_additive [OF that, of mass "\<lambda>(s, p). p * destProbability d ev"]
      by (simp add: sum_list_scaled_mass)
  qed
  show ?thesis
    using sfold_additive [OF assms [unfolded edgeTargets_def], of mass "\<lambda>d. mass current * destProbability d ev"]
      inner by (simp add: sum_list_const_mult)
qed

lemma sfold_edgeTargets_mass:
  "sfold (\<lambda>e current. edgeTargets vi ev current e) edges current = Inr new \<Longrightarrow>
   mass new = mass current * prod_list (map (\<lambda>e. sum_list (map (\<lambda>d. destProbability d ev) (edgeDestinations e))) edges)"
proof (induction edges arbitrary: current)
  case (Cons e edges)
  then obtain c where "edgeTargets vi ev current e = Inr c"
    "sfold (\<lambda>e current. edgeTargets vi ev current e) edges c = Inr new" by (auto simp: sbind_eq_Inr)
  then show ?case using Cons.IH edgeTargets_mass by (simp add: mult.assoc)
qed simp

lemma mass_fuseChoices:
  "mass (choiceDistribution (fuseChoices discreteTime allChoices)) =
   (if discreteTime then sum_list (map (\<lambda>c. mass (choiceDistribution c)) allChoices) / of_nat (length allChoices)
    else sum_list (map (\<lambda>c. mass (choiceDistribution c)) allChoices))"
proof -
  have fold: "mass (fold (\<lambda>c d. fold (\<lambda>(k, p) d. choice_addProbability k (f p) d) (choiceDistribution c) d) cs d)
              = mass d + sum_list (map (\<lambda>c. sum_list (map (\<lambda>(k, p). f p) (choiceDistribution c))) cs)" for f cs d
    by (induction cs arbitrary: d)
       (simp_all add: mass_fold_addProbability [where g = "\<lambda>k. k", simplified] algebra_simps)
  have div: "sum_list (map (\<lambda>c. f c / q) cs) = sum_list (map f cs) / q" for f :: "generatorChoice \<Rightarrow> rat" and q cs
    by (induction cs) (simp_all add: add_divide_distrib)
  have id: "sum_list (map (\<lambda>(k, p). p) d) = mass d" for d :: "(nat \<times> rat) list"
    by (simp add: mass_def split_def)
  show ?thesis
    by (simp add: fuseChoices_def fold sum_list_divided_mass div id)
qed

text \<open>
  The target states of a command combination carry the product of the
  sums of the destination probabilities of its edges; when every edge's
  destinations form a distribution the check of line 389 passes.
\<close>

theorem combinationTargets_mass:
  assumes "combinationTargets vi ev edges = Inr newTargetStates"
  shows "mass newTargetStates =
         prod_list (map (\<lambda>e. sum_list (map (\<lambda>d. destProbability d ev) (edgeDestinations e))) edges)"
  using sfold_edgeTargets_mass [OF assms [unfolded combinationTargets_def]] by simp

abbreviation distributions :: "generatorChoice list \<Rightarrow> bool" where
  "distributions cs \<equiv> list_all (\<lambda>c. mass (choiceDistribution c) = 1) cs"

lemma silentEdgeChoice_mass:
  assumes "silentEdgeChoice vi stateToId True state e = Inr c"
  shows "mass (choiceDistribution c) = 1"
proof -
  obtain d ps where run: "sfold (destinationStep vi stateToId state) (edgeDestinations e) ([], 0) = Inr (d, ps)"
    and c: "c = \<lparr>choiceAction = edgeAction e, choiceDistribution = d\<rparr>" and ps: "ps = 1"
    using assms by (auto simp: silentEdgeChoice_def sbind_eq_Inr split: if_splits)
  have "(\<lambda>(d, ps). mass d = ps) (d, ps)"
    by (rule sfold_invariant [OF run])
       (auto simp: destinationStep_def sbind_eq_Inr Let_def split: prod.splits)
  then show ?thesis using c ps by simp
qed

lemma getSilentActionChoicesLoop_mass:
  "getSilentActionChoicesLoop vi stateToId True silent As k locations state result = Inr r \<Longrightarrow>
   distributions result \<Longrightarrow> distributions r"
proof (induction As arbitrary: k result)
  case (Cons A As)
  then obtain result' where run: "sfold (\<lambda>e result.
                if edgeAction e \<noteq> silent then Inr result
                else if \<not> edgeGuard e state then Inr result
                else sbind (silentEdgeChoice vi stateToId True state e) (\<lambda>c. Inr (result @ [c])))
              (edgesFromLocation A (locations ! k)) result = Inr result'"
    and rest: "getSilentActionChoicesLoop vi stateToId True silent As (Suc k) locations state result' = Inr r"
    by (auto simp: sbind_eq_Inr)
  have "distributions result'"
    by (rule sfold_invariant [where P = distributions, OF run Cons.prems(2)])
       (auto simp: sbind_eq_Inr silentEdgeChoice_mass split: if_splits)
  then show ?case using Cons.IH [OF rest] by simp
qed simp

lemma combinationChoice_mass:
  "combinationChoice vi stateToId True actionIndex state edges = Inr c \<Longrightarrow> mass (choiceDistribution c) = 1"
  using mass_fold_addProbability [where f = "\<lambda>p. p" and g = stateToId and d = "[]"]
  by (auto simp: combinationChoice_def sbind_eq_Inr mass_def split_def split: if_splits)

lemma combinationLoop_mass:
  "combinationLoop vi stateToId dt a st ees its result = Inr r \<Longrightarrow> dt \<Longrightarrow> distributions result \<Longrightarrow>
   distributions r"
proof (induction vi stateToId dt a st ees its result rule: combinationLoop.induct)
  case (1 vi stateToId dt a st ees its result)
  obtain c where c: "combinationChoice vi stateToId dt a st (map2 (!) ees its) = Inr c"
    and rest: "(case advance (map length ees) its of None \<Rightarrow> Inr (result @ [c])
               | Some its' \<Rightarrow> combinationLoop vi stateToId dt a st ees its' (result @ [c])) = Inr r"
    using "1.prems"(1) by (subst (asm) combinationLoop.simps) (auto simp: sbind_eq_Inr)
  have d: "distributions (result @ [c])"
    using "1.prems"(2,3) combinationChoice_mass [of vi stateToId a st _ c] c by simp
  show ?case
  proof (cases "advance (map length ees) its")
    case None
    then show ?thesis using rest d by simp
  next
    case (Some its')
    then show ?thesis using "1.IH" [OF Some] rest d "1.prems"(2) by simp
  qed
qed

lemma getNonsilentActionChoices_mass:
  "getNonsilentActionChoices vi stateToId True As actions locations state = Inr r \<Longrightarrow> distributions r"
  unfolding getNonsilentActionChoices_def
  by (erule sfold_invariant) (auto simp: Let_def combinationLoop_mass split: if_splits)

lemma sum_list_masses: "distributions cs \<Longrightarrow> sum_list (map (\<lambda>c. mass (choiceDistribution c)) cs) = of_nat (length cs)"
  by (induction cs) simp_all

text \<open>
  C5: In a discrete-time model every choice of an expanded state is a
  probability distribution, also the fused choice of a deterministic model
  with several enabled edges: the checks of lines 312 and 389 reject
  destinations whose probabilities do not sum to one, and the fusion
  divides by the number of choices.
\<close>

theorem expand_choices_are_distributions:
  assumes "isDiscreteTimeModel (jModelType (generatorModel generator))"
    and "expand generator stateToId state = Inr behavior"
  shows "list_all (\<lambda>c. mass (choiceDistribution c) = 1) (behaviorChoices behavior)"
proof (cases "list_ex (\<lambda>(expression, b). expression state = b) (terminalStates generator)")
  case True
  then show ?thesis using assms(2) by (auto simp: expand_def)
next
  case False
  let ?locs = "getLocations (locationVariables (variableInformation generator)) state"
  obtain cs ls where cs: "getSilentActionChoicesLoop (variableInformation generator) stateToId True (silentActionIndex (generatorModel generator))
                             (automata (generatorModel generator)) 0 ?locs state [] = Inr cs"
    and ls: "getNonsilentActionChoices (variableInformation generator) stateToId True (automata (generatorModel generator)) (nonsilentActionIndices (generatorModel generator)) ?locs state = Inr ls"
    and b: "behavior = (if cs @ ls = [] then \<lparr>behaviorChoices = [], behaviorExpanded = False\<rparr>
                        else \<lparr>behaviorChoices = (if isDeterministicModel (jModelType (generatorModel generator)) \<and> 1 < length (cs @ ls)
                                               then [fuseChoices True (cs @ ls)] else cs @ ls),
                              behaviorExpanded = True\<rparr>)"
    using assms False by (auto simp: expand_def Let_def sbind_eq_Inr split: if_splits)
  have all: "distributions (cs @ ls)"
    using getSilentActionChoicesLoop_mass [OF cs] getNonsilentActionChoices_mass [OF ls] by simp
  then have "mass (choiceDistribution (fuseChoices True (cs @ ls))) = 1" if "1 < length (cs @ ls)"
    using that by (simp only: mass_fuseChoices sum_list_masses [OF all]) simp
  then show ?thesis using b all by auto
qed

section \<open>Examples\<close>

theorem getLocations_setLocation_witness:
  "getLocations ex_locations (setLocation [False, False, True] (ex_locations ! 0) 3) = [3, 1]"
  using getLocations_setLocation [of 0 ex_locations "[False, False, True]" 3]
  by (simp add: ex_locations_def fits_def disjoint_fields_def less_Suc_eq numeral_2_eq_2 getLocations_def
      getLocation_def getAsInt_def segment_def)

theorem applyUpdate_preserves_locations_witness:
  "applyUpdate ex_flag_layout [True, False, False] [True, False, False] ex_flag_destination = Inr [True, False, True]
   \<and> getLocations (locationVariables ex_flag_layout) [True, False, True] = [2]"
proof -
  have u: "applyUpdate ex_flag_layout [True, False, False] [True, False, False] ex_flag_destination
           = Inr [True, False, True]"
    by (simp add: applyUpdate_def ex_flag_layout_def ex_flag_destination_def)
  have wf: "layout_wf ex_flag_layout [True, False, False]"
    by (simp add: ex_flag_layout_def layout_wf_def fits_def location_positions_def variable_positions_def)
  show ?thesis
    using applyUpdate_preserves_locations [OF wf u] u
    by (simp add: ex_flag_layout_def getLocations_def getLocation_def getAsInt_def segment_def)
qed

theorem applyUpdate_integer_assignment_witness:
  "applyUpdate ex_counter_layout [False, False] [False, False]
     \<lparr>destLocation = 0, destProbability = \<lambda>_. 1, destAssignments = [Assignment 0 (IntExpression (\<lambda>_. 0))]\<rparr>
   = Inl (AssertionFailure ''Writing to the bit vector bucket failed'')"
  using applyUpdate_integer_assignment [where vi = ex_counter_layout and v = ex_counter and s = "[False, False]"
      and ev = "[False, False]" and l = 0 and q = "\<lambda>_. 1" and e = "\<lambda>_. 0"]
  by (simp add: ex_counter_layout_def ex_counter_def)

theorem getEnabledEdges_reads_own_location_witness:
  "getEnabledEdges [[ex_edge 0 0], [ex_edge 1 0]] [0, 1] 0 [] = [[ex_edge 0 0], [ex_edge 1 0]]"
  using getEnabledEdges_reads_own_location [of 0 "[[ex_edge 0 0], [ex_edge 1 0]]" "[0, 1]" "[]"]
  by (simp add: ex_edge_def hasEdgeLabeledWithActionIndex_def getEdgesFromLocation_def)

theorem getEnabledEdges_skipped_automaton_witness:
  "getEnabledEdges [[ex_edge 0 1], [ex_edge 1 0]] [0, 1] 0 [] = []
   \<and> enabledEdgesSpec (zip [[ex_edge 0 1], [ex_edge 1 0]] [0, 1]) 0 [] = Some [[ex_edge 1 0]]"
  using getEnabledEdges_skipped_automaton [of "[ex_edge 0 1]" 0 "[ex_edge 1 0]" "[0, 1]" "[]"]
  by (simp add: ex_edge_def hasEdgeLabeledWithActionIndex_def getEdgesFromLocation_def)

theorem combinationLoop_one_choice_per_combination_witness:
  "combinationLoop ex_no_variables (\<lambda>_. 0) False 0 [] [[ex_edge 0 0, ex_edge 0 0], [ex_edge 0 0]] [0, 0] [] =
     Inr [\<lparr>choiceAction = 0, choiceDistribution = []\<rparr>, \<lparr>choiceAction = 0, choiceDistribution = []\<rparr>]
   \<and> length [\<lparr>choiceAction = 0, choiceDistribution = []\<rparr>, \<lparr>choiceAction = 0, choiceDistribution = []\<rparr>]
     = length ([] :: generatorChoice list) + prod_list (map length [[ex_edge 0 0, ex_edge 0 0], [ex_edge 0 0]])"
proof -
  have run: "combinationLoop ex_no_variables (\<lambda>_. 0) False 0 [] [[ex_edge 0 0, ex_edge 0 0], [ex_edge 0 0]]
               (replicate (length [[ex_edge 0 0, ex_edge 0 0], [ex_edge 0 0]]) 0) [] =
             Inr [\<lparr>choiceAction = 0, choiceDistribution = []\<rparr>, \<lparr>choiceAction = 0, choiceDistribution = []\<rparr>]"
    by code_simp
  show ?thesis
    using combinationLoop_one_choice_per_combination [OF run] run by simp
qed

theorem combinationLoop_reaches_every_combination_witness:
  "combinationLoop ex_no_variables (\<lambda>_. 0) False 0 [] [[ex_edge 0 0, ex_edge 0 0], [ex_edge 0 0]] [0, 0] [] =
     Inr [\<lparr>choiceAction = 0, choiceDistribution = []\<rparr>, \<lparr>choiceAction = 0, choiceDistribution = []\<rparr>]
   \<and> iterators_valid (map length [[ex_edge 0 0, ex_edge 0 0], [ex_edge 0 0]]) [1, 0]
   \<and> combinationChoice ex_no_variables (\<lambda>_. 0) False 0 [] (map2 (!) [[ex_edge 0 0, ex_edge 0 0], [ex_edge 0 0]] [1, 0])
       = Inr \<lparr>choiceAction = 0, choiceDistribution = []\<rparr>"
proof -
  have run: "combinationLoop ex_no_variables (\<lambda>_. 0) False 0 [] [[ex_edge 0 0, ex_edge 0 0], [ex_edge 0 0]]
               (replicate (length [[ex_edge 0 0, ex_edge 0 0], [ex_edge 0 0]]) 0) [] =
             Inr [\<lparr>choiceAction = 0, choiceDistribution = []\<rparr>, \<lparr>choiceAction = 0, choiceDistribution = []\<rparr>]"
    by code_simp
  have valid: "iterators_valid (map length [[ex_edge 0 0, ex_edge 0 0], [ex_edge 0 0]]) [1, 0]"
    by (simp add: iterators_valid_def)
  show ?thesis
    using combinationLoop_reaches_every_combination [OF run valid] run valid by (simp add: max_def)
qed

theorem combinationTargets_mass_witness:
  "combinationTargets ex_no_variables [] [(ex_edge 0 0)\<lparr>edgeDestinations := [ex_half, ex_half]\<rparr>] = Inr [([], 1)]
   \<and> mass [([] :: compressed_state, 1)] = 1 / 2 + 1 / 2"
proof -
  have run: "combinationTargets ex_no_variables [] [(ex_edge 0 0)\<lparr>edgeDestinations := [ex_half, ex_half]\<rparr>]
             = Inr [([], 1)]"
    by (simp add: combinationTargets_def edgeTargets_def applyUpdate_def ex_no_variables_def ex_edge_def ex_half_def)
  show ?thesis using combinationTargets_mass [OF run] run by (simp add: ex_half_def)
qed

theorem expand_choices_are_distributions_witness:
  "expand ex_coin_generator bits_to_nat [False] =
     Inr \<lparr>behaviorChoices = [\<lparr>choiceAction = 0, choiceDistribution = [(0, 1 / 2), (1, 1 / 2)]\<rparr>],
          behaviorExpanded = True\<rparr>
   \<and> list_all (\<lambda>c. mass (choiceDistribution c) = 1)
       [\<lparr>choiceAction = 0, choiceDistribution = [(0 :: nat, 1 / 2), (1, 1 / 2)]\<rparr>]"
proof -
  have run: "expand ex_coin_generator bits_to_nat [False] =
     Inr \<lparr>behaviorChoices = [\<lparr>choiceAction = 0, choiceDistribution = [(0, 1 / 2), (1, 1 / 2)]\<rparr>],
          behaviorExpanded = True\<rparr>"
    by (simp add: expand_def ex_coin_generator_def ex_edge_def ex_coin_side_def getLocations_def getLocation_def
        silentEdgeChoice_def destinationStep_def applyUpdate_def edgesFromLocation_def
        getNonsilentActionChoices_def isDiscreteTimeModel_def isDeterministicModel_def Let_def)
  have dt: "isDiscreteTimeModel (jModelType (generatorModel ex_coin_generator))"
    by (simp add: ex_coin_generator_def isDiscreteTimeModel_def)
  show ?thesis using expand_choices_are_distributions [OF dt run] run by simp
qed

end
