(* ===== verification/DetScheds.thy ===== *)
theory DetScheds
  imports Model
begin

text \<open>
  The weight-vector checker for deterministic schedulers of multi-objective
  model checking
  (\<open>src/src/storm/modelchecker/multiobjective/deterministicScheds/DetSchedsWeightVectorChecker.cpp\<close>):
  policy iteration on the weighted sum of the objectives. The scheduler
  evaluator it drives (\<open>MultiObjectiveSchedulerEvaluator\<close>, outside \<open>src/\<close>)
  is a record of the current scheduler (one choice offset per state), the
  flag \<open>currSchedHasBeenChecked\<close> and the results of the last check; what a
  check computes for a scheduler (the objective values of every state and
  of the initial state) and the states whose value does not depend on the
  scheduler are parameters of the model.
\<close>

section \<open>The scheduler evaluator\<close>

record evaluatorModel =
  evalModel :: mdp
  evalResults :: "nat list \<Rightarrow> rat list list"
  evalInitialStateResults :: "nat list \<Rightarrow> rat list"
  schedulerIndependentStates :: "nat \<Rightarrow> state \<Rightarrow> bool"

record schedulerEvaluator =
  currScheduler :: "nat list"
  currSchedHasBeenChecked :: bool
  results :: "rat list list"
  initialStateResults :: "rat list"

text \<open>\<open>check(env)\<close>, \<open>setChoiceAtState\<close> and the getters of the evaluator (outside \<open>src/\<close>).\<close>

definition evaluator_check :: "evaluatorModel \<Rightarrow> schedulerEvaluator \<Rightarrow> schedulerEvaluator" where
  "evaluator_check M e =
     e\<lparr>results := evalResults M (currScheduler e),
       initialStateResults := evalInitialStateResults M (currScheduler e),
       currSchedHasBeenChecked := True\<rparr>"

definition setChoiceAtState :: "state \<Rightarrow> nat \<Rightarrow> schedulerEvaluator \<Rightarrow> schedulerEvaluator" where
  "setChoiceAtState state choice e =
     (if currScheduler e ! state \<noteq> choice
      then e\<lparr>currScheduler := (currScheduler e)[state := choice], currSchedHasBeenChecked := False\<rparr>
      else e)"

text \<open>\<open>getResultForAllStates\<close> and \<open>getScheduler\<close> (lines 67--75).\<close>

definition getResultForAllStates :: "schedulerEvaluator \<Rightarrow> nat \<Rightarrow> rat list" where
  "getResultForAllStates e objIndex = results e ! objIndex"

definition getScheduler :: "schedulerEvaluator \<Rightarrow> nat list" where
  "getScheduler e = currScheduler e"

section \<open>One pass of policy improvement\<close>

text \<open>
  The weighted value of a state under the current scheduler (lines 34--37)
  and of one of its choices (lines 45--56): for a scheduler-independent
  state the objective's value of the state, otherwise the expected value of
  the successors under the choice's row.
\<close>

definition currChoiceValue :: "rat list \<Rightarrow> rat list list \<Rightarrow> state \<Rightarrow> rat" where
  "currChoiceValue weightVector stateResults state =
     sum_list (map (\<lambda>objIndex. weightVector ! objIndex * stateResults ! objIndex ! state)
                   [0..<length weightVector])"

definition choiceValue :: "evaluatorModel \<Rightarrow> rat list \<Rightarrow> rat list list \<Rightarrow> state \<Rightarrow> nat \<Rightarrow> rat" where
  "choiceValue M weightVector stateResults state row =
     sum_list (map (\<lambda>objIndex.
        if schedulerIndependentStates M objIndex state
        then weightVector ! objIndex * stateResults ! objIndex ! state
        else weightVector ! objIndex *
               sum_list (map (\<lambda>(column, value). value * stateResults ! objIndex ! column) (rows (evalModel M) ! row)))
       [0..<length weightVector])"

text \<open>The improvement of one state (lines 30--61).\<close>

definition improveState ::
    "evaluatorModel \<Rightarrow> rat list \<Rightarrow> rat list list \<Rightarrow> state \<Rightarrow> schedulerEvaluator \<Rightarrow> schedulerEvaluator" where
  "improveState M weightVector stateResults state e =
     (let choiceIndices = rowGroupIndices (evalModel M);
          choiceOffset = choiceIndices ! state;
          numChoices = choiceIndices ! (state + 1) - choiceOffset;
          currChoice = currScheduler e ! state;
          currValue = currChoiceValue weightVector stateResults state
      in fold (\<lambda>choice e.
                 if choice = currChoice then e
                 else if currValue < choiceValue M weightVector stateResults state (choiceOffset + choice)
                 then setChoiceAtState state choice e
                 else e)
              [0..<numChoices] e)"

text \<open>The loop over the states (lines 28--62), on the results of the last check.\<close>

definition improvementPass :: "evaluatorModel \<Rightarrow> rat list \<Rightarrow> schedulerEvaluator \<Rightarrow> schedulerEvaluator" where
  "improvementPass M weightVector e =
     fold (improveState M weightVector (results e)) [0..<length (currScheduler e)] e"

text \<open>
  \<open>check\<close> (lines 12--65): check the current scheduler, push its initial
  state results, improve, until a pass leaves the scheduler unchanged. The
  loop ends only if the improvements do, so it is a partial function;
  \<open>None\<close> is a run that does not end. The C++ function has no \<open>return\<close>
  statement; the model returns the evaluator and the stack of results the
  loop builds.
\<close>

partial_function (option) checkLoop ::
    "evaluatorModel \<Rightarrow> rat list \<Rightarrow> schedulerEvaluator \<Rightarrow> rat list list
     \<Rightarrow> (schedulerEvaluator \<times> rat list list) option" where
  "checkLoop M weightVector e resultStack =
     (let e1 = evaluator_check M e;
          resultStack' = resultStack @ [initialStateResults e1];
          e2 = improvementPass M weightVector e1
      in if currSchedHasBeenChecked e2 then Some (e2, resultStack')
         else checkLoop M weightVector e2 resultStack')"

definition check :: "evaluatorModel \<Rightarrow> rat list \<Rightarrow> schedulerEvaluator \<Rightarrow> (schedulerEvaluator \<times> rat list list) option" where
  "check M weightVector e = checkLoop M weightVector e []"

text \<open>The choices of a state that improve on its current value, in the order the loop visits them.\<close>

definition improvingChoices :: "evaluatorModel \<Rightarrow> rat list \<Rightarrow> rat list list \<Rightarrow> nat list \<Rightarrow> state \<Rightarrow> nat list" where
  "improvingChoices M weightVector stateResults scheduler state =
     filter (\<lambda>choice. choice \<noteq> scheduler ! state \<and>
               currChoiceValue weightVector stateResults state
                 < choiceValue M weightVector stateResults state (rowGroupIndices (evalModel M) ! state + choice))
            [0..<rowGroupIndices (evalModel M) ! (state + 1) - rowGroupIndices (evalModel M) ! state]"

section \<open>Example\<close>

text \<open>
  A state with three choices, to states valued 1, 3 and 2; the current
  choice leads to the state valued 1.
\<close>

definition ex_evaluatorModel :: evaluatorModel where
  "ex_evaluatorModel =
     \<lparr>evalModel = \<lparr>rowGroupIndices = [0, 3, 4, 5, 6],
                   rows = [[(1, 1)], [(2, 1)], [(3, 1)], [(1, 1)], [(2, 1)], [(3, 1)]]\<rparr>,
      evalResults = \<lambda>sched. [[if sched ! 0 = 1 then 3 else if sched ! 0 = 2 then 2 else 1, 1, 3, 2]],
      evalInitialStateResults = \<lambda>sched. [if sched ! 0 = 1 then 3 else if sched ! 0 = 2 then 2 else 1],
      schedulerIndependentStates = \<lambda>objIndex state. state \<noteq> 0\<rparr>"

definition ex_evaluator :: schedulerEvaluator where
  "ex_evaluator = \<lparr>currScheduler = [0, 0, 0, 0], currSchedHasBeenChecked = True,
                   results = [[1, 1, 3, 2]], initialStateResults = [1]\<rparr>"

section \<open>The evaluator's operations\<close>

lemma setChoiceAtState_fields [simp]:
  "currScheduler (setChoiceAtState state choice e) = (currScheduler e)[state := choice]"
  "results (setChoiceAtState state choice e) = results e"
  "initialStateResults (setChoiceAtState state choice e) = initialStateResults e"
  "currSchedHasBeenChecked (setChoiceAtState state choice e) \<longleftrightarrow>
     currSchedHasBeenChecked e \<and> currScheduler e ! state = choice"
  by (auto simp: setChoiceAtState_def list_update_beyond not_less)

lemma evaluator_check_fields [simp]:
  "currScheduler (evaluator_check M e) = currScheduler e"
  "results (evaluator_check M e) = evalResults M (currScheduler e)"
  "initialStateResults (evaluator_check M e) = evalInitialStateResults M (currScheduler e)"
  "currSchedHasBeenChecked (evaluator_check M e)"
  by (simp_all add: evaluator_check_def)

section \<open>The choice loop of one state\<close>

lemma fold_choices_scheduler:
  "state < length (currScheduler e) \<Longrightarrow>
   currScheduler (fold (\<lambda>choice e. if choice = cur then e else if P choice then setChoiceAtState state choice e else e) xs e)
   = (let cs = filter (\<lambda>c. c \<noteq> cur \<and> P c) xs
      in if cs = [] then currScheduler e else (currScheduler e)[state := last cs])"
  by (induction xs arbitrary: e) (auto simp: Let_def)

lemma fold_choices_results [simp]:
  "results (fold (\<lambda>choice e. if choice = cur then e else if P choice then setChoiceAtState state choice e else e) xs e)
   = results e"
  by (induction xs arbitrary: e) auto

lemma fold_choices_unchanged:
  "filter (\<lambda>c. c \<noteq> cur \<and> P c) xs = [] \<Longrightarrow>
   fold (\<lambda>choice e. if choice = cur then e else if P choice then setChoiceAtState state choice e else e) xs e = e"
  by (induction xs) (auto split: if_splits)

lemma fold_choices_keeps_unchecked:
  "\<not> currSchedHasBeenChecked e \<Longrightarrow>
   \<not> currSchedHasBeenChecked
       (fold (\<lambda>choice e. if choice = cur then e else if P choice then setChoiceAtState state choice e else e) xs e)"
  by (induction xs arbitrary: e) auto

lemma fold_choices_unchecked:
  "currScheduler e ! state = cur \<Longrightarrow> filter (\<lambda>c. c \<noteq> cur \<and> P c) xs \<noteq> [] \<Longrightarrow>
   \<not> currSchedHasBeenChecked
       (fold (\<lambda>choice e. if choice = cur then e else if P choice then setChoiceAtState state choice e else e) xs e)"
proof (induction xs arbitrary: e)
  case (Cons c xs)
  show ?case
  proof (cases "c \<noteq> cur \<and> P c")
    case True
    then show ?thesis using Cons.prems(1) by (simp add: fold_choices_keeps_unchecked)
  next
    case False
    then show ?thesis using Cons by auto
  qed
qed simp

lemmas improveState_unfold = improveState_def improvingChoices_def Let_def

lemma improveState_results [simp]: "results (improveState M w sr state e) = results e"
  by (simp add: improveState_def Let_def)

lemma improveState_unchanged:
  "improvingChoices M w sr (currScheduler e) state = [] \<Longrightarrow> improveState M w sr state e = e"
  unfolding improveState_unfold by (rule fold_choices_unchanged)

lemma improveState_unchecked:
  "improvingChoices M w sr (currScheduler e) state \<noteq> [] \<Longrightarrow>
   \<not> currSchedHasBeenChecked (improveState M w sr state e)"
  unfolding improveState_unfold by (rule fold_choices_unchecked) simp_all

lemma improveState_keeps_unchecked:
  "\<not> currSchedHasBeenChecked e \<Longrightarrow> \<not> currSchedHasBeenChecked (improveState M w sr state e)"
  unfolding improveState_unfold by (rule fold_choices_keeps_unchecked)

lemma fold_improveState_keeps_unchecked:
  "\<not> currSchedHasBeenChecked e \<Longrightarrow> \<not> currSchedHasBeenChecked (fold (improveState M w sr) ss e)"
  by (induction ss arbitrary: e) (simp_all add: improveState_keeps_unchecked)

lemma fold_improveState_stable:
  "currSchedHasBeenChecked (fold (improveState M w sr) ss e) \<Longrightarrow>
   fold (improveState M w sr) ss e = e \<and> list_all (\<lambda>s. improvingChoices M w sr (currScheduler e) s = []) ss"
proof (induction ss arbitrary: e)
  case (Cons s ss)
  show ?case
  proof (cases "improvingChoices M w sr (currScheduler e) s = []")
    case True
    then show ?thesis using Cons by (simp add: improveState_unchanged)
  next
    case False
    then show ?thesis
      using Cons.prems fold_improveState_keeps_unchecked [OF improveState_unchecked [OF False]] by simp
  qed
qed simp

lemma fold_improveState_no_improvement:
  "list_all (\<lambda>s. improvingChoices M w sr (currScheduler e) s = []) ss \<Longrightarrow> fold (improveState M w sr) ss e = e"
  by (induction ss) (simp_all add: improveState_unchanged)

lemma improvementPass_stable:
  "currSchedHasBeenChecked (improvementPass M w e) \<Longrightarrow>
   improvementPass M w e = e \<and>
   list_all (\<lambda>s. improvingChoices M w (results e) (currScheduler e) s = []) [0..<length (currScheduler e)]"
  unfolding improvementPass_def by (rule fold_improveState_stable)

section \<open>Policy improvement\<close>

text \<open>
  C32: The improvement of a state sets it to the last of the choices whose
  weighted value exceeds the value of the current choice (not the best of
  them: the current value is not raised when a better choice is found), and
  leaves it unchanged when there is none.
\<close>

theorem improveState_last_improving_choice:
  assumes "state < length (currScheduler e)"
  shows "currScheduler (improveState M weightVector stateResults state e) =
         (let cs = improvingChoices M weightVector stateResults (currScheduler e) state
          in if cs = [] then currScheduler e else (currScheduler e)[state := last cs])"
  using fold_choices_scheduler [OF assms] by (simp add: improveState_unfold)

definition stable_result :: "evaluatorModel \<Rightarrow> rat list \<Rightarrow> schedulerEvaluator \<times> rat list list \<Rightarrow> bool" where
  "stable_result M w y =
     (case y of (e', resultStack) \<Rightarrow>
        results e' = evalResults M (currScheduler e') \<and>
        list_all (\<lambda>s. improvingChoices M w (results e') (currScheduler e') s = []) [0..<length (currScheduler e')] \<and>
        last resultStack = evalInitialStateResults M (currScheduler e'))"

lemma checkLoop_stable:
  assumes "checkLoop M w e stack = Some y"
  shows "stable_result M w y"
proof (rule checkLoop.raw_induct [where P = "\<lambda>M w e stack y. stable_result M w y", OF _ assms])
  fix loop M w e stack y
  assume IH: "\<And>M w e stack y. loop M w e stack = Some y \<Longrightarrow> stable_result M w y"
    and run: "(let e1 = evaluator_check M e;
                   resultStack' = stack @ [initialStateResults e1];
                   e2 = improvementPass M w e1
               in if currSchedHasBeenChecked e2 then Some (e2, resultStack')
                  else loop M w e2 resultStack') = Some y"
  let ?e1 = "evaluator_check M e"
  show "stable_result M w y"
  proof (cases "currSchedHasBeenChecked (improvementPass M w ?e1)")
    case True
    then show ?thesis using run improvementPass_stable [OF True] by (auto simp: Let_def stable_result_def)
  next
    case False
    then show ?thesis using run IH by (simp add: Let_def)
  qed
qed

text \<open>
  C31: When \<open>check\<close> returns, the evaluator holds the results of the final
  scheduler, no choice of any state improves on it, and the top of the
  result stack is the final scheduler's initial-state result.
\<close>

theorem check_returns_stable_scheduler:
  assumes "check M weightVector e = Some (e', resultStack)"
  shows "results e' = evalResults M (currScheduler e') \<and>
         list_all (\<lambda>s. improvingChoices M weightVector (results e') (currScheduler e') s = [])
                  [0..<length (currScheduler e')] \<and>
         last resultStack = evalInitialStateResults M (currScheduler e')"
proof -
  have "stable_result M weightVector (e', resultStack)"
    using assms by (intro checkLoop_stable) (simp add: check_def)
  from this [unfolded stable_result_def prod.case] show ?thesis .
qed

text \<open>
  When no state of the checked scheduler has an improving choice, the
  loop ends after one check, with the checked evaluator and one entry on the
  result stack.
\<close>

theorem check_stops_without_improvement:
  assumes "list_all (\<lambda>s. improvingChoices M weightVector (evalResults M (currScheduler e)) (currScheduler e) s = [])
                    [0..<length (currScheduler e)]"
  shows "check M weightVector e = Some (evaluator_check M e, [evalInitialStateResults M (currScheduler e)])"
proof -
  have "improvementPass M weightVector (evaluator_check M e) = evaluator_check M e"
    using assms unfolding improvementPass_def by (simp add: fold_improveState_no_improvement)
  then show ?thesis unfolding check_def by (subst checkLoop.simps) (simp add: Let_def)
qed

section \<open>Examples\<close>

lemmas ex_defs = ex_evaluator_def ex_evaluatorModel_def improvementPass_def improveState_def
  currChoiceValue_def choiceValue_def Let_def upt_conv_Cons

theorem improveState_last_improving_choice_witness:
  "currScheduler (improveState ex_evaluatorModel [1] [[1, 1, 3, 2]] 0 ex_evaluator) = [2, 0, 0, 0]
   \<and> choiceValue ex_evaluatorModel [1] [[1, 1, 3, 2]] 0 1 = 3
   \<and> choiceValue ex_evaluatorModel [1] [[1, 1, 3, 2]] 0 2 = 2"
  using improveState_last_improving_choice [of 0 ex_evaluator ex_evaluatorModel "[1]" "[[1, 1, 3, 2]]"]
  by (simp add: ex_evaluator_def ex_evaluatorModel_def improvingChoices_def currChoiceValue_def
      choiceValue_def upt_rec)

theorem check_returns_stable_scheduler_witness:
  "check ex_evaluatorModel [1] ex_evaluator =
     Some (\<lparr>currScheduler = [1, 0, 0, 0], currSchedHasBeenChecked = True,
            results = [[3, 1, 3, 2]], initialStateResults = [3]\<rparr>, [[1], [2], [3]])
   \<and> last [[1], [2], [3 :: rat]] = evalInitialStateResults ex_evaluatorModel [1, 0, 0, 0]"
proof -
  have run: "check ex_evaluatorModel [1] ex_evaluator =
     Some (\<lparr>currScheduler = [1, 0, 0, 0], currSchedHasBeenChecked = True,
            results = [[3, 1, 3, 2]], initialStateResults = [3]\<rparr>, [[1], [2], [3]])"
    unfolding check_def
    by (subst checkLoop.simps, simp add: ex_defs,
        subst checkLoop.simps, simp add: ex_defs,
        subst checkLoop.simps, simp add: ex_defs)
  show ?thesis using check_returns_stable_scheduler [OF run] run by simp
qed

theorem check_stops_without_improvement_witness:
  "check ex_evaluatorModel [1] (ex_evaluator\<lparr>currScheduler := [1, 0, 0, 0]\<rparr>) =
     Some (\<lparr>currScheduler = [1, 0, 0, 0], currSchedHasBeenChecked = True,
            results = [[3, 1, 3, 2]], initialStateResults = [3]\<rparr>, [[3]])"
  using check_stops_without_improvement [of ex_evaluatorModel "[1]" "ex_evaluator\<lparr>currScheduler := [1, 0, 0, 0]\<rparr>"]
  by (simp add: ex_evaluator_def ex_evaluatorModel_def improvingChoices_def currChoiceValue_def
      choiceValue_def evaluator_check_def upt_conv_Cons)

end
