(* ===== verification/AssumptionMaker.thy ===== *)
theory AssumptionMaker
  imports Prelude
begin

text \<open>
  The assumption maker of the parametric monotonicity analysis
  (\<open>src/src/storm-pars/analysis/AssumptionMaker.cpp\<close>): when the lattice
  extender stops at a pair of states it cannot order, the maker forks, once
  assuming the first state's value greater, once the second's, and extends
  a copy of the lattice under each assumption, recursively. The lattice and
  its extender (\<open>LatticeExtender::extendLattice\<close>, outside \<open>src/\<close>) are
  parameters: the extender takes a lattice and the assumptions and returns
  the extended lattice (it extends the lattice in place) with a critical
  pair, whose first state is \<open>numberOfStates\<close> (the field \<open>makerNumberOfStates\<close>) when the lattice is done. An
  assumption \<open>Greater i j\<close> is the expression \<open>var_i > var_j\<close> over the
  integer variables named after the states; each one is a fresh object, so
  a set of assumptions is the list of them in insertion order. The result
  map, keyed by freshly allocated lattices, is the list of its entries.
  \<open>getVariable\<close> throws for a name that was never declared; the
  constructor declares the names of the states \<open>0\<close> to
  \<open>numberOfStates - 1\<close>, and the critical states come from the extender,
  which returns states of the model or \<open>numberOfStates\<close>, tested first, so
  the throw is not modelled.
\<close>

datatype assumption = Greater nat nat

type_synonym 'l extender = "'l \<Rightarrow> assumption list \<Rightarrow> 'l \<times> nat \<times> nat"

record 'l assumptionMaker =
  latticeExtender :: "'l extender"
  makerNumberOfStates :: nat

text \<open>The constructor (lines 9--18); the variables it declares are the state indices.\<close>

definition mkAssumptionMaker :: "'l extender \<Rightarrow> nat \<Rightarrow> 'l assumptionMaker" where
  "mkAssumptionMaker extender n = \<lparr>latticeExtender = extender, makerNumberOfStates = n\<rparr>"

text \<open>
  \<open>runRecursive\<close> (lines 59--91). The recursion ends only when the extender
  eventually finishes every branch, so it is a partial function; \<open>None\<close> is
  a run that does not end.
\<close>

partial_function (option) runRecursive ::
    "'l assumptionMaker \<Rightarrow> 'l \<Rightarrow> assumption list \<Rightarrow> ('l \<times> assumption list) list option" where
  "runRecursive am lattice assumptions =
     (case latticeExtender am lattice assumptions of
        (lattice', critical1, critical2) \<Rightarrow>
          if critical1 = makerNumberOfStates am then Some [(lattice', assumptions)]
          else
            Option.bind (runRecursive am lattice' (assumptions @ [Greater critical1 critical2]))
              (\<lambda>myMap. Option.bind (runRecursive am lattice' (assumptions @ [Greater critical2 critical1]))
                 (\<lambda>myMap2. Some (myMap @ myMap2))))"

text \<open>\<open>startMakingAssumptions\<close> (lines 21--57).\<close>

definition startMakingAssumptions ::
    "'l assumptionMaker \<Rightarrow> 'l \<Rightarrow> nat \<Rightarrow> nat \<Rightarrow> ('l \<times> assumption list) list option" where
  "startMakingAssumptions am lattice critical1 critical2 =
     (if critical1 = makerNumberOfStates am \<or> critical2 = makerNumberOfStates am then Some [(lattice, [])]
      else
        Option.bind (runRecursive am lattice [Greater critical1 critical2])
          (\<lambda>myMap. Option.bind (runRecursive am lattice [Greater critical2 critical1])
             (\<lambda>myMap2. Some (myMap @ myMap2))))"

text \<open>
  An extender that finishes at assumption depth \<open>depth\<close>: its critical pair
  is a real one only while fewer assumptions have been made.
\<close>

definition finishes_within :: "'l assumptionMaker \<Rightarrow> nat \<Rightarrow> bool" where
  "finishes_within am depth \<longleftrightarrow>
     (\<forall>l as. depth \<le> length as \<longrightarrow> fst (snd (latticeExtender am l as)) = makerNumberOfStates am)"

definition leaf_ok :: "'l assumptionMaker \<Rightarrow> assumption list \<Rightarrow> ('l \<times> assumption list) list \<Rightarrow> bool" where
  "leaf_ok am assumptions m \<longleftrightarrow> m \<noteq> [] \<and>
     list_all (\<lambda>(l', as'). (\<exists>rest. as' = assumptions @ rest) \<and>
                          (\<exists>l0 c. latticeExtender am l0 as' = (l', makerNumberOfStates am, c))) m"

text \<open>An extender over lattices counted by a number: it finishes after two assumptions.\<close>

definition ex_maker :: "nat assumptionMaker" where
  "ex_maker = mkAssumptionMaker (\<lambda>l as. (l + length as, if length as < 2 then 0 else 3, 1)) 3"

section \<open>The recursion\<close>

lemma runRecursive_leaf_ok:
  assumes "runRecursive am lattice assumptions = Some m"
  shows "leaf_ok am assumptions m"
proof (rule runRecursive.raw_induct [where P = "\<lambda>am lattice assumptions m. leaf_ok am assumptions m", OF _ assms])
  fix rec am lattice assumptions m
  assume IH: "\<And>am lattice assumptions m. rec am lattice assumptions = Some m \<Longrightarrow> leaf_ok am assumptions m"
    and run: "(case latticeExtender am lattice assumptions of
        (lattice', critical1, critical2) \<Rightarrow>
          if critical1 = makerNumberOfStates am then Some [(lattice', assumptions)]
          else
            Option.bind (rec am lattice' (assumptions @ [Greater critical1 critical2]))
              (\<lambda>myMap. Option.bind (rec am lattice' (assumptions @ [Greater critical2 critical1]))
                 (\<lambda>myMap2. Some (myMap @ myMap2)))) = Some m"
  obtain lattice' c1 c2 where ext: "latticeExtender am lattice assumptions = (lattice', c1, c2)"
    by (cases "latticeExtender am lattice assumptions") auto
  show "leaf_ok am assumptions m"
  proof (cases "c1 = makerNumberOfStates am")
    case True
    then show ?thesis using run ext by (auto simp: leaf_ok_def intro!: exI [of _ lattice])
  next
    case False
    then obtain m1 m2 where m1: "rec am lattice' (assumptions @ [Greater c1 c2]) = Some m1"
      and m2: "rec am lattice' (assumptions @ [Greater c2 c1]) = Some m2" and m: "m = m1 @ m2"
      using run ext by (auto split: Option.bind_splits)
    show ?thesis using IH [OF m1] IH [OF m2] m by (fastforce simp: leaf_ok_def list_all_iff)
  qed
qed

lemma runRecursive_terminates:
  assumes "finishes_within am depth"
  shows "\<exists>m. runRecursive am lattice assumptions = Some m"
proof (induction "depth - length assumptions" arbitrary: lattice assumptions rule: less_induct)
  case less
  obtain lattice' c1 c2 where ext: "latticeExtender am lattice assumptions = (lattice', c1, c2)"
    by (cases "latticeExtender am lattice assumptions") auto
  show ?case
  proof (cases "c1 = makerNumberOfStates am")
    case True
    then show ?thesis using ext by (subst runRecursive.simps) simp
  next
    case False
    then have "length assumptions < depth"
      using assms ext unfolding finishes_within_def by (metis fst_conv snd_conv not_less)
    then have "depth - length (assumptions @ [a]) < depth - length assumptions" for a by simp
    then obtain m1 m2 where "runRecursive am lattice' (assumptions @ [Greater c1 c2]) = Some m1"
      "runRecursive am lattice' (assumptions @ [Greater c2 c1]) = Some m2"
      using less by blast
    then show ?thesis using ext False by (subst runRecursive.simps) simp
  qed
qed

section \<open>Starting the case split\<close>

text \<open>
  C35: With an extender that finishes once a bounded number of assumptions
  has been made, \<open>startMakingAssumptions\<close> returns.
\<close>

theorem startMakingAssumptions_terminates:
  assumes "finishes_within am depth"
  shows "\<exists>m. startMakingAssumptions am lattice critical1 critical2 = Some m"
  using runRecursive_terminates [OF assms, of lattice "[Greater critical1 critical2]"]
    runRecursive_terminates [OF assms, of lattice "[Greater critical2 critical1]"]
  by (auto simp: startMakingAssumptions_def)

text \<open>
  C34: For a genuine critical pair, the result holds lattices for both
  orders of the pair: every entry's assumptions start with one of the two
  opposite assumptions, both occur, and every lattice is one the extender
  completed under exactly the entry's assumptions.
\<close>

theorem startMakingAssumptions_forks:
  assumes "startMakingAssumptions am lattice critical1 critical2 = Some m"
    and "critical1 \<noteq> makerNumberOfStates am" "critical2 \<noteq> makerNumberOfStates am"
  shows "list_ex (\<lambda>(l', as'). hd as' = Greater critical1 critical2) m
       \<and> list_ex (\<lambda>(l', as'). hd as' = Greater critical2 critical1) m
       \<and> list_all (\<lambda>(l', as'). (hd as' = Greater critical1 critical2 \<or> hd as' = Greater critical2 critical1)
                     \<and> (\<exists>l0 c. latticeExtender am l0 as' = (l', makerNumberOfStates am, c))) m"
proof -
  obtain m1 m2 where m1: "runRecursive am lattice [Greater critical1 critical2] = Some m1"
    and m2: "runRecursive am lattice [Greater critical2 critical1] = Some m2" and m: "m = m1 @ m2"
    using assms by (auto simp: startMakingAssumptions_def split: Option.bind_splits)
  have "leaf_ok am [Greater critical1 critical2] m1" "leaf_ok am [Greater critical2 critical1] m2"
    using runRecursive_leaf_ok [OF m1] runRecursive_leaf_ok [OF m2] by simp_all
  then show ?thesis unfolding m leaf_ok_def
    by (fastforce simp: list_ex_iff list_all_iff neq_Nil_conv)
qed

section \<open>Examples\<close>

theorem startMakingAssumptions_terminates_witness:
  "\<exists>m. startMakingAssumptions ex_maker 0 0 1 = Some m"
  using startMakingAssumptions_terminates [of ex_maker 2 0 0 1]
  by (simp add: finishes_within_def ex_maker_def mkAssumptionMaker_def)

theorem startMakingAssumptions_forks_witness:
  "startMakingAssumptions ex_maker 0 0 1 =
     Some [(3, [Greater 0 1, Greater 0 1]), (3, [Greater 0 1, Greater 1 0]),
           (3, [Greater 1 0, Greater 0 1]), (3, [Greater 1 0, Greater 1 0])]
   \<and> list_ex (\<lambda>(l', as'). hd as' = Greater 1 0)
       [(3 :: nat, [Greater 0 1, Greater 0 1]), (3, [Greater 0 1, Greater 1 0]),
        (3, [Greater 1 0, Greater 0 1]), (3, [Greater 1 0, Greater 1 0])]"
proof -
  have run: "startMakingAssumptions ex_maker 0 0 1 =
     Some [(3, [Greater 0 1, Greater 0 1]), (3, [Greater 0 1, Greater 1 0]),
           (3, [Greater 1 0, Greater 0 1]), (3, [Greater 1 0, Greater 1 0])]"
    by (simp add: startMakingAssumptions_def ex_maker_def mkAssumptionMaker_def runRecursive.simps)
  have "0 \<noteq> makerNumberOfStates ex_maker" "(1::nat) \<noteq> makerNumberOfStates ex_maker"
    by (simp_all add: ex_maker_def mkAssumptionMaker_def)
  then show ?thesis using startMakingAssumptions_forks [OF run] run by simp
qed

end
