(* ===== verification/MemlessSearch.thy ===== *)
theory MemlessSearch
  imports Model
begin

text \<open>
  The SMT encoding of the memoryless strategy search for POMDPs
  (\<open>src/src/storm-pomdp/analysis/MemlessStrategySearchQualitative.cpp\<close>):
  the constructor's states per observation, the constraints that
  \<open>initialize\<close> adds to the solver (one definition per block the code
  labels with a paper comment), \<open>getOffsetFromObservation\<close> and the solver
  call \<open>smtCheck\<close>. A POMDP (\<open>Pomdp.h\<close>) is the sparse MDP of \<open>Model\<close> with
  an observation per state. The expression manager's variables are the
  datatype \<open>smtVar\<close>, named by their role as the code names them
  (\<open>C-s\<close>, \<open>D-s\<close>, \<open>A-o-a\<close>, \<open>scheduler-obs-o\<close>, \<open>S-o\<close>, \<open>U-o\<close>, \<open>F-o\<close>,
  \<open>P-s-i\<close>); expressions are a datatype with their truth value under an
  assignment of the Boolean and the scheduler variables; the solver is the
  list of the assertions added to it, in order. The bit vectors of target
  and sink states are sets. \<open>qualitative::isLookaheadRequired\<close> and the SMT
  solver are outside the repository and are parameters.
\<close>

section \<open>POMDPs\<close>

text \<open>The members of \<open>Pomdp\<close> (\<open>Pomdp.h\<close>): the observation of every state and their number.\<close>

record pomdp = mdp +
  observations :: "nat list"
  nrObservations :: nat

definition getObservation :: "'a pomdp_scheme \<Rightarrow> state \<Rightarrow> nat" where
  "getObservation m s = observations m ! s"

definition getNumberOfChoices :: "'a pomdp_scheme \<Rightarrow> state \<Rightarrow> nat" where
  "getNumberOfChoices m s = rowGroupIndices m ! Suc s - rowGroupIndices m ! s"

definition getNumberOfStates :: "'a pomdp_scheme \<Rightarrow> nat" where
  "getNumberOfStates m = length (observations m)"

section \<open>Expressions and errors\<close>

datatype smtVar =
    ReachVar state
  | ContinuationVar state
  | ActionSelectionVar nat nat
  | SchedulerVar nat
  | SwitchVar nat
  | ObservationUpdatedVar nat
  | FollowVar nat
  | PathVar state nat

datatype smtExpr =
    EVar smtVar
  | ENot smtExpr
  | EAnd smtExpr smtExpr
  | EOr smtExpr smtExpr
  | EImplies smtExpr smtExpr
  | EIff smtExpr smtExpr
  | ESchedulerGreaterZero nat
  | ESchedulerEquals nat nat
  | ESchedulerAtMost nat nat

datatype search_error =
    InvalidArgumentException string
  | OutOfRange string
  | UnexpectedException string
  | EmptyFront

text \<open>
  \<open>storm::expressions::disjunction\<close> (outside the repository): the
  left-nested disjunction of a non-empty list; an empty list throws.
\<close>

fun disjunction :: "smtExpr list \<Rightarrow> search_error + smtExpr" where
  "disjunction [] = Inl (InvalidArgumentException ''Cannot build disjunction of empty expression list.'')"
| "disjunction (e # es) = Inr (foldl EOr e es)"

text \<open>The truth value of an expression under an assignment of the variables.\<close>

fun holds :: "(smtVar \<Rightarrow> bool) \<Rightarrow> (nat \<Rightarrow> nat) \<Rightarrow> smtExpr \<Rightarrow> bool" where
  "holds \<sigma> sch (EVar v) = \<sigma> v"
| "holds \<sigma> sch (ENot e) = (\<not> holds \<sigma> sch e)"
| "holds \<sigma> sch (EAnd e f) = (holds \<sigma> sch e \<and> holds \<sigma> sch f)"
| "holds \<sigma> sch (EOr e f) = (holds \<sigma> sch e \<or> holds \<sigma> sch f)"
| "holds \<sigma> sch (EImplies e f) = (holds \<sigma> sch e \<longrightarrow> holds \<sigma> sch f)"
| "holds \<sigma> sch (EIff e f) = (holds \<sigma> sch e \<longleftrightarrow> holds \<sigma> sch f)"
| "holds \<sigma> sch (ESchedulerGreaterZero o') = (0 < sch o')"
| "holds \<sigma> sch (ESchedulerEquals o' c) = (sch o' = c)"
| "holds \<sigma> sch (ESchedulerAtMost o' c) = (sch o' \<le> c)"

text \<open>\<open>std::vector::front\<close>: undefined on an empty vector, an error here.\<close>

fun front :: "'a list \<Rightarrow> search_error + 'a" where
  "front [] = Inl EmptyFront"
| "front (x # xs) = Inr x"

section \<open>The search object\<close>

record searchOptions =
  onlyDeterministicStrategies :: bool
  forceLookahead :: bool

record memlessSearch =
  searchPomdp :: pomdp
  targetStates :: "state set"
  surelyReachSinkStates :: "state set"
  options :: searchOptions
  statesPerObservation :: "state list list"
  winningRegionSizes :: "nat list"
  solver :: "smtExpr list"
  maxK :: "nat option"
  actionVarCount :: "nat list"
  pathVarCount :: "nat list"

text \<open>
  The constructor (lines 50--83): one list of states per observation,
  filled by walking the observations with \<open>at\<close> (which throws for an
  observation out of range); the winning region is sized by them.
  \<open>maxK\<close> starts at the largest \<open>uint64_t\<close>, \<open>None\<close> here.
\<close>

definition addStateToObservation :: "nat \<Rightarrow> state list list \<times> state \<Rightarrow> search_error + state list list \<times> state" where
  "addStateToObservation obs = (\<lambda>(spo, state).
     if obs < length spo then Inr (spo[obs := spo ! obs @ [state]], Suc state)
     else Inl (OutOfRange ''vector::_M_range_check''))"

definition mkMemlessSearch ::
    "pomdp \<Rightarrow> state set \<Rightarrow> state set \<Rightarrow> searchOptions \<Rightarrow> search_error + memlessSearch" where
  "mkMemlessSearch m target sink opts =
     sbind (sfold addStateToObservation (observations m) (replicate (nrObservations m) [], 0))
       (\<lambda>(spo, _). Inr \<lparr>searchPomdp = m, targetStates = target, surelyReachSinkStates = sink,
                        options = opts, statesPerObservation = spo, winningRegionSizes = map length spo,
                        solver = [], maxK = None, actionVarCount = [], pathVarCount = []\<rparr>)"

text \<open>
  \<open>getOffsetFromObservation\<close> (lines 336--351): the position of a state
  among the states of its observation; a state that does not occur fails
  the assertion.
\<close>

fun offsetIn :: "state list \<Rightarrow> state \<Rightarrow> nat \<Rightarrow> nat option" where
  "offsetIn [] state offset = None"
| "offsetIn (s # ss) state offset = (if s = state then Some offset else offsetIn ss state (Suc offset))"

definition getOffsetFromObservation :: "memlessSearch \<Rightarrow> state \<Rightarrow> nat \<Rightarrow> nat option" where
  "getOffsetFromObservation ms state observation = offsetIn (statesPerObservation ms ! observation) state 0"

section \<open>Initialising the solver\<close>

text \<open>The number of choices of an observation: that of its first state.\<close>

definition observationChoices :: "memlessSearch \<Rightarrow> nat \<Rightarrow> search_error + nat" where
  "observationChoices ms obs =
     sbind (front (statesPerObservation ms ! obs)) (\<lambda>s. Inr (getNumberOfChoices (searchPomdp ms) s))"

text \<open>
  The variable declarations of \<open>initialize\<close> (lines 95--136), made once,
  when there are no action selection variables yet: the action variables
  of each observation (counted by its first state's choices) and an empty
  list of path variables per state.
\<close>

definition declareVariables :: "memlessSearch \<Rightarrow> search_error + memlessSearch" where
  "declareVariables ms =
     (if actionVarCount ms \<noteq> [] then Inr ms
      else sbind (scollect (\<lambda>obs. sbind (observationChoices ms obs) (\<lambda>n. Inr [n]))
                    [0..<length (statesPerObservation ms)])
             (\<lambda>counts. Inr (ms\<lparr>actionVarCount := counts,
                                pathVarCount := replicate (getNumberOfStates (searchPomdp ms)) 0\<rparr>)))"

text \<open>
  The path variables \<open>P-s-i\<close> for \<open>initK \<le> i < k\<close> (lines 138--151), where
  \<open>initK\<close> is the largest \<open>k\<close> seen so far, when lookahead constraints are
  required.
\<close>

definition declarePathVariables :: "bool \<Rightarrow> nat \<Rightarrow> memlessSearch \<Rightarrow> memlessSearch" where
  "declarePathVariables lookahead k ms =
     (let initK = (case maxK ms of Some m \<Rightarrow> m | None \<Rightarrow> 0)
      in if initK < k \<and> lookahead then ms\<lparr>pathVarCount := map (\<lambda>c. c + (k - initK)) (pathVarCount ms)\<rparr>
         else ms)"

text \<open>\<open>pathVars[state][i]\<close>: reading past the declared variables is undefined, an error here.\<close>

definition pathVar :: "memlessSearch \<Rightarrow> state \<Rightarrow> nat \<Rightarrow> search_error + smtExpr" where
  "pathVar ms s i =
     (if s < length (pathVarCount ms) \<and> i < pathVarCount ms ! s then Inr (EVar (PathVar s i))
      else Inl (OutOfRange ''pathVars''))"

abbreviation actVar :: "nat \<Rightarrow> nat \<Rightarrow> smtExpr" where
  "actVar obs a \<equiv> EVar (ActionSelectionVar obs a)"

text \<open>
  At most one action per observation when only deterministic strategies are
  sought or the observation has one state (lines 158--174); an observation
  with a single choice gets nothing.
\<close>

definition deterministicClauses :: "memlessSearch \<Rightarrow> nat \<Rightarrow> search_error + smtExpr list" where
  "deterministicClauses ms obs =
     sbind (observationChoices ms obs) (\<lambda>n.
       if n = 1 then Inr []
       else if onlyDeterministicStrategies (options ms) \<or> length (statesPerObservation ms ! obs) = 1
       then Inr (concat (map (\<lambda>a. map (\<lambda>b. EOr (ENot (actVar obs a)) (ENot (actVar obs b))) [Suc a..<n])
                             [0..<n - 1]))
       else Inr [])"

definition deterministicConstraints :: "memlessSearch \<Rightarrow> search_error + smtExpr list" where
  "deterministicConstraints ms = scollect (deterministicClauses ms) [0..<length (statesPerObservation ms)]"

text \<open>
  Paper comment 1 (lines 176--186): every observation selects an action or
  follows, and following excludes every action.
\<close>

definition actionOrFollowClauses :: "memlessSearch \<Rightarrow> nat \<Rightarrow> search_error + smtExpr list" where
  "actionOrFollowClauses ms obs =
     sbind (disjunction (map (actVar obs) [0..<actionVarCount ms ! obs] @ [EVar (FollowVar obs)]))
       (\<lambda>d. Inr (d # map (\<lambda>a. EOr (ENot (EVar (FollowVar obs))) (ENot (actVar obs a))) [0..<actionVarCount ms ! obs]))"

definition actionOrFollowConstraints :: "memlessSearch \<Rightarrow> search_error + smtExpr list" where
  "actionOrFollowConstraints ms = scollect (actionOrFollowClauses ms) [0..<length (actionVarCount ms)]"

text \<open>Paper comment 2 (lines 191--192): some observation is updated.\<close>

definition updateSomeObservation :: "memlessSearch \<Rightarrow> search_error + smtExpr list" where
  "updateSomeObservation ms =
     sbind (disjunction (map (\<lambda>obs. EVar (ObservationUpdatedVar obs)) [0..<length (actionVarCount ms)]))
       (\<lambda>d. Inr [d])"

text \<open>
  Paper comment 3 (lines 194--203), with lookahead: a target state is on a
  path of length 0; another state only when its observation follows.
\<close>

definition pathStartConstraints :: "bool \<Rightarrow> memlessSearch \<Rightarrow> search_error + smtExpr list" where
  "pathStartConstraints lookahead ms =
     (if \<not> lookahead then Inr []
      else scollect (\<lambda>state. sbind (pathVar ms state 0) (\<lambda>p.
                       if state \<in> targetStates ms then Inr [p]
                       else Inr [EOr (ENot p) (EVar (FollowVar (getObservation (searchPomdp ms) state)))]))
             [0..<getNumberOfStates (searchPomdp ms)])"

text \<open>
  The successor test of paper comment 4 as the code writes it (line 222):
  \<open>pomdp.getObservation(entries.getColumn() == pomdp.getObservation(state))\<close>,
  the observation of state 0 or 1, whichever the comparison of the
  successor's index with the state's observation yields, taken as a truth
  value.
\<close>

definition successorTest :: "pomdp \<Rightarrow> state \<Rightarrow> state \<Rightarrow> bool" where
  "successorTest m state column =
     (getObservation m (if column = getObservation m state then 1 else 0) \<noteq> 0)"

text \<open>
  Paper comment 4 for one action of a state (lines 213--234): for each
  successor, the clauses reach(s) \<and> act \<and> switch \<longrightarrow> cont-or-reach(t) and
  reach(s) \<and> act \<and> \<not>switch \<longrightarrow> reach(t), from the action's row.
\<close>

definition reachClauses :: "memlessSearch \<Rightarrow> state \<Rightarrow> nat \<Rightarrow> nat \<Rightarrow> search_error + smtExpr list" where
  "reachClauses ms state action row =
     (let m = searchPomdp ms; obs = getObservation m state;
          prefix = [ENot (EVar (ReachVar state)), ENot (actVar obs action)]
      in scollect (\<lambda>(column, _).
                  if column < getNumberOfStates m then
                    sbind (disjunction (prefix @ [ENot (EVar (SwitchVar obs)),
                                                  if successorTest m state column then EVar (ContinuationVar column)
                                                  else EVar (ReachVar column)]))
                      (\<lambda>sw. sbind (disjunction (prefix @ [EVar (SwitchVar obs), EVar (ReachVar column)]))
                      (\<lambda>nsw. Inr [sw, nsw]))
                  else Inl (OutOfRange ''vector::_M_range_check''))
           (rows m ! row))"

text \<open>
  Paper comment 4 for one state (lines 207--235): targets and sinks are
  skipped; \<open>rowindex\<close>, the state's first row, advances by its choices.
\<close>

definition reachStateClauses :: "memlessSearch \<Rightarrow> state \<Rightarrow> nat \<Rightarrow> search_error + smtExpr list \<times> nat" where
  "reachStateClauses ms state rowindex =
     (let n = getNumberOfChoices (searchPomdp ms) state
      in if state \<in> targetStates ms \<or> state \<in> surelyReachSinkStates ms then Inr ([], rowindex + n)
         else sbind (scollect (\<lambda>action. reachClauses ms state action (rowindex + action)) [0..<n])
                (\<lambda>cs. Inr (cs, rowindex + n)))"

definition reachConstraints :: "memlessSearch \<Rightarrow> search_error + smtExpr list" where
  "reachConstraints ms =
     map_sum id fst
       (sfold (\<lambda>state (acc, rowindex). sbind (reachStateClauses ms state rowindex) (\<lambda>(cs, r). Inr (acc @ cs, r)))
          [0..<getNumberOfStates (searchPomdp ms)] ([], 0))"

text \<open>
  Paper comment 7 for one state (lines 257--285): first the path variables
  of every successor of every action for lengths \<open>j - 1\<close>,
  \<open>1 \<le> j < k\<close>; then for each \<open>j\<close> the state is on a path of length \<open>j\<close> iff
  an action selected for its observation leads to a successor on a path of
  length \<open>j - 1\<close>, or its observation switches or follows. \<open>rowindex\<close> is
  the state's first row.
\<close>

definition pathStepConstraints :: "memlessSearch \<Rightarrow> nat \<Rightarrow> state \<Rightarrow> nat \<Rightarrow> search_error + smtExpr list" where
  "pathStepConstraints ms k state rowindex =
     (let m = searchPomdp ms; obs = getObservation m state; n = getNumberOfChoices m state
      in sbind (sfold (\<lambda>action subsub.
                  sbind (sfold (\<lambda>(column, _) pss.
                            sbind (sfold (\<lambda>j ps. sbind (pathVar ms column (j - 1)) (\<lambda>p. Inr (ps @ [p]))) [1..<k] [])
                              (\<lambda>ps. Inr (pss @ [ps])))
                          (rows m ! (rowindex + action)) [])
                    (\<lambda>pss. Inr (subsub @ [pss])))
                [0..<n] [])
         (\<lambda>subsub. scollect (\<lambda>j.
            sbind (scollect (\<lambda>action. sbind (disjunction (map (\<lambda>ps. ps ! (j - 1)) (subsub ! action)))
                                        (\<lambda>d. Inr [EAnd (actVar obs action) d])) [0..<n])
              (\<lambda>subs. sbind (disjunction (subs @ [EVar (SwitchVar obs), EVar (FollowVar obs)]))
              (\<lambda>d. sbind (pathVar ms state j) (\<lambda>p. Inr [EIff p d]))))
           [1..<k]))"

text \<open>
  Paper comments 5--7 for one state (lines 241--292): a sink state is
  reached by nothing and on no path; a state that is neither a sink nor a
  target, with lookahead, is on a path of the last length when reached
  (\<open>pathVars.at(state).back()\<close>) and on paths as comment 7 says; a target
  state is on paths of every length \<open>1 \<le> j < k\<close>, with or without
  lookahead. \<open>rowindex\<close> advances except for a state of the middle case
  without lookahead.
\<close>

definition pathStateClauses :: "bool \<Rightarrow> nat \<Rightarrow> memlessSearch \<Rightarrow> state \<Rightarrow> nat \<Rightarrow> search_error + smtExpr list \<times> nat" where
  "pathStateClauses lookahead k ms state rowindex =
     (let n = getNumberOfChoices (searchPomdp ms) state
      in if state \<in> surelyReachSinkStates ms then
           (if lookahead then
              sbind (scollect (\<lambda>j. sbind (pathVar ms state j) (\<lambda>p. Inr [ENot p])) [1..<k])
                (\<lambda>ps. Inr ([ENot (EVar (ReachVar state)), ENot (EVar (ContinuationVar state))] @ ps, rowindex + n))
            else Inr ([ENot (EVar (ReachVar state)), ENot (EVar (ContinuationVar state))], rowindex + n))
         else if state \<notin> targetStates ms then
           (if lookahead then
              sbind (if state < length (pathVarCount ms) \<and> pathVarCount ms ! state \<noteq> 0
                     then pathVar ms state (pathVarCount ms ! state - 1)
                     else Inl (OutOfRange ''pathVars.at(state).back()''))
                (\<lambda>last. sbind (pathStepConstraints ms k state rowindex)
                (\<lambda>cs. Inr (EImplies (EVar (ReachVar state)) last # cs, rowindex + n)))
            else Inr ([], rowindex))
         else sbind (scollect (\<lambda>j. sbind (pathVar ms state j) (\<lambda>p. Inr [p])) [1..<k])
                (\<lambda>ps. Inr (ps, rowindex + n)))"

definition pathConstraints :: "bool \<Rightarrow> nat \<Rightarrow> memlessSearch \<Rightarrow> search_error + smtExpr list" where
  "pathConstraints lookahead k ms =
     map_sum id fst
       (sfold (\<lambda>state (acc, rowindex).
                 sbind (pathStateClauses lookahead k ms state rowindex) (\<lambda>(cs, r). Inr (acc @ cs, r)))
          [0..<getNumberOfStates (searchPomdp ms)] ([], 0))"

text \<open>
  Paper comment 8 (lines 295--305): a non-target state that is continued
  from, or reached while its observation follows, needs a scheduler.
\<close>

definition schedulerConstraints :: "memlessSearch \<Rightarrow> smtExpr list" where
  "schedulerConstraints ms =
     concat (map (\<lambda>obs. concat (map (\<lambda>state.
         if state \<in> targetStates ms then []
         else [EOr (ENot (EVar (ContinuationVar state))) (ESchedulerGreaterZero obs),
               EOr (EOr (ENot (EVar (ReachVar state))) (ENot (EVar (FollowVar obs)))) (ESchedulerGreaterZero obs)])
       (statesPerObservation ms ! obs)))
       [0..<length (statesPerObservation ms)])"

text \<open>Paper comment 9 (lines 307--310): a switching observation has a reached state.\<close>

definition switchConstraints :: "memlessSearch \<Rightarrow> search_error + smtExpr list" where
  "switchConstraints ms =
     scollect (\<lambda>obs. sbind (disjunction (map (\<lambda>s. EVar (ReachVar s)) (statesPerObservation ms ! obs)))
                       (\<lambda>d. Inr [EImplies (EVar (SwitchVar obs)) d]))
       [0..<nrObservations (searchPomdp ms)]"

text \<open>
  \<open>initialize\<close> (lines 85--334): the declarations, then every block of
  constraints added to the solver in the code's order.
  \<open>lookaheadRequired\<close> is \<open>qualitative::isLookaheadRequired\<close> of the POMDP.
\<close>

definition initialize :: "bool \<Rightarrow> nat \<Rightarrow> memlessSearch \<Rightarrow> search_error + memlessSearch" where
  "initialize lookaheadRequired k ms0 =
     (let lookahead = forceLookahead (options ms0) \<or> lookaheadRequired
      in sbind (declareVariables ms0) (\<lambda>ms1.
         let ms = declarePathVariables lookahead k ms1 in
         sbind (deterministicConstraints ms) (\<lambda>c1.
         sbind (actionOrFollowConstraints ms) (\<lambda>c2.
         sbind (updateSomeObservation ms) (\<lambda>c3.
         sbind (pathStartConstraints lookahead ms) (\<lambda>c4.
         sbind (reachConstraints ms) (\<lambda>c5.
         sbind (pathConstraints lookahead k ms) (\<lambda>c6.
         sbind (switchConstraints ms) (\<lambda>c7.
           Inr (ms\<lparr>solver := solver ms @ c1 @ c2 @ c3 @ c4 @ c5 @ c6 @ schedulerConstraints ms @ c7\<rparr>))))))))))"

text \<open>The variables an expression names.\<close>

fun exprVars :: "smtExpr \<Rightarrow> smtVar set" where
  "exprVars (EVar v) = {v}"
| "exprVars (ENot e) = exprVars e"
| "exprVars (EAnd e f) = exprVars e \<union> exprVars f"
| "exprVars (EOr e f) = exprVars e \<union> exprVars f"
| "exprVars (EImplies e f) = exprVars e \<union> exprVars f"
| "exprVars (EIff e f) = exprVars e \<union> exprVars f"
| "exprVars (ESchedulerGreaterZero o') = {SchedulerVar o'}"
| "exprVars (ESchedulerEquals o' c) = {SchedulerVar o'}"
| "exprVars (ESchedulerAtMost o' c) = {SchedulerVar o'}"

text \<open>
  An example POMDP: states 0 and 1 share observation 0, state 0 has two
  actions (to 1 and to 2), state 1 one (to itself), state 2 is the target.
\<close>

definition ex_pomdp :: pomdp where
  "ex_pomdp = \<lparr>rowGroupIndices = [0, 2, 3, 4], rows = [[(1, 1)], [(2, 1)], [(1, 1)], [(2, 1)]],
               observations = [0, 0, 1], nrObservations = 2\<rparr>"

definition ex_search :: memlessSearch where
  "ex_search = \<lparr>searchPomdp = ex_pomdp, targetStates = {2}, surelyReachSinkStates = {},
      options = \<lparr>onlyDeterministicStrategies = True, forceLookahead = False\<rparr>,
      statesPerObservation = [[0, 1], [2]], winningRegionSizes = [2, 1], solver = [], maxK = None,
      actionVarCount = [], pathVarCount = []\<rparr>"

definition ex_assignment :: "smtVar \<Rightarrow> bool" where
  "ex_assignment v \<longleftrightarrow> v \<in> {ActionSelectionVar 0 0, ActionSelectionVar 1 0, ObservationUpdatedVar 0}"

section \<open>Lemmas on expressions and the blocks\<close>

lemma holds_foldl_EOr:
  "holds \<sigma> sch (foldl EOr e es) \<longleftrightarrow> holds \<sigma> sch e \<or> (\<exists>x \<in> set es. holds \<sigma> sch x)"
  by (induction es arbitrary: e) auto

lemma holds_disjunction:
  "disjunction es = Inr d \<Longrightarrow> holds \<sigma> sch d \<longleftrightarrow> (\<exists>x \<in> set es. holds \<sigma> sch x)"
  by (cases es) (auto simp: holds_foldl_EOr)

lemma exprVars_foldl_EOr: "exprVars (foldl EOr e es) = exprVars e \<union> \<Union> (exprVars ` set es)"
  by (induction es arbitrary: e) auto

lemma exprVars_disjunction: "disjunction es = Inr d \<Longrightarrow> exprVars d = \<Union> (exprVars ` set es)"
  by (cases es) (auto simp: exprVars_foldl_EOr)

lemma observationChoices_cong:
  "statesPerObservation ms' = statesPerObservation ms \<Longrightarrow> searchPomdp ms' = searchPomdp ms \<Longrightarrow>
     observationChoices ms' = observationChoices ms"
  by (simp add: observationChoices_def fun_eq_iff)

lemma declareVariables_fields:
  assumes "declareVariables ms0 = Inr ms1"
  shows "statesPerObservation ms1 = statesPerObservation ms0 \<and> searchPomdp ms1 = searchPomdp ms0
       \<and> options ms1 = options ms0 \<and> targetStates ms1 = targetStates ms0
       \<and> surelyReachSinkStates ms1 = surelyReachSinkStates ms0 \<and> solver ms1 = solver ms0"
  using assms by (auto simp: declareVariables_def sbind_eq_Inr split: if_splits)

lemma declareVariables_fresh:
  assumes "declareVariables ms0 = Inr ms1" "actionVarCount ms0 = []"
  shows "list_all2 (\<lambda>obs n. observationChoices ms0 obs = Inr n) [0..<length (statesPerObservation ms0)] (actionVarCount ms1)
       \<and> pathVarCount ms1 = replicate (getNumberOfStates (searchPomdp ms0)) 0"
  using assms by (auto simp: declareVariables_def sbind_eq_Inr scollect_single)

lemma declarePathVariables_fields [simp]:
  "statesPerObservation (declarePathVariables la k ms) = statesPerObservation ms"
  "searchPomdp (declarePathVariables la k ms) = searchPomdp ms"
  "options (declarePathVariables la k ms) = options ms"
  "targetStates (declarePathVariables la k ms) = targetStates ms"
  "surelyReachSinkStates (declarePathVariables la k ms) = surelyReachSinkStates ms"
  "actionVarCount (declarePathVariables la k ms) = actionVarCount ms"
  "solver (declarePathVariables la k ms) = solver ms"
  by (simp_all add: declarePathVariables_def Let_def)

lemma declarePathVariables_no_lookahead [simp]: "declarePathVariables False k ms = ms"
  by (simp add: declarePathVariables_def Let_def)

lemma initialize_Inr:
  assumes "initialize la k ms0 = Inr ms"
  obtains ms1 c1 c2 c5 c6 where "declareVariables ms0 = Inr ms1"
    and "deterministicConstraints (declarePathVariables (forceLookahead (options ms0) \<or> la) k ms1) = Inr c1"
    and "actionOrFollowConstraints (declarePathVariables (forceLookahead (options ms0) \<or> la) k ms1) = Inr c2"
    and "reachConstraints (declarePathVariables (forceLookahead (options ms0) \<or> la) k ms1) = Inr c5"
    and "pathConstraints (forceLookahead (options ms0) \<or> la) k (declarePathVariables (forceLookahead (options ms0) \<or> la) k ms1) = Inr c6"
    and "set c1 \<union> set c2 \<union> set c5 \<union> set c6 \<subseteq> set (solver ms)"
proof -
  let ?la = "forceLookahead (options ms0) \<or> la"
  obtain ms1 c1 c2 c3 c4 c5 c6 c7 where h: "declareVariables ms0 = Inr ms1"
    "deterministicConstraints (declarePathVariables ?la k ms1) = Inr c1"
    "actionOrFollowConstraints (declarePathVariables ?la k ms1) = Inr c2"
    "reachConstraints (declarePathVariables ?la k ms1) = Inr c5"
    "pathConstraints ?la k (declarePathVariables ?la k ms1) = Inr c6"
    and ms: "ms = (declarePathVariables ?la k ms1)\<lparr>solver := solver (declarePathVariables ?la k ms1)
               @ c1 @ c2 @ c3 @ c4 @ c5 @ c6 @ schedulerConstraints (declarePathVariables ?la k ms1) @ c7\<rparr>"
    using assms unfolding initialize_def Let_def sbind_eq_Inr by blast
  show ?thesis by (rule that [OF h]) (use ms in auto)
qed

section \<open>Properties of the encoding\<close>

text \<open>
  C20: On the first initialisation, an assignment that satisfies every
  constraint of the solver selects for each observation its follow flag or
  one of its actions, not both, and at most one action when only
  deterministic strategies are sought.
\<close>

theorem initialize_action_selection:
  assumes "initialize la k ms0 = Inr ms" "actionVarCount ms0 = []"
    and "\<forall>e \<in> set (solver ms). holds \<sigma> sch e"
    and "obs < length (statesPerObservation ms0)" "observationChoices ms0 obs = Inr n"
  shows "(\<sigma> (FollowVar obs) \<or> (\<exists>a < n. \<sigma> (ActionSelectionVar obs a)))
       \<and> (\<sigma> (FollowVar obs) \<longrightarrow> (\<forall>a < n. \<not> \<sigma> (ActionSelectionVar obs a)))
       \<and> (onlyDeterministicStrategies (options ms0) \<longrightarrow>
            (\<forall>a b. a < b \<and> b < n \<longrightarrow> \<not> (\<sigma> (ActionSelectionVar obs a) \<and> \<sigma> (ActionSelectionVar obs b))))"
proof -
  obtain ms1 c1 c2 c5 c6 where d: "declareVariables ms0 = Inr ms1"
    and c1: "deterministicConstraints (declarePathVariables (forceLookahead (options ms0) \<or> la) k ms1) = Inr c1"
    and c2: "actionOrFollowConstraints (declarePathVariables (forceLookahead (options ms0) \<or> la) k ms1) = Inr c2"
    and "reachConstraints (declarePathVariables (forceLookahead (options ms0) \<or> la) k ms1) = Inr c5"
    and "pathConstraints (forceLookahead (options ms0) \<or> la) k (declarePathVariables (forceLookahead (options ms0) \<or> la) k ms1) = Inr c6"
    and sub0: "set c1 \<union> set c2 \<union> set c5 \<union> set c6 \<subseteq> set (solver ms)"
    by (rule initialize_Inr [OF assms(1)])
  have sub: "set c1 \<union> set c2 \<subseteq> set (solver ms)" using sub0 by blast
  let ?ms = "declarePathVariables (forceLookahead (options ms0) \<or> la) k ms1"
  have f: "statesPerObservation ?ms = statesPerObservation ms0" "searchPomdp ?ms = searchPomdp ms0"
      "options ?ms = options ms0"
    using declareVariables_fields [OF d] by simp_all
  have counts: "list_all2 (\<lambda>obs n. observationChoices ms0 obs = Inr n) [0..<length (statesPerObservation ms0)]
                  (actionVarCount ?ms)"
    using declareVariables_fresh [OF d assms(2)] by simp
  then have len: "obs < length (actionVarCount ?ms)" and cnt: "actionVarCount ?ms ! obs = n"
    using assms(4,5) by (auto simp: list_all2_conv_all_nth)
  have hs: "holds \<sigma> sch e" if "e \<in> set c1 \<union> set c2" for e using that sub assms(3) by blast
  obtain v2 where v2: "actionOrFollowClauses ?ms obs = Inr v2" "set v2 \<subseteq> set c2"
    using scollect_mem [OF c2 [unfolded actionOrFollowConstraints_def]] len by auto
  then obtain d where dis: "disjunction (map (actVar obs) [0..<n] @ [EVar (FollowVar obs)]) = Inr d"
    and v2eq: "v2 = d # map (\<lambda>a. EOr (ENot (EVar (FollowVar obs))) (ENot (actVar obs a))) [0..<n]"
    using v2(1) cnt unfolding actionOrFollowClauses_def
    by (cases "disjunction (map (actVar obs) [0..<n] @ [EVar (FollowVar obs)])") auto
  have one: "\<sigma> (FollowVar obs) \<or> (\<exists>a < n. \<sigma> (ActionSelectionVar obs a))"
    using hs [of d] v2 v2eq holds_disjunction [OF dis] by auto
  have "EOr (ENot (EVar (FollowVar obs))) (ENot (actVar obs a)) \<in> set v2" if "a < n" for a
    using v2eq that by simp
  then have "holds \<sigma> sch (EOr (ENot (EVar (FollowVar obs))) (ENot (actVar obs a)))" if "a < n" for a
    using v2(2) that hs by blast
  then have excl: "\<sigma> (FollowVar obs) \<longrightarrow> (\<forall>a < n. \<not> \<sigma> (ActionSelectionVar obs a))"
    by auto
  have det: "\<not> (\<sigma> (ActionSelectionVar obs a) \<and> \<sigma> (ActionSelectionVar obs b))"
    if "onlyDeterministicStrategies (options ms0)" "a < b" "b < n" for a b
  proof -
    obtain v1 where v1: "deterministicClauses ?ms obs = Inr v1" "set v1 \<subseteq> set c1"
      using scollect_mem [OF c1 [unfolded deterministicConstraints_def]] assms(4) f by auto
    have "observationChoices ?ms obs = Inr n" using observationChoices_cong [OF f(1,2)] assms(5) by simp
    then have "v1 = concat (map (\<lambda>a. map (\<lambda>b. EOr (ENot (actVar obs a)) (ENot (actVar obs b))) [Suc a..<n])
                             [0..<n - 1])"
      using v1(1) that f by (simp add: deterministicClauses_def)
    then have "EOr (ENot (actVar obs a)) (ENot (actVar obs b)) \<in> set v1"
      using that by force
    then show ?thesis using hs v1(2) by fastforce
  qed
  show ?thesis using one excl det by blast
qed

lemma successorTest_first_states:
  "getObservation m 0 = 0 \<Longrightarrow> getObservation m 1 = 0 \<Longrightarrow> \<not> successorTest m state t"
  by (simp add: successorTest_def)

lemma reachClauses_no_continuation:
  assumes "\<forall>t. \<not> successorTest (searchPomdp ms) state t" "reachClauses ms state action row = Inr v"
  shows "list_all (\<lambda>e. \<forall>t. ContinuationVar t \<notin> exprVars e) v"
  using assms(2) unfolding reachClauses_def Let_def
  by (rule scollect_all)
     (use assms(1) in \<open>auto simp: sbind_eq_Inr exprVars_disjunction split: if_splits prod.splits\<close>)

lemma reachStateClauses_no_continuation:
  assumes "\<forall>t. \<not> successorTest (searchPomdp ms) state t" "reachStateClauses ms state r = Inr (v, r')"
  shows "list_all (\<lambda>e. \<forall>t. ContinuationVar t \<notin> exprVars e) v"
proof -
  have "list_all (\<lambda>e. \<forall>t. ContinuationVar t \<notin> exprVars e) cs"
    if "scollect (\<lambda>action. reachClauses ms state action (r + action)) xs = Inr cs" for xs cs
    using that by (rule scollect_all) (use reachClauses_no_continuation [OF assms(1)] in blast)
  then show ?thesis using assms(2) by (auto simp: reachStateClauses_def Let_def sbind_eq_Inr split: if_splits)
qed

text \<open>
  C36: The clauses of paper comment 4 are meant to send a switching
  observation's successors of the same observation to their continuation
  variables. As the code tests the observation (line 222), when states 0
  and 1 have observation 0 no clause of the block names a continuation
  variable at all.
\<close>

theorem reachConstraints_without_continuation:
  assumes "getObservation (searchPomdp ms) 0 = 0" "getObservation (searchPomdp ms) 1 = 0"
    and "reachConstraints ms = Inr cs"
  shows "\<forall>e \<in> set cs. \<forall>t. ContinuationVar t \<notin> exprVars e"
proof -
  obtain r where run: "sfold (\<lambda>state (acc, rowindex). sbind (reachStateClauses ms state rowindex)
                        (\<lambda>(cs, r). Inr (acc @ cs, r))) [0..<getNumberOfStates (searchPomdp ms)] ([], 0) = Inr (cs, r)"
    using assms(3) unfolding reachConstraints_def
    by (cases "sfold (\<lambda>state (acc, rowindex). sbind (reachStateClauses ms state rowindex)
                 (\<lambda>(cs, r). Inr (acc @ cs, r))) [0..<getNumberOfStates (searchPomdp ms)] ([], 0)") auto
  have no_succ: "\<forall>t. \<not> successorTest (searchPomdp ms) state t" for state
    using successorTest_first_states [OF assms(1,2)] by blast
  have step: "list_all (\<lambda>e. \<forall>t. ContinuationVar t \<notin> exprVars e) (fst c')"
    if inv: "list_all (\<lambda>e. \<forall>t. ContinuationVar t \<notin> exprVars e) (fst c)"
      and run1: "(\<lambda>state (acc, rowindex). sbind (reachStateClauses ms state rowindex) (\<lambda>(cs, r). Inr (acc @ cs, r))) x c = Inr c'"
    for x c c'
  proof -
    obtain acc rowindex where c: "c = (acc, rowindex)" by fastforce
    then obtain v r' where "reachStateClauses ms x rowindex = Inr (v, r')" "c' = (acc @ v, r')"
      using run1 by (auto simp: sbind_eq_Inr split: prod.splits)
    then show ?thesis using reachStateClauses_no_continuation [OF no_succ] inv c by auto
  qed
  have "list_all (\<lambda>e. \<forall>t. ContinuationVar t \<notin> exprVars e) (fst (cs, r))"
    using run by (rule sfold_invariant) (auto intro: step)
  then show ?thesis by (simp add: list_all_iff)
qed

text \<open>
  C37: Without lookahead constraints, the block of paper comments 5--7 still
  reads the path variables \<open>pathVars[t][j]\<close>, \<open>1 \<le> j < k\<close>, of a target
  state \<open>t\<close>, none of which were declared: with \<open>k \<ge> 2\<close> the first
  initialisation never completes.
\<close>

theorem initialize_target_reads_undeclared_paths:
  assumes "\<not> forceLookahead (options ms0)" "actionVarCount ms0 = []" "2 \<le> k"
    and "t \<in> targetStates ms0" "t \<notin> surelyReachSinkStates ms0" "t < getNumberOfStates (searchPomdp ms0)"
  shows "initialize False k ms0 \<noteq> Inr ms"
proof
  assume run: "initialize False k ms0 = Inr ms"
  have la: "(forceLookahead (options ms0) \<or> False) = False" using assms(1) by simp
  obtain ms1 c1 c2 c5 c6 where d: "declareVariables ms0 = Inr ms1"
    and "deterministicConstraints ms1 = Inr c1" "actionOrFollowConstraints ms1 = Inr c2"
    "reachConstraints ms1 = Inr c5" and p: "pathConstraints False k ms1 = Inr c6"
    and "set c1 \<union> set c2 \<union> set c5 \<union> set c6 \<subseteq> set (solver ms)"
    by (rule initialize_Inr [OF run, unfolded la declarePathVariables_no_lookahead])
  have f: "targetStates ms1 = targetStates ms0" "surelyReachSinkStates ms1 = surelyReachSinkStates ms0"
      "searchPomdp ms1 = searchPomdp ms0"
    using declareVariables_fields [OF d] by simp_all
  have zero: "pathVarCount ms1 ! t = 0"
    using declareVariables_fresh [OF d assms(2)] assms(6) by simp
  obtain b' where "sfold (\<lambda>state (acc, rowindex).
                      sbind (pathStateClauses False k ms1 state rowindex) (\<lambda>(cs, r). Inr (acc @ cs, r)))
                    [0..<getNumberOfStates (searchPomdp ms1)] ([], 0) = Inr b'"
    using p unfolding pathConstraints_def by (auto simp: map_sum_def split: sum.splits)
  from sfold_step_Inr [OF this, of t] obtain r v where
    "pathStateClauses False k ms1 t r = Inr v"
    using assms(6) f(3) by (auto simp: sbind_eq_Inr split: prod.splits)
  then obtain ps where "scollect (\<lambda>j. sbind (pathVar ms1 t j) (\<lambda>p. Inr [p])) [1..<k] = Inr ps"
    using assms(4,5) f by (auto simp: pathStateClauses_def Let_def sbind_eq_Inr split: if_splits)
  from scollect_mem [OF this, of 1] obtain w where "sbind (pathVar ms1 t 1) (\<lambda>p. Inr [p]) = Inr w"
    using assms(3) by auto
  then show False using zero by (auto simp: pathVar_def sbind_eq_Inr split: if_splits)
qed

section \<open>Examples\<close>

theorem initialize_action_selection_witness:
  "\<exists>ms. initialize False 1 ex_search = Inr ms \<and> (\<forall>e \<in> set (solver ms). holds ex_assignment (\<lambda>_. 0) e)
     \<and> (ex_assignment (FollowVar 0) \<or> (\<exists>a < 2. ex_assignment (ActionSelectionVar 0 a)))
     \<and> \<not> (ex_assignment (ActionSelectionVar 0 0) \<and> ex_assignment (ActionSelectionVar 0 1))"
proof -
  have "case initialize False 1 ex_search of
          Inr ms \<Rightarrow> \<forall>e \<in> set (solver ms). holds ex_assignment (\<lambda>_. 0) e | Inl _ \<Rightarrow> False"
    by code_simp
  then obtain ms where run: "initialize False 1 ex_search = Inr ms"
    and sat: "\<forall>e \<in> set (solver ms). holds ex_assignment (\<lambda>_. 0) e"
    by (cases "initialize False 1 ex_search") auto
  have "actionVarCount ex_search = []" "0 < length (statesPerObservation ex_search)"
      "observationChoices ex_search 0 = Inr 2"
    by (simp_all add: ex_search_def observationChoices_def getNumberOfChoices_def ex_pomdp_def)
  from initialize_action_selection [OF run this(1) sat this(2,3)] show ?thesis
    using run sat by (auto simp: ex_search_def)
qed

theorem reachConstraints_without_continuation_witness:
  "\<exists>cs. reachConstraints ex_search = Inr cs \<and> (\<forall>e \<in> set cs. ContinuationVar 1 \<notin> exprVars e)
     \<and> getObservation ex_pomdp 1 = getObservation ex_pomdp 0 \<and> (1, 1) \<in> set (rows ex_pomdp ! 0)"
proof -
  have "\<not> isl (reachConstraints ex_search)" by code_simp
  then obtain cs where run: "reachConstraints ex_search = Inr cs" by (cases "reachConstraints ex_search") auto
  have "getObservation (searchPomdp ex_search) 0 = 0" "getObservation (searchPomdp ex_search) 1 = 0"
    by (simp_all add: ex_search_def ex_pomdp_def getObservation_def)
  from reachConstraints_without_continuation [OF this run] show ?thesis
    using run by (auto simp: ex_search_def ex_pomdp_def getObservation_def)
qed

theorem initialize_target_reads_undeclared_paths_witness:
  "initialize False 2 ex_search = Inl (OutOfRange ''pathVars'') \<and> initialize False 2 ex_search \<noteq> Inr ex_search"
proof -
  have "\<not> forceLookahead (options ex_search)" "actionVarCount ex_search = []" "2 \<le> (2::nat)"
      "2 \<in> targetStates ex_search" "2 \<notin> surelyReachSinkStates ex_search"
      "2 < getNumberOfStates (searchPomdp ex_search)"
    by (simp_all add: ex_search_def ex_pomdp_def getNumberOfStates_def)
  from initialize_target_reads_undeclared_paths [OF this, of ex_search] show ?thesis
    by simp code_simp
qed

end
