(* ===== verification/Belief.thy ===== *)
theory Belief
  imports Distribution MemlessSearch
begin

text \<open>
  The belief computations of the approximate POMDP model checker
  (\<open>src/src/storm-pomdp/modelchecker/ApproximatePOMDPModelchecker.cpp\<close>,
  lines 1040--1259): the sparse matrix built from explored transitions, the
  search of a belief in the grid, the initial belief, the Freudenthal
  triangulation of a belief (\<open>computeSubSimplexAndLambdas\<close>, after
  Lovejoy), the observation probabilities after an action, the successor
  belief after an action and an observation, and the expected reward of an
  action. A belief's \<open>std::map\<close> from states to probabilities is a
  \<open>distribution\<close> of theory \<open>Distribution\<close> (a list sorted by key, whose
  \<open>addProbability\<close> is \<open>map[k] += v\<close>); the constants comparator \<open>cc\<close> is a
  \<open>comparator\<close>; values are rationals. \<open>getSortedIndices\<close> and the reward
  model's \<open>getTotalStateActionReward\<close> are outside the repository.
\<close>

section \<open>Beliefs\<close>

record belief =
  beliefId :: nat
  beliefObservation :: nat
  beliefProbabilities :: distribution

text \<open>\<open>getChoiceIndex(StateActionPair(state, action))\<close>: the state's first row plus the action.\<close>

definition getChoiceIndex :: "'a mdp_scheme \<Rightarrow> state \<Rightarrow> nat \<Rightarrow> nat" where
  "getChoiceIndex m state action = rowGroupIndices m ! state + action"

text \<open>
  \<open>buildTransitionMatrix\<close> (lines 1040--1065): one row group per explored
  belief, one row per action, the map of each action as its row.
\<close>

definition buildTransitionMatrix :: "distribution list list \<Rightarrow> mdp" where
  "buildTransitionMatrix transitions =
     \<lparr>rowGroupIndices = map (\<lambda>g. sum_list (map length (take g transitions))) [0..<Suc (length transitions)],
      rows = concat transitions\<rparr>"

text \<open>
  \<open>getBeliefIdInVector\<close> (lines 1067--1093): the id of the first belief of
  the grid with the observation whose every entry occurs in the given map
  with an equal probability; \<open>None\<close> for the \<open>-1\<close> the code returns.
\<close>

definition beliefMatches :: "comparator \<Rightarrow> nat \<Rightarrow> distribution \<Rightarrow> belief \<Rightarrow> bool" where
  "beliefMatches cc observation probabilities b \<longleftrightarrow>
     beliefObservation b = observation \<and>
     list_all (\<lambda>(k, p). k \<in> fst ` set probabilities \<and> isEqual cc p (dget probabilities k)) (beliefProbabilities b)"

definition getBeliefIdInVector :: "comparator \<Rightarrow> belief list \<Rightarrow> nat \<Rightarrow> distribution \<Rightarrow> nat option" where
  "getBeliefIdInVector cc grid observation probabilities =
     map_option beliefId (find (beliefMatches cc observation probabilities) grid)"

text \<open>\<open>getInitialBelief\<close> (lines 1095--1111): the Dirac belief of the first initial state.\<close>

definition getInitialBelief :: "pomdp \<Rightarrow> state set \<Rightarrow> nat \<Rightarrow> belief" where
  "getInitialBelief m initialStates bid =
     (case find (\<lambda>s. s \<in> initialStates) [0..<getNumberOfStates m] of
        Some s \<Rightarrow> \<lparr>beliefId = bid, beliefObservation = getObservation m s, beliefProbabilities = [(s, 1)]\<rparr>
      | None \<Rightarrow> \<lparr>beliefId = bid, beliefObservation = 0, beliefProbabilities = []\<rparr>)"

section \<open>Freudenthal triangulation\<close>

text \<open>
  \<open>storm::utility::vector::getSortedIndices\<close> (outside the repository):
  the indices ordered by decreasing value. The code sorts with
  \<open>std::sort\<close>, which leaves the order of equal values open; this model
  sorts stably, and the correctness theorem below holds for every order
  of equal values.
\<close>

definition getSortedIndices :: "rat list \<Rightarrow> nat list" where
  "getSortedIndices d = sort_key (\<lambda>i. - (d ! i)) [0..<length d]"

text \<open>
  The coordinates of \<open>computeSubSimplexAndLambdas\<close> (lines 1113--1178):
  \<open>x[i]\<close> is the resolution times the mass of the states from \<open>i\<close> on,
  \<open>v[i]\<close> its floor and \<open>d[i]\<close> its fractional part.
\<close>

definition triangulationX :: "distribution \<Rightarrow> nat \<Rightarrow> nat \<Rightarrow> rat list" where
  "triangulationX probabilities resolution nrStates =
     map (\<lambda>i. sum_list (map (\<lambda>(k, p). if i \<le> k then of_nat resolution * p else 0) probabilities)) [0..<nrStates]"

definition floorPart :: "rat list \<Rightarrow> rat list" where
  "floorPart x = map (\<lambda>y. of_int \<lfloor>y\<rfloor>) x"

definition fracPart :: "rat list \<Rightarrow> rat list" where
  "fracPart x = map (\<lambda>y. y - of_int \<lfloor>y\<rfloor>) x"

text \<open>The vertices \<open>qs\<close>: \<open>qs[0] = v\<close>, and \<open>qs[i]\<close> adds one at \<open>p[i-1]\<close> to \<open>qs[i-1]\<close>.\<close>

fun vertices :: "rat list \<Rightarrow> nat list \<Rightarrow> rat list list" where
  "vertices q [] = [q]"
| "vertices q (k # ks) = q # vertices (q[k := q ! k + 1]) ks"

text \<open>
  A vertex as a belief: the differences of consecutive coordinates (and the
  last coordinate) divided by the resolution, where the comparator finds
  them positive.
\<close>

definition vertexBelief :: "comparator \<Rightarrow> nat \<Rightarrow> nat \<Rightarrow> rat list \<Rightarrow> distribution" where
  "vertexBelief cc resolution nrStates q =
     concat (map (\<lambda>i. if isLess cc 0 (q ! i - q ! Suc i) then [(i, (q ! i - q ! Suc i) / of_nat resolution)] else [])
                 [0..<nrStates - 1])
     @ (if isLess cc 0 (q ! (nrStates - 1)) then [(nrStates - 1, q ! (nrStates - 1) / of_nat resolution)] else [])"

text \<open>The weights: \<open>lambdas[i] = d[p[i-1]] - d[p[i]]\<close>, and \<open>lambdas[0]\<close> one minus their sum.\<close>

definition triangulationLambdas :: "rat list \<Rightarrow> nat list \<Rightarrow> nat \<Rightarrow> rat list" where
  "triangulationLambdas d p nrStates =
     (let sum = sum_list (map (\<lambda>i. d ! (p ! (i - 1)) - d ! (p ! i)) [1..<nrStates])
      in map (\<lambda>i. if i = 0 then 1 - sum else d ! (p ! (i - 1)) - d ! (p ! i)) [0..<nrStates])"

definition computeSubSimplexAndLambdas ::
    "comparator \<Rightarrow> distribution \<Rightarrow> nat \<Rightarrow> nat \<Rightarrow> distribution list \<times> rat list" where
  "computeSubSimplexAndLambdas cc probabilities resolution nrStates =
     (let x = triangulationX probabilities resolution nrStates;
          v = floorPart x; d = fracPart x; p = getSortedIndices d;
          qs = vertices v (take (nrStates - 1) p)
      in (map (vertexBelief cc resolution nrStates) qs, triangulationLambdas d p nrStates))"

section \<open>Successor beliefs\<close>

text \<open>
  \<open>computeObservationProbabilitiesAfterAction\<close> (lines 1180--1207): the
  mass reaching each state through the positive entries of the action's
  rows, summed by observation.
\<close>

definition postProbabilities :: "pomdp \<Rightarrow> belief \<Rightarrow> nat \<Rightarrow> (state \<times> prob \<Rightarrow> bool) \<Rightarrow> distribution" where
  "postProbabilities m b actionIndex keep =
     fold (\<lambda>(state, p) post.
             fold (\<lambda>(column, value) post. if keep (column, value) then addProbability post column (p * value) else post)
                  (rows m ! getChoiceIndex m state actionIndex) post)
          (beliefProbabilities b) []"

definition computeObservationProbabilitiesAfterAction :: "pomdp \<Rightarrow> belief \<Rightarrow> nat \<Rightarrow> distribution" where
  "computeObservationProbabilitiesAfterAction m b actionIndex =
     fold (\<lambda>(state, q) res. addProbability res (getObservation m state) q)
          (postProbabilities m b actionIndex (\<lambda>(column, value). 0 < value)) []"

text \<open>
  \<open>getBeliefAfterActionAndObservation\<close> (lines 1209--1240): the mass
  reaching states of the observation, normalised, looked up in the belief
  list and appended (with its target flag) when it is new; the result is
  the belief's id with the updated list and flags.
\<close>

definition normalize :: "distribution \<Rightarrow> distribution" where
  "normalize distributionAfter = map (\<lambda>(k, q). (k, q / dmass distributionAfter)) distributionAfter"

definition getBeliefAfterActionAndObservation ::
    "comparator \<Rightarrow> pomdp \<Rightarrow> belief list \<Rightarrow> bool list \<Rightarrow> nat set \<Rightarrow> belief \<Rightarrow> nat \<Rightarrow> nat \<Rightarrow> nat
     \<Rightarrow> nat \<times> belief list \<times> bool list" where
  "getBeliefAfterActionAndObservation cc m beliefList beliefIsTarget targetObservations b actionIndex observation bid =
     (let distributionAfter = normalize (postProbabilities m b actionIndex
                                (\<lambda>(column, value). getObservation m column = observation))
      in case getBeliefIdInVector cc beliefList observation distributionAfter of
           Some res \<Rightarrow> (res, beliefList, beliefIsTarget)
         | None \<Rightarrow> (bid, beliefList @ [\<lparr>beliefId = bid, beliefObservation = observation,
                                          beliefProbabilities = distributionAfter\<rparr>],
                    beliefIsTarget @ [observation \<in> targetObservations]))"

text \<open>
  The two \<open>getRewardAfterAction\<close> overloads (lines 1242--1259): the
  expected state-action reward under the belief.
\<close>

definition getRewardAfterAction :: "(state \<Rightarrow> nat \<Rightarrow> rat) \<Rightarrow> nat \<Rightarrow> distribution \<Rightarrow> rat" where
  "getRewardAfterAction totalStateActionReward action b =
     sum_list (map (\<lambda>(state, p). p * totalStateActionReward state action) b)"

section \<open>Correctness of the triangulation\<close>

text \<open>
  The mass of a belief on the states from \<open>i\<close> on; a permutation of
  \<open>0..<n\<close> that orders \<open>d\<close> decreasingly (what \<open>getSortedIndices\<close>
  returns, whatever the order of equal values); coordinates that descend
  from an integer and stay non-negative (the \<open>x\<close> of a belief).
\<close>

definition massFrom :: "distribution \<Rightarrow> nat \<Rightarrow> rat" where
  "massFrom b i = sum_list (map (\<lambda>(k, p). if i \<le> k then p else 0) b)"

definition descending_perm :: "rat list \<Rightarrow> nat list \<Rightarrow> nat \<Rightarrow> bool" where
  "descending_perm d p n \<longleftrightarrow> length p = n \<and> distinct p \<and> set p = {0..<n} \<and>
     (\<forall>a b. a \<le> b \<and> b < n \<longrightarrow> d ! (p ! b) \<le> d ! (p ! a))"

definition descending_coords :: "rat list \<Rightarrow> nat \<Rightarrow> bool" where
  "descending_coords x n \<longleftrightarrow> length x = n \<and> 0 < n \<and> x ! 0 \<in> \<int> \<and> (\<forall>i < n. 0 \<le> x ! i) \<and>
     (\<forall>i. Suc i < n \<longrightarrow> x ! Suc i \<le> x ! i)"

text \<open>
  A POMDP whose action moves state 0 to states 1 and 2 and state 1 to
  states 0 and 1, with halves, and the Dirac belief on state 0.
\<close>

definition ex_belief_pomdp :: pomdp where
  "ex_belief_pomdp = \<lparr>rowGroupIndices = [0, 1, 2, 3], rows = [[(1, 1/2), (2, 1/2)], [(0, 1/2), (1, 1/2)], [(2, 1)]],
                      observations = [0, 0, 1], nrObservations = 2\<rparr>"

definition ex_belief0 :: belief where
  "ex_belief0 = \<lparr>beliefId = 0, beliefObservation = 0, beliefProbabilities = [(0, 1)]\<rparr>"

lemma triangulationX_nth:
  "i < n \<Longrightarrow> triangulationX b N n ! i = of_nat N * massFrom b i"
  by (simp add: triangulationX_def massFrom_def sum_list_const_mult [symmetric] case_prod_unfold if_distrib
      cong: if_cong)

lemma length_triangulationX [simp]: "length (triangulationX b N n) = n"
  by (simp add: triangulationX_def)

lemma massFrom_step:
  "distinct (map fst b) \<Longrightarrow> massFrom b i = dget b i + massFrom b (Suc i)"
  by (induction b) (auto simp: massFrom_def dget_notin)

lemma massFrom_zero: "massFrom b 0 = dmass b"
  by (induction b) (auto simp: massFrom_def dmass_def)

lemma massFrom_beyond: "\<forall>k \<in> fst ` set b. k < n \<Longrightarrow> n \<le> i \<Longrightarrow> massFrom b i = 0"
  by (induction b) (auto simp: massFrom_def)

lemma massFrom_nonneg: "dist_wf b \<Longrightarrow> 0 \<le> massFrom b i"
proof (induction b)
  case (Cons e b)
  then show ?case using dist_wf_Cons [of "fst e" "snd e" b]
    by (cases e) (auto simp: massFrom_def intro: add_nonneg_nonneg less_imp_le)
qed (simp add: massFrom_def)

lemma length_vertices [simp]: "length (vertices q ks) = Suc (length ks)"
  by (induction q ks rule: vertices.induct) simp_all

lemma vertices_nth:
  assumes "distinct ks" "set ks \<subseteq> {..<length q}" "j \<le> length ks" "i < length q"
  shows "vertices q ks ! j ! i = q ! i + (if i \<in> set (take j ks) then 1 else 0)"
  using assms
proof (induction q ks arbitrary: j rule: vertices.induct)
  case (2 q k ks)
  show ?case
  proof (cases j)
    case (Suc j')
    have "vertices (q[k := q ! k + 1]) ks ! j' ! i = q[k := q ! k + 1] ! i + (if i \<in> set (take j' ks) then 1 else 0)"
      using "2.prems" Suc by (intro "2.IH") auto
    then show ?thesis using Suc "2.prems" by (auto simp: nth_list_update dest: in_set_takeD)
  qed simp
qed simp

lemma dget_append: "dget (d @ e) k = (if k \<in> fst ` set d then dget d k else dget e k)"
  by (induction d) (force simp: image_iff)+

lemma dget_concat_singletons:
  "dget (concat (map (\<lambda>i. if P i then [(i, f i)] else []) xs)) k = (if k \<in> set xs \<and> P k then f k else 0)"
proof (induction xs)
  case (Cons x xs)
  then show ?case by (cases "P x") (auto simp: dget_append)
qed simp

lemma keys_concat_singletons:
  "fst ` set (concat (map (\<lambda>i. if P i then [(i, f i)] else []) xs)) = {i \<in> set xs. P i}"
  by (induction xs) auto

lemma dget_vertexBelief_exact:
  assumes "0 < n"
  shows "dget (vertexBelief exact_comparator N n q) i =
           (if i < n - 1 then (if 0 < q ! i - q ! Suc i then (q ! i - q ! Suc i) / of_nat N else 0)
            else if i = n - 1 then (if 0 < q ! (n - 1) then q ! (n - 1) / of_nat N else 0) else 0)"
proof -
  let ?A = "concat (map (\<lambda>i. if 0 < q ! i - q ! Suc i then [(i, (q ! i - q ! Suc i) / of_nat N)] else []) [0..<n - 1])"
  have keys: "fst ` set ?A = {i \<in> set [0..<n - 1]. 0 < q ! i - q ! Suc i}"
    by (rule keys_concat_singletons)
  have dA: "dget ?A i = (if i \<in> set [0..<n - 1] \<and> 0 < q ! i - q ! Suc i then (q ! i - q ! Suc i) / of_nat N else 0)"
    by (rule dget_concat_singletons)
  have vb: "vertexBelief exact_comparator N n q =
          ?A @ (if 0 < q ! (n - 1) then [(n - 1, q ! (n - 1) / of_nat N)] else [])"
    by (simp add: vertexBelief_def exact_comparator_def)
  show ?thesis
    unfolding vb dget_append keys dA using assms by auto
qed

lemma sum_telescope:
  fixes f :: "nat \<Rightarrow> rat"
  shows "m < n \<Longrightarrow> (\<Sum>j\<in>{Suc m..<n}. f (j - 1) - f j) = f m - f (n - 1)"
proof (induction n)
  case (Suc n)
  show ?case
  proof (cases "m < n")
    case True
    have "{Suc m..<Suc n} = insert n {Suc m..<n}" using True by auto
    then show ?thesis using Suc True by simp
  next
    case False
    then have "m = n" using Suc.prems by simp
    then show ?thesis by simp
  qed
qed simp

lemma length_triangulationLambdas [simp]: "length (triangulationLambdas d p n) = n"
  by (simp add: triangulationLambdas_def Let_def)

lemma triangulationLambdas_nth:
  "j < n \<Longrightarrow> triangulationLambdas d p n ! j =
     (if j = 0 then 1 - (\<Sum>i\<in>{Suc 0..<n}. d ! (p ! (i - 1)) - d ! (p ! i)) else d ! (p ! (j - 1)) - d ! (p ! j))"
  by (simp add: triangulationLambdas_def Let_def flip: sum_set_upt_conv_sum_list_nat)

lemma lambdas_tail:
  assumes "m < n"
  shows "(\<Sum>j\<in>{Suc m..<n}. triangulationLambdas d p n ! j) = d ! (p ! m) - d ! (p ! (n - 1))"
proof -
  have "(\<Sum>j\<in>{Suc m..<n}. triangulationLambdas d p n ! j) = (\<Sum>j\<in>{Suc m..<n}. d ! (p ! (j - 1)) - d ! (p ! j))"
    by (rule sum.cong) (auto simp: triangulationLambdas_nth)
  then show ?thesis using sum_telescope [OF assms, of "\<lambda>i. d ! (p ! i)"] by simp
qed

lemma lambdas_sum:
  assumes "0 < n"
  shows "(\<Sum>j<n. triangulationLambdas d p n ! j) = 1"
proof -
  have split: "{..<n} = insert 0 {Suc 0..<n}" using assms by auto
  have "(\<Sum>j\<in>{Suc 0..<n}. triangulationLambdas d p n ! j) = (\<Sum>i\<in>{Suc 0..<n}. d ! (p ! (i - 1)) - d ! (p ! i))"
    by (rule sum.cong) (auto simp: triangulationLambdas_nth)
  then show ?thesis unfolding split using assms by (simp add: triangulationLambdas_nth)
qed

lemma lambdas_nonneg:
  assumes "descending_perm d p n" "j < n" "\<forall>i < n. d ! i < 1" "d ! (p ! (n - 1)) = 0"
  shows "0 \<le> triangulationLambdas d p n ! j"
proof (cases j)
  case 0
  have "(\<Sum>i\<in>{Suc 0..<n}. d ! (p ! (i - 1)) - d ! (p ! i)) = d ! (p ! 0) - d ! (p ! (n - 1))"
    using sum_telescope [of 0 n "\<lambda>i. d ! (p ! i)"] assms(2) 0 by simp
  moreover have "p ! 0 < n" using assms(1,2) 0 by (auto simp: descending_perm_def)
  ultimately show ?thesis using assms 0 by (simp add: triangulationLambdas_nth less_imp_le)
next
  case (Suc j')
  then show ?thesis using assms(1,2) by (simp add: triangulationLambdas_nth descending_perm_def)
qed

lemma vertices_take_nth:
  assumes "descending_perm d p n" "length v = n" "j < n" "k < n"
  shows "vertices v (take (n - 1) p) ! j ! k = v ! k + (if k \<in> set (take j p) then 1 else 0)"
proof -
  have p: "length p = n" "distinct p" "set p = {0..<n}" using assms(1) by (auto simp: descending_perm_def)
  have "vertices v (take (n - 1) p) ! j ! k = v ! k + (if k \<in> set (take j (take (n - 1) p)) then 1 else 0)"
    using p assms(2-4) by (intro vertices_nth) (auto dest: in_set_takeD)
  moreover have "min j (n - 1) = j" using assms(3) by simp
  then have "take j (take (n - 1) p) = take j p" by (simp add: take_take)
  ultimately show ?thesis by simp
qed

lemma position_in_take:
  assumes "distinct p" "m < length p"
  shows "p ! m \<in> set (take j p) \<longleftrightarrow> m < j"
  using assms by (auto simp: in_set_conv_nth nth_eq_iff_index_eq)

lemma vertices_combination:
  assumes "descending_perm d p n" "0 < n" "length v = n" "d ! (p ! (n - 1)) = 0" "k < n"
  shows "(\<Sum>j<n. triangulationLambdas d p n ! j * (vertices v (take (n - 1) p) ! j ! k)) = v ! k + d ! k"
proof -
  have p: "length p = n" "distinct p" "set p = {0..<n}" using assms(1) by (auto simp: descending_perm_def)
  obtain m where m: "m < n" "p ! m = k" using p assms(5) by (metis atLeastLessThan_iff in_set_conv_nth zero_le)
  let ?l = "\<lambda>j. triangulationLambdas d p n ! j"
  have q: "vertices v (take (n - Suc 0) p) ! j ! k = v ! k + (if m < j then 1 else 0)" if "j < n" for j
    using vertices_take_nth [OF assms(1,3) that assms(5)] position_in_take [of p m j] p m by simp
  have "(\<Sum>j<n. ?l j * (vertices v (take (n - 1) p) ! j ! k)) = (\<Sum>j<n. ?l j * v ! k + (if m < j then ?l j else 0))"
    by (intro sum.cong) (auto simp: q distrib_left)
  also have "\<dots> = v ! k * (\<Sum>j<n. ?l j) + (\<Sum>j<n. if m < j then ?l j else 0)"
    by (simp add: sum.distrib sum_distrib_left mult.commute)
  also have "(\<Sum>j<n. if m < j then ?l j else 0) = (\<Sum>j\<in>{Suc m..<n}. ?l j)"
  proof -
    have "{j \<in> {..<n}. m < j} = {Suc m..<n}" by auto
    then show ?thesis using sum.inter_filter [of "{..<n}" ?l "\<lambda>j. m < j"] by simp
  qed
  finally show ?thesis using lambdas_tail [OF m(1)] lambdas_sum [OF assms(2)] m assms(4) by simp
qed

lemma length_floorPart [simp]: "length (floorPart x) = length x"
  and length_fracPart [simp]: "length (fracPart x) = length x"
  by (simp_all add: floorPart_def fracPart_def)

lemma floorPart_nth: "i < length x \<Longrightarrow> floorPart x ! i = of_int \<lfloor>x ! i\<rfloor>"
  and fracPart_nth: "i < length x \<Longrightarrow> fracPart x ! i = x ! i - of_int \<lfloor>x ! i\<rfloor>"
  by (simp_all add: floorPart_def fracPart_def)

lemma frac_bounds: "0 \<le> y - of_int \<lfloor>y\<rfloor>" "y - of_int \<lfloor>y :: rat\<rfloor> < 1"
  using floor_correct [of y] by linarith+

lemma last_frac_zero:
  assumes "descending_coords x n" "descending_perm (fracPart x) p n"
  shows "fracPart x ! (p ! (n - 1)) = 0"
proof -
  have x: "length x = n" "0 < n" "x ! 0 \<in> \<int>" using assms(1) by (auto simp: descending_coords_def)
  have p: "length p = n" "set p = {0..<n}" "\<forall>a b. a \<le> b \<and> b < n \<longrightarrow> fracPart x ! (p ! b) \<le> fracPart x ! (p ! a)"
    using assms(2) by (auto simp: descending_perm_def)
  obtain m where m: "m < n" "p ! m = 0" using p x(2) by (metis atLeastLessThan_iff in_set_conv_nth zero_le)
  have "fracPart x ! 0 = 0" using x by (auto simp: fracPart_nth elim!: Ints_cases)
  moreover have "fracPart x ! (p ! (n - 1)) \<le> fracPart x ! (p ! m)" using p(3) [rule_format, of m "n - 1"] m x(2) by simp
  moreover have "p ! (n - 1) < n" using p x(2) by (metis atLeastLessThan_iff diff_less less_one nth_mem)
  ultimately show ?thesis using m frac_bounds(1) [of "x ! (p ! (n - 1))"] x(1)
    by (simp add: fracPart_nth) (metis antisym of_int_floor_le)
qed

lemma vertex_step_nonneg:
  assumes x: "descending_coords x n" and p: "descending_perm (fracPart x) p n"
    and j: "j < n" and lam: "triangulationLambdas (fracPart x) p n ! j \<noteq> 0" and i: "Suc i < n"
  shows "vertices (floorPart x) (take (n - 1) p) ! j ! Suc i \<le> vertices (floorPart x) (take (n - 1) p) ! j ! i"
proof (rule ccontr)
  let ?q = "vertices (floorPart x) (take (n - 1) p) ! j" and ?d = "fracPart x" and ?v = "floorPart x"
  assume neg: "\<not> ?q ! Suc i \<le> ?q ! i"
  have len: "length x = n" and mono: "x ! Suc i \<le> x ! i" using x i by (auto simp: descending_coords_def)
  have ps: "length p = n" "distinct p" "set p = {0..<n}" and srt: "\<forall>a b. a \<le> b \<and> b < n \<longrightarrow> ?d ! (p ! b) \<le> ?d ! (p ! a)"
    using p by (auto simp: descending_perm_def)
  have qi: "?q ! i = ?v ! i + (if i \<in> set (take j p) then 1 else 0)"
    and qi1: "?q ! Suc i = ?v ! Suc i + (if Suc i \<in> set (take j p) then 1 else 0)"
    using vertices_take_nth [OF p _ j] len i by simp_all
  have fl: "\<lfloor>x ! Suc i\<rfloor> \<le> \<lfloor>x ! i\<rfloor>" using mono by (rule floor_mono)
  then have vi: "?v ! Suc i \<le> ?v ! i" using len i by (simp add: floorPart_nth)
  have cases: "\<lfloor>x ! Suc i\<rfloor> = \<lfloor>x ! i\<rfloor> \<and> i \<notin> set (take j p) \<and> Suc i \<in> set (take j p)"
  proof -
    have "of_int \<lfloor>x ! i\<rfloor> + (if i \<in> set (take j p) then 1 else 0)
          < of_int \<lfloor>x ! Suc i\<rfloor> + (if Suc i \<in> set (take j p) then (1::rat) else 0)"
      using neg qi qi1 len i by (simp add: floorPart_nth)
    then show ?thesis using fl by (auto split: if_splits)
  qed
  obtain mi mi1 where mi: "mi < n" "p ! mi = i" and mi1: "mi1 < n" "p ! mi1 = Suc i"
    using ps i by (metis Suc_lessD atLeastLessThan_iff in_set_conv_nth zero_le)
  have "mi1 < j" "j \<le> mi" using cases mi mi1 ps position_in_take [of p] by (metis not_le)+
  then have j0: "j \<noteq> 0" by simp
  have di: "?d ! Suc i \<le> ?d ! i" using cases mono len i by (simp add: fracPart_nth)
  have jn: "j < n" using \<open>j \<le> mi\<close> mi by simp
  have "?d ! (p ! (j - 1)) \<le> ?d ! (p ! mi1)"
    using \<open>mi1 < j\<close> jn by (intro srt [rule_format] conjI) arith+
  moreover have "?d ! (p ! j) \<le> ?d ! (p ! (j - 1))"
    using jn by (intro srt [rule_format] conjI) arith+
  moreover have "?d ! (p ! mi) \<le> ?d ! (p ! j)"
    using \<open>j \<le> mi\<close> mi by (intro srt [rule_format] conjI) arith+
  ultimately have "?d ! (p ! (j - 1)) = ?d ! (p ! j)" using di mi mi1 by simp
  then show False using lam j j0 by (simp add: triangulationLambdas_nth)
qed

lemma floor_plus_frac: "i < length x \<Longrightarrow> floorPart x ! i + fracPart x ! i = x ! i"
  by (simp add: floorPart_nth fracPart_nth)

lemma vertex_last_nonneg:
  assumes x: "descending_coords x n" and p: "descending_perm (fracPart x) p n" and j: "j < n"
  shows "0 \<le> vertices (floorPart x) (take (n - 1) p) ! j ! (n - 1)"
proof -
  have n: "length x = n" "0 < n" "0 \<le> x ! (n - 1)" using x by (auto simp: descending_coords_def)
  then have "0 \<le> floorPart x ! (n - 1)" by (simp add: floorPart_nth)
  then show ?thesis using vertices_take_nth [OF p _ j, of "floorPart x" "n - 1"] n by simp
qed

lemma lambda_times_dget_step:
  assumes "c = 0 \<or> b \<le> (a :: rat)"
  shows "c * (if 0 < a - b then (a - b) / of_nat N else 0) = c * (a - b) / of_nat N"
  using assms by auto

lemma lambda_times_dget_last:
  assumes "0 \<le> (a :: rat)"
  shows "c * (if 0 < a then a / of_nat N else 0) = c * a / of_nat N"
  using assms by auto

lemma vertices_lambdas_coordinates:
  assumes x: "descending_coords x n" and p: "descending_perm (fracPart x) p n" and that: "k < n"
  shows "(\<Sum>j<n. triangulationLambdas (fracPart x) p n ! j * (vertices (floorPart x) (take (n - 1) p) ! j ! k)) = x ! k"
proof -
  have n: "length x = n" "0 < n" using x by (auto simp: descending_coords_def)
  show ?thesis
    using vertices_combination [OF p n(2) _ last_frac_zero [OF x p] that] floor_plus_frac [of k x] n that by simp
qed

lemma triangulation_combination:
  assumes x: "descending_coords x n" and p: "descending_perm (fracPart x) p n"
  shows "(\<Sum>j<n. triangulationLambdas (fracPart x) p n ! j *
            dget (vertexBelief exact_comparator N n (vertices (floorPart x) (take (n - 1) p) ! j)) i) =
         (if i < n - 1 then (x ! i - x ! Suc i) / of_nat N else if i = n - 1 then x ! (n - 1) / of_nat N else 0)"
proof -
  let ?l = "\<lambda>j. triangulationLambdas (fracPart x) p n ! j"
  let ?q = "\<lambda>j. vertices (floorPart x) (take (n - 1) p) ! j"
  have n: "0 < n" using x by (simp add: descending_coords_def)
  have comb: "(\<Sum>j<n. ?l j * ?q j ! k) = x ! k" if "k < n" for k
    by (rule vertices_lambdas_coordinates [OF x p that])
  consider (step) "i < n - 1" | (last) "i = n - 1" | (beyond) "n \<le> i" by linarith
  then show ?thesis
  proof cases
    case step
    have "?l j * dget (vertexBelief exact_comparator N n (?q j)) i = ?l j * (?q j ! i - ?q j ! Suc i) / of_nat N"
      if "j < n" for j
    proof -
      have "?l j = 0 \<or> ?q j ! Suc i \<le> ?q j ! i"
        using vertex_step_nonneg [OF x p that, of i] step by linarith
      then show ?thesis using step n by (auto simp: dget_vertexBelief_exact)
    qed
    then have "(\<Sum>j<n. ?l j * dget (vertexBelief exact_comparator N n (?q j)) i) =
               ((\<Sum>j<n. ?l j * ?q j ! i) - (\<Sum>j<n. ?l j * ?q j ! Suc i)) / of_nat N"
      by (simp add: sum_divide_distrib [symmetric] sum_subtractf [symmetric] right_diff_distrib)
    then show ?thesis using comb [of i] comb [of "Suc i"] step by simp
  next
    case last
    have "?l j * dget (vertexBelief exact_comparator N n (?q j)) i = ?l j * ?q j ! (n - 1) / of_nat N"
      if "j < n" for j
      using vertex_last_nonneg [OF x p that] last n by (simp add: dget_vertexBelief_exact lambda_times_dget_last)
    then have "(\<Sum>j<n. ?l j * dget (vertexBelief exact_comparator N n (?q j)) i) =
               (\<Sum>j<n. ?l j * ?q j ! (n - 1)) / of_nat N"
      by (simp add: sum_divide_distrib [symmetric])
    then show ?thesis using comb [of "n - 1"] last n by simp
  next
    case beyond
    then have "\<not> i < n - 1" "i \<noteq> n - 1" using n by auto
    then show ?thesis using n by (simp add: dget_vertexBelief_exact)
  qed
qed

lemma getSortedIndices_descending: "descending_perm d (getSortedIndices d) (length d)"
proof -
  let ?p = "getSortedIndices d"
  have s: "sorted (map (\<lambda>i. - (d ! i)) ?p)" by (simp add: getSortedIndices_def)
  have l: "length ?p = length d" by (simp add: getSortedIndices_def)
  have "d ! (?p ! b) \<le> d ! (?p ! a)" if "a \<le> b" "b < length d" for a b
    using sorted_nth_mono [OF s, of a b] that l by simp
  then show ?thesis using l by (simp add: descending_perm_def getSortedIndices_def)
qed

lemma triangulationX_descending:
  assumes "dist_wf b" "\<forall>k \<in> fst ` set b. k < n" "dmass b = 1" "0 < n"
  shows "descending_coords (triangulationX b N n) n"
proof -
  have dk: "distinct (map fst b)" using assms(1) by (simp add: dist_wf_def strict_sorted_iff)
  have "triangulationX b N n ! 0 = of_nat N" using assms by (simp add: triangulationX_nth massFrom_zero)
  moreover have "0 \<le> triangulationX b N n ! i" if "i < n" for i
    using that massFrom_nonneg [OF assms(1)] by (simp add: triangulationX_nth)
  moreover have "triangulationX b N n ! Suc i \<le> triangulationX b N n ! i" if "Suc i < n" for i
    using that massFrom_step [OF dk, of i] dget_nonneg [OF assms(1), of i]
    by (simp add: triangulationX_nth distrib_left mult_left_mono)
  ultimately show ?thesis using assms(4) by (simp add: descending_coords_def)
qed

lemma triangulationX_differences:
  assumes "dist_wf b" "\<forall>k \<in> fst ` set b. k < n" "0 < N" "0 < n"
  shows "(if i < n - 1 then (triangulationX b N n ! i - triangulationX b N n ! Suc i) / of_nat N
          else if i = n - 1 then triangulationX b N n ! (n - 1) / of_nat N else 0) = dget b i"
proof -
  have dk: "distinct (map fst b)" using assms(1) by (simp add: dist_wf_def strict_sorted_iff)
  consider (step) "i < n - 1" | (last) "i = n - 1" | (beyond) "n \<le> i" by linarith
  then show ?thesis
  proof cases
    case step
    then show ?thesis using massFrom_step [OF dk, of i] assms(3) by (simp add: triangulationX_nth algebra_simps)
  next
    case last
    then show ?thesis
      using massFrom_step [OF dk, of "n - 1"] massFrom_beyond [OF assms(2), of n] assms(3,4)
      by (simp add: triangulationX_nth)
  next
    case beyond
    then have "i \<notin> fst ` set b" "\<not> i < n - 1" "i \<noteq> n - 1" using assms(2,4) by auto
    then show ?thesis by (simp add: dget_notin)
  qed
qed

lemma dmass_concat_singletons:
  "dmass (concat (map (\<lambda>i. if P i then [(i, f i)] else []) xs)) = (\<Sum>i\<leftarrow>xs. if P i then f i else 0)"
  by (induction xs) auto

lemma dmass_append: "dmass (d @ e) = dmass d + dmass e"
  by (simp add: dmass_def)

lemma dmass_vertexBelief_exact:
  assumes "0 < n"
  shows "dmass (vertexBelief exact_comparator N n q) =
           (\<Sum>i<n - 1. if 0 < q ! i - q ! Suc i then (q ! i - q ! Suc i) / of_nat N else 0) +
           (if 0 < q ! (n - 1) then q ! (n - 1) / of_nat N else 0)"
  by (simp add: vertexBelief_def exact_comparator_def dmass_append dmass_concat_singletons
      sum_list_distinct_conv_sum_set atLeast0LessThan)

lemma sorted_keys_concat_singletons:
  "sorted_wrt (<) xs \<Longrightarrow> sorted_wrt (<) (map fst (concat (map (\<lambda>i. if P i then [(i, f i)] else []) xs)))"
  by (induction xs) (auto simp: keys_concat_singletons [unfolded image_def])

lemma dist_wf_vertexBelief_exact:
  assumes "0 < N"
  shows "dist_wf (vertexBelief exact_comparator N n q)"
proof -
  let ?A = "concat (map (\<lambda>i. if 0 < q ! i - q ! Suc i then [(i, (q ! i - q ! Suc i) / of_nat N)] else []) [0..<n - 1])"
  have "sorted_wrt (<) (map fst ?A)" by (rule sorted_keys_concat_singletons) simp
  moreover have "\<forall>k \<in> fst ` set ?A. k < n - 1" by (simp add: keys_concat_singletons)
  moreover have "\<forall>p \<in> set ?A. 0 < snd p" using assms by auto
  ultimately show ?thesis using assms
    by (auto simp: vertexBelief_def exact_comparator_def dist_wf_def sorted_wrt_append)
qed

lemma clip_nonneg: "0 \<le> (a :: rat) \<Longrightarrow> (if 0 < a then a / of_nat N else 0) = a / of_nat N"
  by auto

lemma vertices_integral:
  assumes x: "descending_coords x n" and p: "descending_perm (fracPart x) p n" and j: "j < n" and k: "k < n"
  shows "vertices (floorPart x) (take (n - 1) p) ! j ! k \<in> \<int>"
proof -
  have "length x = n" using x by (simp add: descending_coords_def)
  then show ?thesis using vertices_take_nth [OF p _ j k, of "floorPart x"] k by (simp add: floorPart_nth)
qed

lemma vertex_zero_coordinate:
  assumes x: "descending_coords x n" and p: "descending_perm (fracPart x) p n"
    and j: "j < n" and lam: "triangulationLambdas (fracPart x) p n ! j \<noteq> 0"
  shows "vertices (floorPart x) (take (n - 1) p) ! j ! 0 = x ! 0"
proof -
  let ?d = "fracPart x"
  have xs: "length x = n" "0 < n" "x ! 0 \<in> \<int>" using x by (auto simp: descending_coords_def)
  have ps: "length p = n" "distinct p" "set p = {0..<n}"
    and srt: "\<forall>a b. a \<le> b \<and> b < n \<longrightarrow> ?d ! (p ! b) \<le> ?d ! (p ! a)"
    using p by (auto simp: descending_perm_def)
  have d0: "?d ! 0 = 0" using xs by (auto simp: fracPart_nth elim!: Ints_cases)
  have v0: "floorPart x ! 0 = x ! 0" using xs by (auto simp: floorPart_nth elim!: Ints_cases)
  have "0 \<notin> set (take j p)"
  proof
    assume "0 \<in> set (take j p)"
    obtain m where m: "m < n" "p ! m = 0" using ps xs(2) by (metis atLeastLessThan_iff in_set_conv_nth zero_le)
    have "m < j" using position_in_take [of p m j] \<open>0 \<in> set (take j p)\<close> ps m by simp
    then have j0: "j \<noteq> 0" by simp
    have "?d ! (p ! (j - 1)) \<le> ?d ! (p ! m)"
      using \<open>m < j\<close> j by (intro srt [rule_format] conjI) arith+
    moreover have "?d ! (p ! j) \<le> ?d ! (p ! (j - 1))"
      using j by (intro srt [rule_format] conjI) arith+
    moreover have "p ! j < n" using ps j by (metis atLeastLessThan_iff nth_mem)
    then have "0 \<le> ?d ! (p ! j)" using xs frac_bounds(1) by (simp add: fracPart_nth)
    ultimately have "?d ! (p ! (j - 1)) = ?d ! (p ! j)" using d0 m by simp
    then show False using lam j j0 by (simp add: triangulationLambdas_nth)
  qed
  then show ?thesis using vertices_take_nth [OF p _ j xs(2), of "floorPart x"] xs v0 by simp
qed

lemma vertex_mass:
  assumes x: "descending_coords x n" and p: "descending_perm (fracPart x) p n"
    and j: "j < n" and lam: "triangulationLambdas (fracPart x) p n ! j \<noteq> 0"
  shows "dmass (vertexBelief exact_comparator N n (vertices (floorPart x) (take (n - 1) p) ! j)) = x ! 0 / of_nat N"
proof -
  let ?q = "vertices (floorPart x) (take (n - 1) p) ! j"
  have n: "0 < n" using x by (simp add: descending_coords_def)
  have "(\<Sum>i<n - 1. if 0 < ?q ! i - ?q ! Suc i then (?q ! i - ?q ! Suc i) / of_nat N else 0) =
        (\<Sum>i<n - 1. (?q ! i - ?q ! Suc i) / of_nat N)"
    using vertex_step_nonneg [OF x p j lam] by (intro sum.cong refl clip_nonneg) simp
  also have "\<dots> = (?q ! 0 - ?q ! (n - 1)) / of_nat N"
    by (simp add: sum_divide_distrib [symmetric] sum_lessThan_telescope')
  finally show ?thesis
    using dmass_vertexBelief_exact [OF n, of N ?q] clip_nonneg [OF vertex_last_nonneg [OF x p j]]
      vertex_zero_coordinate [OF x p j lam]
    by (simp add: add_divide_distrib [symmetric])
qed

lemma vertexBelief_on_grid:
  assumes x: "descending_coords x n" and p: "descending_perm (fracPart x) p n" and j: "j < n" and N: "0 < N"
  shows "of_nat N * dget (vertexBelief exact_comparator N n (vertices (floorPart x) (take (n - 1) p) ! j)) i \<in> \<int>"
proof -
  let ?q = "vertices (floorPart x) (take (n - 1) p) ! j"
  have n: "0 < n" using x by (simp add: descending_coords_def)
  have "?q ! k \<in> \<int>" if "k < n" for k by (rule vertices_integral [OF x p j that])
  then have "?q ! i - ?q ! Suc i \<in> \<int>" if "i < n - 1" using that by (simp add: Ints_diff)
  moreover have "?q ! (n - 1) \<in> \<int>" using \<open>\<And>k. k < n \<Longrightarrow> ?q ! k \<in> \<int>\<close> n by simp
  ultimately show ?thesis using N n by (simp add: dget_vertexBelief_exact)
qed

lemma keys_vertexBelief: "0 < n \<Longrightarrow> k \<in> fst ` set (vertexBelief cc N n q) \<Longrightarrow> k < n"
  by (auto simp: vertexBelief_def split: if_splits)

lemma dget_pos_key: "dist_wf d \<Longrightarrow> k \<in> fst ` set d \<Longrightarrow> 0 < dget d k"
  by (induction d) (force simp: dist_wf_Cons)+

lemma dget_mem: "dist_wf d \<Longrightarrow> (k, p) \<in> set d \<Longrightarrow> dget d k = p"
  by (induction d) (fastforce simp: dist_wf_Cons)+

lemma dmass_sum_keys: "dist_wf d \<Longrightarrow> dmass d = (\<Sum>k\<in>fst ` set d. dget d k)"
proof (induction d)
  case (Cons e d)
  obtain k v where e: "e = (k, v)" by fastforce
  have wf: "dist_wf d" and k: "k \<notin> fst ` set d" using Cons.prems e by (auto simp: dist_wf_Cons)
  have "(\<Sum>k'\<in>fst ` set d. dget ((k, v) # d) k') = (\<Sum>k'\<in>fst ` set d. dget d k')"
    using k by (intro sum.cong) auto
  then show ?case using Cons.IH [OF wf] k e by simp
qed simp

lemma matching_support_equal:
  assumes wb: "dist_wf b" and wq: "dist_wf q" and m: "dmass b = dmass q"
    and sub: "fst ` set b \<subseteq> fst ` set q" and agree: "\<forall>k \<in> fst ` set b. dget b k = dget q k"
  shows "b = q"
proof -
  let ?B = "fst ` set b" and ?Q = "fst ` set q"
  have "dmass q = (\<Sum>k\<in>?B. dget q k) + (\<Sum>k\<in>?Q - ?B. dget q k)"
    using dmass_sum_keys [OF wq] sub by (simp add: sum.subset_diff add.commute)
  moreover have "(\<Sum>k\<in>?B. dget q k) = dmass b" using dmass_sum_keys [OF wb] agree by simp
  ultimately have z: "(\<Sum>k\<in>?Q - ?B. dget q k) = 0" using m by simp
  have "?Q - ?B = {}"
  proof (rule ccontr)
    assume "?Q - ?B \<noteq> {}"
    then have "0 < (\<Sum>k\<in>?Q - ?B. dget q k)" using dget_pos_key [OF wq] by (intro sum_pos) auto
    then show False using z by simp
  qed
  then have "?Q = ?B" using sub by blast
  then have "dget b = dget q" using agree by (metis dget_notin ext)
  then show ?thesis by (rule dist_canonical [OF wb wq])
qed

lemma beliefMatches_exact:
  assumes wb: "dist_wf (beliefProbabilities b)" and wq: "dist_wf q" and m: "dmass (beliefProbabilities b) = dmass q"
  shows "beliefMatches exact_comparator obs q b \<longleftrightarrow> beliefObservation b = obs \<and> beliefProbabilities b = q"
proof
  assume bm: "beliefMatches exact_comparator obs q b"
  have "fst ` set (beliefProbabilities b) \<subseteq> fst ` set q"
    and "\<forall>k \<in> fst ` set (beliefProbabilities b). dget (beliefProbabilities b) k = dget q k"
    using bm dget_mem [OF wb] by (fastforce simp: beliefMatches_def list_all_iff exact_comparator_def)+
  then show "beliefObservation b = obs \<and> beliefProbabilities b = q"
    using bm matching_support_equal [OF wb wq m] by (simp add: beliefMatches_def)
next
  assume "beliefObservation b = obs \<and> beliefProbabilities b = q"
  then show "beliefMatches exact_comparator obs q b"
    using dget_mem [OF wq] by (force simp: beliefMatches_def list_all_iff exact_comparator_def)
qed

lemma getBeliefIdInVector_Some:
  assumes "\<forall>i < length grid. beliefId (grid ! i) = i" "getBeliefIdInVector cc grid obs q = Some r"
  shows "r < length grid \<and> beliefObservation (grid ! r) = obs"
  using assms by (auto simp: getBeliefIdInVector_def find_Some_iff beliefMatches_def)

text \<open>
  C12: For a belief over states below \<open>n\<close> with mass one, a positive
  resolution and the exact comparator of rationals,
  \<open>computeSubSimplexAndLambdas\<close> returns \<open>n\<close> vertices and \<open>n\<close> weights
  that are non-negative, sum to one, and whose weighted sum of the vertex
  beliefs is the belief itself: the belief lies in the convex hull of its
  sub-simplex, for every order \<open>getSortedIndices\<close> may give equal values.
\<close>

theorem computeSubSimplexAndLambdas_convex:
  assumes "dist_wf b" "\<forall>k \<in> fst ` set b. k < n" "dmass b = 1" "0 < N" "0 < n"
    and res: "computeSubSimplexAndLambdas exact_comparator b N n = (subSimplex, lambdas)"
  shows "length subSimplex = n \<and> length lambdas = n \<and> (\<forall>j < n. 0 \<le> lambdas ! j) \<and> (\<Sum>j<n. lambdas ! j) = 1 \<and>
         (\<forall>i. (\<Sum>j<n. lambdas ! j * dget (subSimplex ! j) i) = dget b i)"
proof -
  let ?x = "triangulationX b N n"
  let ?p = "getSortedIndices (fracPart ?x)"
  have x: "descending_coords ?x n" by (rule triangulationX_descending [OF assms(1-3,5)])
  have p: "descending_perm (fracPart ?x) ?p n" using getSortedIndices_descending [of "fracPart ?x"] by simp
  have sub: "subSimplex = map (vertexBelief exact_comparator N n) (vertices (floorPart ?x) (take (n - 1) ?p))"
    and lam: "lambdas = triangulationLambdas (fracPart ?x) ?p n"
    using res by (simp_all add: computeSubSimplexAndLambdas_def Let_def)
  have lp: "length ?p = n" using p by (simp add: descending_perm_def)
  have "0 \<le> lambdas ! j" if "j < n" for j
    using lambdas_nonneg [OF p that _ last_frac_zero [OF x p]] frac_bounds(2) lam
    by (simp add: fracPart_nth)
  moreover have "(\<Sum>j<n. lambdas ! j * dget (subSimplex ! j) i) = dget b i" for i
    using triangulation_combination [OF x p, of N i] triangulationX_differences [OF assms(1,2,4,5), of i] sub lam lp assms(5)
    by simp
  ultimately show ?thesis using lambdas_sum [OF assms(5)] sub lam lp assms(5) by simp
qed

theorem computeSubSimplexAndLambdas_convex_witness:
  "computeSubSimplexAndLambdas exact_comparator [(0, 1/2), (1, 1/2)] 3 2 =
      ([[(0, 2/3), (1, 1/3)], [(0, 1/3), (1, 2/3)]], [1/2, 1/2]) \<and>
    (\<forall>i. (\<Sum>j<2. [1/2, 1/2] ! j * dget ([[(0, 2/3), (1, 1/3)], [(0, 1/3), (1, 2/3)]] ! j) i) =
         dget [(0, 1/2), (1, 1/2)] i)"
proof -
  have eq: "computeSubSimplexAndLambdas exact_comparator [(0, 1/2), (1, 1/2)] 3 2 =
      ([[(0, 2/3), (1, 1/3)], [(0, 1/3), (1, 2/3)]], [1/2, 1/2])"
    by code_simp
  show ?thesis using computeSubSimplexAndLambdas_convex [OF _ _ _ _ _ eq] eq by (simp add: dist_wf_Cons)
qed

text \<open>
  C18: Under the same hypotheses, every vertex of the sub-simplex whose weight
  is not zero is itself a belief on the grid of the resolution: a
  well-formed distribution over states below \<open>n\<close>, of mass one, whose
  probabilities are multiples of one over the resolution. These are the
  vertices the refinement loop puts into the belief grid.
\<close>

theorem computeSubSimplexAndLambdas_vertices_beliefs:
  assumes "dist_wf b" "\<forall>k \<in> fst ` set b. k < n" "dmass b = 1" "0 < N" "0 < n"
    and res: "computeSubSimplexAndLambdas exact_comparator b N n = (subSimplex, lambdas)"
  shows "\<forall>j < n. lambdas ! j \<noteq> 0 \<longrightarrow>
           dist_wf (subSimplex ! j) \<and> dmass (subSimplex ! j) = 1 \<and> (\<forall>k \<in> fst ` set (subSimplex ! j). k < n) \<and>
           (\<forall>i. of_nat N * dget (subSimplex ! j) i \<in> \<int>)"
proof (intro allI impI)
  fix j assume j: "j < n" and lam: "lambdas ! j \<noteq> 0"
  let ?x = "triangulationX b N n"
  let ?p = "getSortedIndices (fracPart ?x)"
  have x: "descending_coords ?x n" by (rule triangulationX_descending [OF assms(1-3,5)])
  have p: "descending_perm (fracPart ?x) ?p n" using getSortedIndices_descending [of "fracPart ?x"] by simp
  have sj: "subSimplex ! j = vertexBelief exact_comparator N n (vertices (floorPart ?x) (take (n - 1) ?p) ! j)"
    and lam': "triangulationLambdas (fracPart ?x) ?p n ! j \<noteq> 0"
    using res lam j p by (auto simp: computeSubSimplexAndLambdas_def Let_def descending_perm_def)
  have x0: "?x ! 0 = of_nat N" using assms by (simp add: triangulationX_nth massFrom_zero)
  show "dist_wf (subSimplex ! j) \<and> dmass (subSimplex ! j) = 1 \<and> (\<forall>k \<in> fst ` set (subSimplex ! j). k < n) \<and>
        (\<forall>i. of_nat N * dget (subSimplex ! j) i \<in> \<int>)"
    using dist_wf_vertexBelief_exact [OF assms(4)] vertex_mass [OF x p j lam'] x0 assms(4,5)
      keys_vertexBelief vertexBelief_on_grid [OF x p j assms(4)]
    unfolding sj by simp
qed

theorem computeSubSimplexAndLambdas_vertices_beliefs_witness:
  "dist_wf [(0, 1/2), (1, 1/2)] \<and> dmass [(0, 1/2), (1, 1/2)] = 1 \<and>
   computeSubSimplexAndLambdas exact_comparator [(0, 1/2), (1, 1/2)] 3 2 =
      ([[(0, 2/3), (1, 1/3)], [(0, 1/3), (1, 2/3)]], [1/2, 1/2]) \<and>
   dist_wf [(0, 2/3), (1, 1/3)] \<and> dmass [(0, 2/3), (1, 1/3)] = 1 \<and>
   (\<forall>i. of_nat 3 * dget ([[(0, 2/3), (1, 1/3)], [(0, 1/3), (1, 2/3)]] ! 0) i \<in> \<int>)"
proof -
  have eq: "computeSubSimplexAndLambdas exact_comparator [(0, 1/2), (1, 1/2)] 3 2 =
      ([[(0, 2/3), (1, 1/3)], [(0, 1/3), (1, 2/3)]], [1/2, 1/2])"
    by code_simp
  have "dist_wf (([[(0, 2/3), (1, 1/3)], [(0, 1/3), (1, 2/3)]] :: distribution list) ! 0) \<and>
        dmass (([[(0, 2/3), (1, 1/3)], [(0, 1/3), (1, 2/3)]] :: distribution list) ! 0) = 1 \<and>
        (\<forall>i. of_nat 3 * dget ([[(0, 2/3), (1, 1/3)], [(0, 1/3), (1, 2/3)]] ! 0) i \<in> \<int>)"
    using computeSubSimplexAndLambdas_vertices_beliefs [OF _ _ _ _ _ eq] by (simp add: dist_wf_Cons)
  then show ?thesis using eq by (simp add: dist_wf_Cons)
qed

text \<open>
  C19: With the exact comparator, and a grid and a query that are
  well-formed beliefs of mass one, the one-sided test of
  \<open>getBeliefIdInVector\<close> (every entry of the stored belief occurs in the
  query with an equal probability) finds exactly the first stored belief
  with the observation that is equal to the query.
\<close>

theorem getBeliefIdInVector_exact:
  assumes "\<forall>b \<in> set grid. dist_wf (beliefProbabilities b) \<and> dmass (beliefProbabilities b) = 1"
    and "dist_wf q" "dmass q = 1"
  shows "getBeliefIdInVector exact_comparator grid obs q =
           map_option beliefId (find (\<lambda>b. beliefObservation b = obs \<and> beliefProbabilities b = q) grid)"
proof -
  have "find (beliefMatches exact_comparator obs q) grid =
        find (\<lambda>b. beliefObservation b = obs \<and> beliefProbabilities b = q) grid"
    using assms beliefMatches_exact by (intro find_cong) auto
  then show ?thesis by (simp add: getBeliefIdInVector_def)
qed

theorem getBeliefIdInVector_exact_witness:
  "dist_wf [(0, 1/2), (1, 1/2)] \<and> dmass [(0, 1/2), (1, 1/2)] = 1 \<and>
   getBeliefIdInVector exact_comparator
     [ex_belief0, \<lparr>beliefId = 1, beliefObservation = 0, beliefProbabilities = [(0, 1/2), (1, 1/2)]\<rparr>]
     0 [(0, 1/2), (1, 1/2)] = Some 1"
proof -
  have "getBeliefIdInVector exact_comparator
          [ex_belief0, \<lparr>beliefId = 1, beliefObservation = 0, beliefProbabilities = [(0, 1/2), (1, 1/2)]\<rparr>]
          0 [(0, 1/2), (1, 1/2)] =
        map_option beliefId (find (\<lambda>b. beliefObservation b = 0 \<and> beliefProbabilities b = [(0, 1/2), (1, 1/2)])
          [ex_belief0, \<lparr>beliefId = 1, beliefObservation = 0, beliefProbabilities = [(0, 1/2), (1, 1/2)]\<rparr>])"
    by (rule getBeliefIdInVector_exact) (simp_all add: ex_belief0_def dist_wf_Cons)
  then show ?thesis by (simp add: ex_belief0_def dist_wf_Cons)
qed

text \<open>
  C33: Called with the next free id, \<open>getBeliefAfterActionAndObservation\<close>
  keeps the belief list indexed by id and the target flags in step with the
  list (each flag says whether the belief's observation is a target), only
  appends, and returns the id of a belief of the list with the observation.
\<close>

theorem getBeliefAfterActionAndObservation_extends:
  assumes ids: "\<forall>i < length L. beliefId (L ! i) = i"
    and tgt: "length T = length L" "\<forall>i < length L. T ! i = (beliefObservation (L ! i) \<in> tobs)"
    and r: "getBeliefAfterActionAndObservation cc m L T tobs b a obs (length L) = (res, L', T')"
  shows "(\<forall>i < length L'. beliefId (L' ! i) = i) \<and> length T' = length L' \<and>
         (\<forall>i < length L'. T' ! i = (beliefObservation (L' ! i) \<in> tobs)) \<and>
         take (length L) L' = L \<and> res < length L' \<and> beliefObservation (L' ! res) = obs"
proof -
  define q where "q = normalize (postProbabilities m b a (\<lambda>(column, value). getObservation m column = obs))"
  show ?thesis
  proof (cases "getBeliefIdInVector cc L obs q")
    case (Some x)
    then show ?thesis using r ids tgt getBeliefIdInVector_Some [OF ids Some]
      by (simp add: getBeliefAfterActionAndObservation_def q_def [symmetric])
  next
    case None
    then have "res = length L" "L' = L @ [\<lparr>beliefId = length L, beliefObservation = obs, beliefProbabilities = q\<rparr>]"
      "T' = T @ [obs \<in> tobs]"
      using r by (auto simp: getBeliefAfterActionAndObservation_def q_def [symmetric])
    then show ?thesis using ids tgt by (simp add: nth_append less_Suc_eq)
  qed
qed

theorem getBeliefAfterActionAndObservation_extends_witness:
  "getBeliefAfterActionAndObservation exact_comparator ex_belief_pomdp [ex_belief0] [False] {1} ex_belief0 0 0 1 =
     (1, [ex_belief0, \<lparr>beliefId = 1, beliefObservation = 0, beliefProbabilities = [(1, 1)]\<rparr>], [False, False]) \<and>
   beliefId ([ex_belief0, \<lparr>beliefId = 1, beliefObservation = 0, beliefProbabilities = [(1, 1)]\<rparr>] ! 0) = 0 \<and>
   beliefId ([ex_belief0, \<lparr>beliefId = 1, beliefObservation = 0, beliefProbabilities = [(1, 1)]\<rparr>] ! 1) = 1 \<and>
   beliefObservation ([ex_belief0, \<lparr>beliefId = 1, beliefObservation = 0, beliefProbabilities = [(1, 1)]\<rparr>] ! 1) = 0"
proof -
  have eq: "getBeliefAfterActionAndObservation exact_comparator ex_belief_pomdp [ex_belief0] [False] {1} ex_belief0 0 0
              (length [ex_belief0]) =
     (1, [ex_belief0, \<lparr>beliefId = 1, beliefObservation = 0, beliefProbabilities = [(1, 1)]\<rparr>], [False, False])"
    by code_simp
  have h: "\<forall>i < length [ex_belief0]. beliefId ([ex_belief0] ! i) = i"
    "\<forall>i < length [ex_belief0]. [False] ! i = (beliefObservation ([ex_belief0] ! i) \<in> {1})"
    by (simp_all add: ex_belief0_def)
  show ?thesis using getBeliefAfterActionAndObservation_extends [OF h(1) _ h(2) eq] eq by (simp add: All_less_Suc)
qed

end
