(* ===== verification/UnderApprox.thy ===== *)
theory UnderApprox
  imports Belief RewardModel
begin

text \<open>
  The under-approximation of the approximate POMDP model checker over an
  explicit belief list (\<open>computeUnderapproximation\<close>, lines 822--950 of
  \<open>src/src/storm-pomdp/modelchecker/ApproximatePOMDPModelchecker.cpp\<close>):
  a breadth-first exploration of the beliefs reachable from the initial
  belief, which gives every explored belief a state of an MDP (states 0 and 1
  are the sink and the target), cuts the exploration off once more than
  \<open>maxModelSize\<close> beliefs were discovered, and hands the MDP to a sparse
  model checker, here the parameter \<open>checker\<close>. The exploration's local
  variables are the record \<open>uaState\<close>, the \<open>while\<close> loop is a
  \<open>partial_function (option)\<close> whose termination is proved, and the
  \<open>std::out_of_range\<close> of \<open>bimap::left.at\<close> is the error value
  \<open>OutOfRange\<close>. The reward model of the MDP is the record of theory
  \<open>RewardModel\<close>, filled by its \<open>setStateActionReward\<close>.
\<close>

section \<open>The exploration\<close>

text \<open>\<open>Pomdp::getStatesWithObservation\<close> (outside the repository): the states with the observation, ascending.\<close>

definition getStatesWithObservation :: "'a pomdp_scheme \<Rightarrow> nat \<Rightarrow> state list" where
  "getStatesWithObservation m observation = filter (\<lambda>s. getObservation m s = observation) [0..<getNumberOfStates m]"

text \<open>\<open>map[k] = v\<close> on a \<open>std::map\<close>: overwrite the entry of \<open>k\<close>, or insert it in key order.\<close>

fun setProbability :: "distribution \<Rightarrow> nat \<Rightarrow> prob \<Rightarrow> distribution" where
  "setProbability [] k v = [(k, v)]"
| "setProbability ((k', v') # d) k v =
     (if k < k' then (k, v) # (k', v') # d
      else if k = k' then (k, v) # d
      else (k', v') # setProbability d k v)"

text \<open>
  The \<open>boost::bimap\<close> from belief ids to MDP states, as its list of pairs:
  \<open>insert\<close> does nothing when either side is already present.
\<close>

definition bimapInsert :: "(nat \<times> nat) list \<Rightarrow> nat \<Rightarrow> nat \<Rightarrow> (nat \<times> nat) list" where
  "bimapInsert bm l r = (if l \<in> fst ` set bm \<or> r \<in> snd ` set bm then bm else bm @ [(l, r)])"

datatype ua_error = OutOfRange | RowOutOfRange | RewardFailure reward_error

definition bimapLeftAt :: "(nat \<times> nat) list \<Rightarrow> nat \<Rightarrow> ua_error + nat" where
  "bimapLeftAt bm l = (case map_of bm l of Some r \<Rightarrow> Inr r | None \<Rightarrow> Inl OutOfRange)"

record uaState =
  beliefList :: "belief list"
  beliefIsTarget :: "bool list"
  visitedBelieves :: "nat set"
  beliefsToBeExpanded :: "nat list"
  beliefStateMap :: "(nat \<times> nat) list"
  transitions :: "distribution list list"
  targetStates :: "nat list"
  stateId :: nat
  nextId :: nat
  counter :: nat

text \<open>
  The body of the loop over the observation probabilities of an action
  (lines 865--876): the successor belief, a fresh MDP state and a place in
  the queue for a belief not visited before, and the transition to the
  successor's state with the observation's probability.
\<close>

definition exploreObservation ::
    "comparator \<Rightarrow> pomdp \<Rightarrow> nat set \<Rightarrow> nat \<Rightarrow> nat \<Rightarrow> nat \<times> prob \<Rightarrow> uaState \<times> distribution
     \<Rightarrow> ua_error + uaState \<times> distribution" where
  "exploreObservation cc m targetObservations currentBeliefId action op acc =
     (case (op, acc) of ((observation, p), (s, row)) \<Rightarrow>
       (case getBeliefAfterActionAndObservation cc m (beliefList s) (beliefIsTarget s) targetObservations
               (beliefList s ! currentBeliefId) action observation (nextId s) of
          (nextBeliefId, bl, bt) \<Rightarrow>
            (let s1 = s\<lparr>beliefList := bl, beliefIsTarget := bt, nextId := length bl\<rparr>;
                 s2 = (if nextBeliefId \<notin> visitedBelieves s1
                       then s1\<lparr>visitedBelieves := insert nextBeliefId (visitedBelieves s1),
                               beliefStateMap := bimapInsert (beliefStateMap s1) nextBeliefId (stateId s1),
                               stateId := Suc (stateId s1),
                               beliefsToBeExpanded := beliefsToBeExpanded s1 @ [nextBeliefId],
                               counter := Suc (counter s1)\<rparr>
                       else s1)
             in sbind (bimapLeftAt (beliefStateMap s2) nextBeliefId)
                  (\<lambda>st. Inr (s2, setProbability row st p)))))"

text \<open>One action of the belief (lines 861--879): its row of transitions, appended to the storage.\<close>

definition exploreAction ::
    "comparator \<Rightarrow> pomdp \<Rightarrow> nat set \<Rightarrow> nat \<Rightarrow> nat \<Rightarrow> uaState \<times> distribution list
     \<Rightarrow> ua_error + uaState \<times> distribution list" where
  "exploreAction cc m targetObservations currentBeliefId action acc =
     (case acc of (s, storage) \<Rightarrow>
        sbind (sfold (exploreObservation cc m targetObservations currentBeliefId action)
                 (computeObservationProbabilitiesAfterAction m (beliefList s ! currentBeliefId) action) (s, []))
          (\<lambda>(s', row). Inr (s', storage @ [row])))"

text \<open>
  One iteration of the \<open>while\<close> loop (lines 848--882): a target belief gets a
  self-loop, a belief found after the cut-off a transition to the sink 0, any
  other belief one row per action; then the belief leaves the queue.
\<close>

definition underApproxStep :: "comparator \<Rightarrow> pomdp \<Rightarrow> nat set \<Rightarrow> nat \<Rightarrow> uaState \<Rightarrow> ua_error + uaState" where
  "underApproxStep cc m targetObservations maxModelSize s =
     (let currentBeliefId = hd (beliefsToBeExpanded s);
          numChoices = getNumberOfChoices m
            (hd (getStatesWithObservation m (beliefObservation (beliefList s ! currentBeliefId))))
      in sbind
           (if beliefIsTarget s ! currentBeliefId then
              sbind (bimapLeftAt (beliefStateMap s) currentBeliefId)
                (\<lambda>st. Inr (s\<lparr>targetStates := targetStates s @ [st], transitions := transitions s @ [[[(st, 1)]]]\<rparr>))
            else if maxModelSize < counter s then
              Inr (s\<lparr>transitions := transitions s @ [[[(0, 1)]]]\<rparr>)
            else
              sbind (sfold (exploreAction cc m targetObservations currentBeliefId) [0..<numChoices] (s, []))
                (\<lambda>(s', storage). Inr (s'\<lparr>transitions := transitions s' @ [storage]\<rparr>)))
           (\<lambda>s'. Inr (s'\<lparr>beliefsToBeExpanded := tl (beliefsToBeExpanded s')\<rparr>)))"

partial_function (option) exploreBeliefs ::
    "comparator \<Rightarrow> pomdp \<Rightarrow> nat set \<Rightarrow> nat \<Rightarrow> uaState \<Rightarrow> (ua_error + uaState) option" where
  "exploreBeliefs cc m targetObservations maxModelSize s =
     (if beliefsToBeExpanded s = [] then Some (Inr s)
      else case underApproxStep cc m targetObservations maxModelSize s of
             Inl e \<Rightarrow> Some (Inl e)
           | Inr s' \<Rightarrow> exploreBeliefs cc m targetObservations maxModelSize s')"

text \<open>The local variables before the loop (lines 829--845).\<close>

definition initialUaState :: "belief list \<Rightarrow> bool list \<Rightarrow> nat \<Rightarrow> uaState" where
  "initialUaState bl bt initialBeliefId =
     \<lparr>beliefList = bl, beliefIsTarget = bt, visitedBelieves = {initialBeliefId},
      beliefsToBeExpanded = [initialBeliefId], beliefStateMap = [(initialBeliefId, 2)],
      transitions = [[[(0, 1)]], [[(1, 1)]]], targetStates = [1], stateId = 3,
      nextId = length bl, counter = 0\<rparr>"

section \<open>The under-approximation MDP and its value\<close>

text \<open>
  The state-action rewards of the MDP (lines 909--923, and the same code at
  lines 751--765 for the over-approximation): a zero vector over
  the rows, and for every explored belief (in the order of the bimap's left
  view, ascending belief ids) and every action of its MDP state the expected
  reward of the action under the belief, read through the choice index of the
  first state with the belief's observation.
\<close>

definition underApproxRewards ::
    "pomdp \<Rightarrow> (state \<Rightarrow> nat \<Rightarrow> rat) \<Rightarrow> mdp \<Rightarrow> belief list \<Rightarrow> (nat \<times> nat) list \<Rightarrow> ua_error + rewardModel" where
  "underApproxRewards m totalStateActionReward underApproxMdp bl bsm =
     sfold (\<lambda>(bid, st) rm.
              (let currentBelief = bl ! bid;
                   representativeState = hd (getStatesWithObservation m (beliefObservation currentBelief))
               in sfold (\<lambda>action rm. map_sum RewardFailure id
                           (setStateActionReward rm (getChoiceIndex underApproxMdp st action)
                              (getRewardAfterAction totalStateActionReward (getChoiceIndex m representativeState action)
                                 (beliefProbabilities currentBelief))))
                    [0..<length (choicesOf underApproxMdp st)] rm))
       (sort_key fst bsm)
       \<lparr>optionalStateRewardVector = None,
        optionalStateActionRewardVector = Some (replicate (numberOfChoices underApproxMdp) 0),
        optionalTransitionRewardMatrix = None\<rparr>"

text \<open>
  The MDP handed to the model checker (lines 894--924): the matrix of the
  explored transitions (with the trivial row grouping when every state has
  one row), the target states, and the reward model when rewards are
  computed.
\<close>

definition underApproxModel ::
    "comparator \<Rightarrow> pomdp \<Rightarrow> (state \<Rightarrow> nat \<Rightarrow> rat) \<Rightarrow> belief list \<Rightarrow> bool list \<Rightarrow> nat set \<Rightarrow> nat \<Rightarrow> bool \<Rightarrow> nat
     \<Rightarrow> (ua_error + mdp \<times> nat list \<times> rewardModel option \<times> uaState) option" where
  "underApproxModel cc m totalStateActionReward bl bt targetObservations initialBeliefId computeRewards maxModelSize =
     map_option (\<lambda>r. sbind r (\<lambda>s.
       (let transitionMatrix = buildTransitionMatrix (transitions s);
            underApproxMdp = (if numberOfChoices transitionMatrix = numberOfStates transitionMatrix
                              then transitionMatrix\<lparr>rowGroupIndices := [0..<Suc (numberOfChoices transitionMatrix)]\<rparr>
                              else transitionMatrix)
        in if computeRewards
           then sbind (underApproxRewards m totalStateActionReward underApproxMdp (beliefList s) (beliefStateMap s))
                  (\<lambda>rm. Inr (underApproxMdp, targetStates s, Some rm, s))
           else Inr (underApproxMdp, targetStates s, None, s))))
       (exploreBeliefs cc m targetObservations maxModelSize (initialUaState bl bt initialBeliefId))"

record underApproxComponents =
  underApproxValue :: rat
  underApproxMap :: "rat list"
  underApproxBeliefStateMap :: "(nat \<times> nat) list"

text \<open>
  \<open>computeUnderapproximation\<close>: the sparse engine's values of
  \<open>Pmin/Pmax/Rmin/Rmax=? [F "target"]\<close> on the MDP with state 0 labelled
  \<open>init\<close> (the parameter \<open>checker\<close>, for all states), read at the
  initial belief's state; the belief list and the target flags are returned
  as the code updates them in place.
\<close>

definition computeUnderapproximation ::
    "comparator \<Rightarrow> pomdp \<Rightarrow> (state \<Rightarrow> nat \<Rightarrow> rat)
     \<Rightarrow> (mdp \<Rightarrow> nat set \<Rightarrow> nat list \<Rightarrow> rewardModel option \<Rightarrow> bool \<Rightarrow> bool \<Rightarrow> rat list)
     \<Rightarrow> belief list \<Rightarrow> bool list \<Rightarrow> nat set \<Rightarrow> nat \<Rightarrow> bool \<Rightarrow> bool \<Rightarrow> nat
     \<Rightarrow> (ua_error + underApproxComponents \<times> belief list \<times> bool list) option" where
  "computeUnderapproximation cc m totalStateActionReward checker bl bt targetObservations initialBeliefId
       minimize computeRewards maxModelSize =
     map_option (\<lambda>r. sbind r (\<lambda>(underApproxMdp, targets, rewards, s).
       (let underApproxResultMap = checker underApproxMdp {0} targets rewards minimize computeRewards
        in sbind (bimapLeftAt (beliefStateMap s) initialBeliefId)
             (\<lambda>st. Inr (\<lparr>underApproxValue = underApproxResultMap ! st, underApproxMap = underApproxResultMap,
                         underApproxBeliefStateMap = beliefStateMap s\<rparr>,
                        beliefList s, beliefIsTarget s)))))
       (underApproxModel cc m totalStateActionReward bl bt targetObservations initialBeliefId computeRewards maxModelSize)"

section \<open>Invariants of the exploration\<close>

text \<open>
  \<open>ua_inv\<close>: the visited beliefs are the bimap's left side, every MDP state
  handed out is below \<open>stateId\<close>, the queue holds exactly the beliefs of
  the states whose row groups come next (so each row group lands at its
  belief's state), and every column and target state is below \<open>stateId\<close>.
  \<open>grows\<close>: a step leaves the transitions as they are, appends to the queue
  as many beliefs as it counts, and appends to the bimap.
  \<open>rows_below\<close>: the columns of a row group lie below a bound.
\<close>

definition ua_inv :: "uaState \<Rightarrow> bool" where
  "ua_inv s \<longleftrightarrow> visitedBelieves s = fst ` set (beliefStateMap s) \<and>
     (\<forall>p \<in> set (beliefStateMap s). snd p < stateId s) \<and>
     length (transitions s) \<le> stateId s \<and>
     map (map_of (beliefStateMap s)) (beliefsToBeExpanded s) = map Some [length (transitions s)..<stateId s] \<and>
     (\<forall>g \<in> set (transitions s). \<forall>r \<in> set g. \<forall>e \<in> set r. fst e < stateId s) \<and>
     (\<forall>t \<in> set (targetStates s). t < stateId s)"

definition grows :: "uaState \<Rightarrow> uaState \<Rightarrow> bool" where
  "grows s s' \<longleftrightarrow> transitions s' = transitions s \<and>
     (\<exists>new. beliefsToBeExpanded s' = beliefsToBeExpanded s @ new \<and> counter s' = counter s + length new) \<and>
     (\<exists>ys. beliefStateMap s' = beliefStateMap s @ ys)"

definition rows_below :: "nat \<Rightarrow> distribution list \<Rightarrow> bool" where
  "rows_below n storage \<longleftrightarrow> (\<forall>r \<in> set storage. fst ` set r \<subseteq> {..<n})"

lemma bimapInsert_fresh:
  "l \<notin> fst ` set bm \<Longrightarrow> \<forall>p \<in> set bm. snd p < r \<Longrightarrow> bimapInsert bm l r = bm @ [(l, r)]"
  by (auto simp: bimapInsert_def)

lemma map_of_snoc_fresh:
  "l \<notin> fst ` set bm \<Longrightarrow> map_of (bm @ [(l, r)]) x = (if x = l then Some r else map_of bm x)"
  by (induction bm) auto

lemma bimapLeftAt_key: "x \<in> fst ` set bm \<Longrightarrow> \<exists>r. bimapLeftAt bm x = Inr r \<and> (x, r) \<in> set bm"
  by (cases "map_of bm x") (auto simp: bimapLeftAt_def map_of_eq_None_iff dest: map_of_SomeD)

lemma keys_setProbability [simp]: "fst ` set (setProbability d k v) = insert k (fst ` set d)"
  by (induction d k v rule: setProbability.induct) auto

lemma exploreObservation_unfold:
  assumes "getBeliefAfterActionAndObservation cc m (beliefList s) (beliefIsTarget s) tobs
             (beliefList s ! cur) a observation (nextId s) = (nb, bl, bt)"
  shows "exploreObservation cc m tobs cur a (observation, p) (s, row) =
           (let s1 = s\<lparr>beliefList := bl, beliefIsTarget := bt, nextId := length bl\<rparr>;
                s2 = (if nb \<notin> visitedBelieves s1
                      then s1\<lparr>visitedBelieves := insert nb (visitedBelieves s1),
                              beliefStateMap := bimapInsert (beliefStateMap s1) nb (stateId s1),
                              stateId := Suc (stateId s1),
                              beliefsToBeExpanded := beliefsToBeExpanded s1 @ [nb],
                              counter := Suc (counter s1)\<rparr>
                      else s1)
            in sbind (bimapLeftAt (beliefStateMap s2) nb) (\<lambda>st. Inr (s2, setProbability row st p)))"
  using assms by (simp add: exploreObservation_def)

lemma exploreObservation_counts:
  assumes "exploreObservation cc m tobs cur a op (s, row) = Inr (s', row')"
  shows "transitions s' = transitions s \<and>
         (\<exists>new. beliefsToBeExpanded s' = beliefsToBeExpanded s @ new \<and> counter s' = counter s + length new) \<and>
         (\<exists>ys. beliefStateMap s' = beliefStateMap s @ ys)"
proof -
  obtain observation p where op: "op = (observation, p)" by fastforce
  obtain nb bl bt where gb: "getBeliefAfterActionAndObservation cc m (beliefList s) (beliefIsTarget s) tobs
             (beliefList s ! cur) a observation (nextId s) = (nb, bl, bt)" by (metis prod_cases3)
  show ?thesis using assms unfolding op exploreObservation_unfold [OF gb]
    by (auto simp: Let_def sbind_eq_Inr bimapInsert_def split: if_splits)
qed

lemma grows_refl: "grows s s"
  by (auto simp: grows_def)

lemma grows_trans: "grows s t \<Longrightarrow> grows t u \<Longrightarrow> grows s u"
  by (fastforce simp: grows_def)

lemma exploreAction_grows:
  assumes "exploreAction cc m tobs cur a (s, storage) = Inr (s', storage')"
  shows "grows s s'"
proof -
  obtain t row where f: "sfold (exploreObservation cc m tobs cur a)
      (computeObservationProbabilitiesAfterAction m (beliefList s ! cur) a) (s, []) = Inr (t, row)" and t: "t = s'"
    using assms by (auto simp: exploreAction_def sbind_eq_Inr)
  have "grows s (fst (t, row))"
    using f by (rule sfold_invariant) (auto simp: grows_refl intro: grows_trans
                  dest!: exploreObservation_counts [unfolded grows_def [symmetric], rotated])
  then show ?thesis using t by simp
qed

lemma sfold_exploreAction_grows:
  assumes "sfold (exploreAction cc m tobs cur) as (s, storage) = Inr (s', storage')"
  shows "grows s s'"
proof -
  have "grows s (fst (s', storage'))"
    using assms by (rule sfold_invariant) (auto simp: grows_refl intro: grows_trans dest!: exploreAction_grows)
  then show ?thesis by simp
qed

lemma underApproxStep_decreases:
  assumes q: "beliefsToBeExpanded s \<noteq> []" and st: "underApproxStep cc m tobs mx s = Inr s'"
  shows "(counter s' = counter s \<and> length (beliefsToBeExpanded s') < length (beliefsToBeExpanded s)) \<or>
         (counter s < counter s' \<and> counter s \<le> mx)"
proof (cases "beliefIsTarget s ! hd (beliefsToBeExpanded s)")
  case True
  then show ?thesis using st q by (auto simp: underApproxStep_def Let_def sbind_eq_Inr)
next
  case False
  show ?thesis
  proof (cases "mx < counter s")
    case True
    then show ?thesis using st q False by (auto simp: underApproxStep_def Let_def)
  next
    case nc: False
    then obtain as s'' storage where f: "sfold (exploreAction cc m tobs (hd (beliefsToBeExpanded s))) as (s, []) = Inr (s'', storage)"
      and s': "s' = s''\<lparr>transitions := transitions s'' @ [storage], beliefsToBeExpanded := tl (beliefsToBeExpanded s'')\<rparr>"
      using st False by (auto simp: underApproxStep_def Let_def sbind_eq_Inr)
    have "grows s s''" by (rule sfold_exploreAction_grows [OF f])
    then show ?thesis using s' q nc unfolding grows_def by (cases "counter s < counter s''") auto
  qed
qed

lemma exploreBeliefs_total:
  assumes "P s"
    and step: "\<And>t t'. P t \<Longrightarrow> beliefsToBeExpanded t \<noteq> [] \<Longrightarrow> underApproxStep cc m tobs mx t = Inr t' \<Longrightarrow> P t'"
  shows "\<exists>r. exploreBeliefs cc m tobs mx s = Some r \<and>
           (\<forall>t. r = Inr t \<longrightarrow> P t \<and> beliefsToBeExpanded t = []) \<and>
           (\<forall>e. r = Inl e \<longrightarrow> (\<exists>t. P t \<and> beliefsToBeExpanded t \<noteq> [] \<and> underApproxStep cc m tobs mx t = Inl e))"
  using assms(1)
proof (induction s rule: wf_induct [OF wf_measures [of "[\<lambda>s. Suc mx - counter s, \<lambda>s. length (beliefsToBeExpanded s)]"]])
  case (1 s)
  show ?case
  proof (cases "beliefsToBeExpanded s = []")
    case True
    then show ?thesis using 1(2) by (simp add: exploreBeliefs.simps)
  next
    case False
    show ?thesis
    proof (cases "underApproxStep cc m tobs mx s")
      case (Inl e)
      then show ?thesis using 1(2) False by (subst exploreBeliefs.simps) auto
    next
      case (Inr s')
      have "(s', s) \<in> measures [\<lambda>s. Suc mx - counter s, \<lambda>s. length (beliefsToBeExpanded s)]"
        using underApproxStep_decreases [OF False Inr] by auto
      then have "\<exists>r. exploreBeliefs cc m tobs mx s' = Some r \<and>
           (\<forall>t. r = Inr t \<longrightarrow> P t \<and> beliefsToBeExpanded t = []) \<and>
           (\<forall>e. r = Inl e \<longrightarrow> (\<exists>t. P t \<and> beliefsToBeExpanded t \<noteq> [] \<and> underApproxStep cc m tobs mx t = Inl e))"
        using 1(1) step [OF 1(2) False Inr] by blast
      then show ?thesis using False Inr by (subst exploreBeliefs.simps) simp
    qed
  qed
qed

lemma ua_inv_beliefs [simp]:
  "ua_inv (s\<lparr>beliefList := bl, beliefIsTarget := bt, nextId := n\<rparr>) = ua_inv s"
  by (simp add: ua_inv_def)

lemma ua_inv_queue_head:
  assumes "ua_inv s" "beliefsToBeExpanded s \<noteq> []"
  shows "map_of (beliefStateMap s) (hd (beliefsToBeExpanded s)) = Some (length (transitions s))"
    and "length (transitions s) < stateId s"
proof -
  have m: "map (map_of (beliefStateMap s)) (beliefsToBeExpanded s) = map Some [length (transitions s)..<stateId s]"
    using assms(1) by (simp add: ua_inv_def)
  then have "[length (transitions s)..<stateId s] \<noteq> []" using assms(2) by (metis Nil_is_map_conv)
  then show "length (transitions s) < stateId s" by simp
  then show "map_of (beliefStateMap s) (hd (beliefsToBeExpanded s)) = Some (length (transitions s))"
    using arg_cong [OF m, of hd] assms(2) by (simp add: hd_map upt_rec)
qed

lemma ua_inv_fresh:
  assumes inv: "ua_inv s" and nb: "nb \<notin> visitedBelieves s"
  shows "ua_inv (s\<lparr>visitedBelieves := insert nb (visitedBelieves s),
                   beliefStateMap := beliefStateMap s @ [(nb, stateId s)], stateId := Suc (stateId s),
                   beliefsToBeExpanded := beliefsToBeExpanded s @ [nb], counter := Suc (counter s)\<rparr>)"
proof -
  have keys: "visitedBelieves s = fst ` set (beliefStateMap s)" and le: "length (transitions s) \<le> stateId s"
    and m: "map (map_of (beliefStateMap s)) (beliefsToBeExpanded s) = map Some [length (transitions s)..<stateId s]"
    using inv by (simp_all add: ua_inv_def)
  have fresh: "nb \<notin> fst ` set (beliefStateMap s)" using nb keys by simp
  have "x \<noteq> nb" if "x \<in> set (beliefsToBeExpanded s)" for x
  proof -
    have "map_of (beliefStateMap s) x \<noteq> None" using m that by (auto simp: list_eq_iff_nth_eq in_set_conv_nth)
    then show ?thesis using fresh by (auto simp: map_of_eq_None_iff)
  qed
  then have "map (map_of (beliefStateMap s @ [(nb, stateId s)])) (beliefsToBeExpanded s) =
             map (map_of (beliefStateMap s)) (beliefsToBeExpanded s)"
    by (simp del: map_of_append add: map_of_snoc_fresh [OF fresh])
  then show ?thesis using inv le m fresh
    by (auto simp del: map_of_append simp: ua_inv_def map_of_snoc_fresh less_Suc_eq)
qed

lemma exploreObservation_inv:
  assumes inv: "ua_inv s" and row: "fst ` set row \<subseteq> {..<stateId s}"
  shows "\<exists>s' row'. exploreObservation cc m tobs cur a op (s, row) = Inr (s', row') \<and> ua_inv s' \<and>
           fst ` set row' \<subseteq> {..<stateId s'} \<and> stateId s \<le> stateId s'"
proof -
  obtain observation p where op: "op = (observation, p)" by fastforce
  obtain nb bl bt where gb: "getBeliefAfterActionAndObservation cc m (beliefList s) (beliefIsTarget s) tobs
             (beliefList s ! cur) a observation (nextId s) = (nb, bl, bt)" by (metis prod_cases3)
  let ?s1 = "s\<lparr>beliefList := bl, beliefIsTarget := bt, nextId := length bl\<rparr>"
  have keys: "visitedBelieves s = fst ` set (beliefStateMap s)" and below: "\<forall>p \<in> set (beliefStateMap s). snd p < stateId s"
    using inv by (simp_all add: ua_inv_def)
  show ?thesis
  proof (cases "nb \<in> visitedBelieves s")
    case True
    then obtain st where st: "bimapLeftAt (beliefStateMap s) nb = Inr st" "(nb, st) \<in> set (beliefStateMap s)"
      using bimapLeftAt_key keys by blast
    then have "st < stateId s" using below by fastforce
    then show ?thesis using True st inv row unfolding op exploreObservation_unfold [OF gb] by (simp add: Let_def)
  next
    case False
    let ?s2 = "?s1\<lparr>visitedBelieves := insert nb (visitedBelieves ?s1),
                   beliefStateMap := beliefStateMap ?s1 @ [(nb, stateId ?s1)], stateId := Suc (stateId ?s1),
                   beliefsToBeExpanded := beliefsToBeExpanded ?s1 @ [nb], counter := Suc (counter ?s1)\<rparr>"
    have ins: "bimapInsert (beliefStateMap s) nb (stateId s) = beliefStateMap s @ [(nb, stateId s)]"
      using False keys below by (intro bimapInsert_fresh) auto
    have "nb \<notin> fst ` set (beliefStateMap s)" using False keys by simp
    then have at: "bimapLeftAt (beliefStateMap s @ [(nb, stateId s)]) nb = Inr (stateId s)"
      by (simp del: map_of_append add: bimapLeftAt_def map_of_snoc_fresh)
    have "ua_inv ?s2" using ua_inv_fresh [of ?s1 nb] inv False by simp
    then show ?thesis using False row ins at unfolding op exploreObservation_unfold [OF gb]
      by (auto simp: Let_def)
  qed
qed

lemma rows_below_mono: "rows_below n storage \<Longrightarrow> n \<le> n' \<Longrightarrow> rows_below n' storage"
  unfolding rows_below_def by (meson lessThan_subset_iff subset_trans)

lemma exploreAction_inv:
  assumes inv: "ua_inv s" and st: "rows_below (stateId s) storage"
  shows "\<exists>s' storage'. exploreAction cc m tobs cur a (s, storage) = Inr (s', storage') \<and> ua_inv s' \<and>
           rows_below (stateId s') storage' \<and> stateId s \<le> stateId s'"
proof -
  let ?P = "\<lambda>(t, row :: distribution). ua_inv t \<and> fst ` set row \<subseteq> {..<stateId t} \<and> stateId s \<le> stateId t"
  have "\<exists>b'. sfold (exploreObservation cc m tobs cur a)
              (computeObservationProbabilitiesAfterAction m (beliefList s ! cur) a) (s, []) = Inr b' \<and> ?P b'"
  proof (rule sfold_Inr_invariant)
    show "?P (s, [])" using inv by simp
  next
    fix x c assume P: "?P c"
    obtain t row where c: "c = (t, row)" by fastforce
    have t: "ua_inv t" "fst ` set row \<subseteq> {..<stateId t}" "stateId s \<le> stateId t" using P c by auto
    obtain t' row' where "exploreObservation cc m tobs cur a x (t, row) = Inr (t', row')" "ua_inv t'"
      "fst ` set row' \<subseteq> {..<stateId t'}" "stateId t \<le> stateId t'"
      using exploreObservation_inv [OF t(1,2), of cc m tobs cur a x] by blast
    then show "\<exists>c'. exploreObservation cc m tobs cur a x c = Inr c' \<and> ?P c'"
      using c t(3) by auto
  qed
  then obtain t row where "sfold (exploreObservation cc m tobs cur a)
              (computeObservationProbabilitiesAfterAction m (beliefList s ! cur) a) (s, []) = Inr (t, row)"
    and "ua_inv t" "fst ` set row \<subseteq> {..<stateId t}" "stateId s \<le> stateId t" by auto
  then show ?thesis using st rows_below_mono [OF st]
    by (auto simp: exploreAction_def rows_below_def)
qed

lemma ua_inv_pop:
  assumes inv: "ua_inv s" and q: "beliefsToBeExpanded s \<noteq> []"
    and g: "rows_below (stateId s) g" and ts: "\<forall>t \<in> set ts. t < stateId s"
  shows "ua_inv (s\<lparr>targetStates := ts, transitions := transitions s @ [g], beliefsToBeExpanded := tl (beliefsToBeExpanded s)\<rparr>)"
proof -
  have m: "map (map_of (beliefStateMap s)) (beliefsToBeExpanded s) = map Some [length (transitions s)..<stateId s]"
    using inv by (simp add: ua_inv_def)
  have lt: "length (transitions s) < stateId s" using ua_inv_queue_head(2) [OF inv q] .
  have "map (map_of (beliefStateMap s)) (tl (beliefsToBeExpanded s)) = map Some [Suc (length (transitions s))..<stateId s]"
    using arg_cong [OF m, of tl] lt by (simp add: map_tl upt_rec)
  then show ?thesis using inv g ts lt by (auto simp: ua_inv_def rows_below_def)
qed

lemma underApproxStep_inv:
  assumes inv: "ua_inv s" and q: "beliefsToBeExpanded s \<noteq> []"
  shows "\<exists>s'. underApproxStep cc m tobs mx s = Inr s' \<and> ua_inv s'"
proof -
  let ?l = "length (transitions s)"
  have hd: "bimapLeftAt (beliefStateMap s) (hd (beliefsToBeExpanded s)) = Inr ?l"
    using ua_inv_queue_head(1) [OF inv q] by (simp add: bimapLeftAt_def)
  have lt: "?l < stateId s" by (rule ua_inv_queue_head(2) [OF inv q])
  have ts: "\<forall>t \<in> set (targetStates s). t < stateId s" using inv by (simp add: ua_inv_def)
  show ?thesis
  proof (cases "beliefIsTarget s ! hd (beliefsToBeExpanded s)")
    case True
    have "ua_inv (s\<lparr>targetStates := targetStates s @ [?l], transitions := transitions s @ [[[(?l, 1)]]],
                    beliefsToBeExpanded := tl (beliefsToBeExpanded s)\<rparr>)"
      using lt ts by (intro ua_inv_pop [OF inv q]) (auto simp: rows_below_def)
    then show ?thesis using True hd by (simp add: underApproxStep_def Let_def)
  next
    case nt: False
    show ?thesis
    proof (cases "mx < counter s")
      case True
      have "ua_inv (s\<lparr>targetStates := targetStates s, transitions := transitions s @ [[[(0, 1)]]],
                      beliefsToBeExpanded := tl (beliefsToBeExpanded s)\<rparr>)"
        using lt ts by (intro ua_inv_pop [OF inv q]) (auto simp: rows_below_def)
      then show ?thesis using True nt by (simp add: underApproxStep_def Let_def)
    next
      case False
      let ?as = "[0..<getNumberOfChoices m (hd (getStatesWithObservation m
                   (beliefObservation (beliefList s ! hd (beliefsToBeExpanded s)))))]"
      let ?P = "\<lambda>(t, storage). ua_inv t \<and> rows_below (stateId t) storage"
      have "\<exists>b'. sfold (exploreAction cc m tobs (hd (beliefsToBeExpanded s))) ?as (s, []) = Inr b' \<and> ?P b'"
      proof (rule sfold_Inr_invariant)
        show "?P (s, [])" using inv by (simp add: rows_below_def)
      next
        fix x c assume P: "?P c"
        obtain t storage where c: "c = (t, storage)" by fastforce
        have t: "ua_inv t" "rows_below (stateId t) storage" using P c by auto
        show "\<exists>c'. exploreAction cc m tobs (hd (beliefsToBeExpanded s)) x c = Inr c' \<and> ?P c'"
          using exploreAction_inv [OF t, of cc m tobs "hd (beliefsToBeExpanded s)" x] c by auto
      qed
      then obtain t storage where f: "sfold (exploreAction cc m tobs (hd (beliefsToBeExpanded s))) ?as (s, []) = Inr (t, storage)"
        and t: "ua_inv t" "rows_below (stateId t) storage" by auto
      have "grows s t" by (rule sfold_exploreAction_grows [OF f])
      then have qt: "beliefsToBeExpanded t \<noteq> []" using q by (auto simp: grows_def)
      have "ua_inv (t\<lparr>targetStates := targetStates t, transitions := transitions t @ [storage],
                      beliefsToBeExpanded := tl (beliefsToBeExpanded t)\<rparr>)"
        using t(1) by (intro ua_inv_pop [OF t(1) qt t(2)]) (simp add: ua_inv_def)
      then show ?thesis using False nt f by (simp add: underApproxStep_def Let_def)
    qed
  qed
qed

lemma underApproxStep_map_grows:
  assumes q: "beliefsToBeExpanded s \<noteq> []" and st: "underApproxStep cc m tobs mx s = Inr s'"
  shows "\<exists>ys. beliefStateMap s' = beliefStateMap s @ ys"
proof (cases "\<not> beliefIsTarget s ! hd (beliefsToBeExpanded s) \<and> \<not> mx < counter s")
  case True
  then obtain as s'' storage where f: "sfold (exploreAction cc m tobs (hd (beliefsToBeExpanded s))) as (s, []) = Inr (s'', storage)"
    and s': "s' = s''\<lparr>transitions := transitions s'' @ [storage], beliefsToBeExpanded := tl (beliefsToBeExpanded s'')\<rparr>"
    using st by (auto simp: underApproxStep_def Let_def sbind_eq_Inr)
  show ?thesis using sfold_exploreAction_grows [OF f] s' by (auto simp: grows_def)
next
  case False
  then show ?thesis using st
    by (cases "beliefIsTarget s ! hd (beliefsToBeExpanded s)") (auto simp: underApproxStep_def Let_def sbind_eq_Inr)
qed

lemma ua_inv_initial: "ua_inv (initialUaState bl bt i)"
  by (simp add: ua_inv_def initialUaState_def upt_rec)

lemma exploreBeliefs_initial:
  "\<exists>s. exploreBeliefs cc m targetObservations maxModelSize (initialUaState bl bt initialBeliefId) = Some (Inr s) \<and>
       beliefsToBeExpanded s = [] \<and> length (transitions s) = stateId s \<and>
       (\<forall>g \<in> set (transitions s). \<forall>r \<in> set g. \<forall>e \<in> set r. fst e < length (transitions s)) \<and>
       (\<forall>t \<in> set (targetStates s). t < length (transitions s)) \<and>
       (\<forall>p \<in> set (beliefStateMap s). snd p < length (transitions s)) \<and>
       map_of (beliefStateMap s) initialBeliefId = Some 2"
proof -
  have "\<exists>r. exploreBeliefs cc m targetObservations maxModelSize (initialUaState bl bt initialBeliefId) = Some r \<and>
           (\<forall>t. r = Inr t \<longrightarrow> (ua_inv t \<and> map_of (beliefStateMap t) initialBeliefId = Some 2) \<and>
                 beliefsToBeExpanded t = []) \<and>
           (\<forall>e. r = Inl e \<longrightarrow> (\<exists>t. (ua_inv t \<and> map_of (beliefStateMap t) initialBeliefId = Some 2) \<and>
                 beliefsToBeExpanded t \<noteq> [] \<and> underApproxStep cc m targetObservations maxModelSize t = Inl e))"
  proof (rule exploreBeliefs_total)
    show "ua_inv (initialUaState bl bt initialBeliefId) \<and>
          map_of (beliefStateMap (initialUaState bl bt initialBeliefId)) initialBeliefId = Some 2"
      using ua_inv_initial [of bl bt initialBeliefId] by (simp add: initialUaState_def)
  next
    fix t t' assume t: "ua_inv t \<and> map_of (beliefStateMap t) initialBeliefId = Some 2"
      "beliefsToBeExpanded t \<noteq> []" "underApproxStep cc m targetObservations maxModelSize t = Inr t'"
    then have "ua_inv t'" using underApproxStep_inv [of t cc m targetObservations maxModelSize] by auto
    moreover obtain ys where "beliefStateMap t' = beliefStateMap t @ ys"
      using underApproxStep_map_grows [OF t(2,3)] by blast
    ultimately show "ua_inv t' \<and> map_of (beliefStateMap t') initialBeliefId = Some 2"
      using t(1) by (simp add: map_add_Some_iff)
  qed
  then obtain r where r: "exploreBeliefs cc m targetObservations maxModelSize (initialUaState bl bt initialBeliefId) = Some r"
    and ok: "\<forall>t. r = Inr t \<longrightarrow> (ua_inv t \<and> map_of (beliefStateMap t) initialBeliefId = Some 2) \<and>
                 beliefsToBeExpanded t = []"
    and err: "\<forall>e. r = Inl e \<longrightarrow> (\<exists>t. (ua_inv t \<and> map_of (beliefStateMap t) initialBeliefId = Some 2) \<and>
                 beliefsToBeExpanded t \<noteq> [] \<and> underApproxStep cc m targetObservations maxModelSize t = Inl e)"
    by blast
  obtain s where s: "r = Inr s"
  proof (cases r)
    case (Inl e)
    then obtain t where "ua_inv t" "beliefsToBeExpanded t \<noteq> []"
      "underApproxStep cc m targetObservations maxModelSize t = Inl e" using err by blast
    then show ?thesis using underApproxStep_inv [of t cc m targetObservations maxModelSize] by auto
  qed
  have inv: "ua_inv s" and q: "beliefsToBeExpanded s = []" and i: "map_of (beliefStateMap s) initialBeliefId = Some 2"
    using ok s by auto
  then have len: "length (transitions s) = stateId s" by (auto simp: ua_inv_def)
  show ?thesis using r s inv q len i by (auto simp: ua_inv_def)
qed

lemma buildTransitionMatrix_fields:
  "length (rowGroupIndices (buildTransitionMatrix T)) = Suc (length T)"
  "g \<le> length T \<Longrightarrow> rowGroupIndices (buildTransitionMatrix T) ! g = sum_list (map length (take g T))"
  "rows (buildTransitionMatrix T) = concat T"
  by (simp_all add: buildTransitionMatrix_def nth_append less_Suc_eq_le del: upt_Suc)

lemma numberOfStates_buildTransitionMatrix: "numberOfStates (buildTransitionMatrix T) = length T"
  by (simp add: numberOfStates_def buildTransitionMatrix_fields(1))

lemma buildTransitionMatrix_choice_bound:
  assumes "st < length T" "a < length (choicesOf (buildTransitionMatrix T) st)"
  shows "getChoiceIndex (buildTransitionMatrix T) st a < numberOfChoices (buildTransitionMatrix T)"
proof -
  let ?g = "\<lambda>g. sum_list (map length (take g T))"
  have step: "?g (Suc st) = ?g st + length (T ! st)" using assms(1) by (simp add: take_Suc_conv_app_nth)
  have "?g (length T) = sum_list (map length (take (Suc st) T @ drop (Suc st) T))" by simp
  then have le: "?g (Suc st) \<le> ?g (length T)" by (simp only: map_append sum_list_append)
  show ?thesis using assms step le
    by (simp add: getChoiceIndex_def choicesOf_def numberOfChoices_def buildTransitionMatrix_fields length_concat)
qed

lemma underApproxMdp_fields:
  fixes T :: "distribution list list"
  defines "M0 \<equiv> buildTransitionMatrix T"
  defines "M \<equiv> (if numberOfChoices M0 = numberOfStates M0
                then M0\<lparr>rowGroupIndices := [0..<Suc (numberOfChoices M0)]\<rparr> else M0)"
  shows "numberOfStates M = length T" "rows M = concat T"
    and "st < length T \<Longrightarrow> a < length (choicesOf M st) \<Longrightarrow> getChoiceIndex M st a < numberOfChoices M"
proof -
  have n0: "numberOfStates M0 = length T" by (simp add: M0_def numberOfStates_buildTransitionMatrix)
  show "numberOfStates M = length T" using n0 by (simp add: M_def numberOfStates_def)
  show "rows M = concat T" by (simp add: M_def M0_def buildTransitionMatrix_fields(3))
  assume st: "st < length T" and a: "a < length (choicesOf M st)"
  show "getChoiceIndex M st a < numberOfChoices M"
  proof (cases "numberOfChoices M0 = numberOfStates M0")
    case True
    then show ?thesis using st a n0 by (simp del: upt_Suc add: M_def getChoiceIndex_def choicesOf_def numberOfChoices_def)
  next
    case False
    then show ?thesis using buildTransitionMatrix_choice_bound [of st T a] st a by (simp add: M_def M0_def)
  qed
qed

lemma setStateActionReward_Inr:
  "optionalStateActionRewardVector rm = Some v \<Longrightarrow> c < length v \<Longrightarrow>
   setStateActionReward rm c r = Inr (rm\<lparr>optionalStateActionRewardVector := Some (v[c := r])\<rparr>)"
  by (simp add: setStateActionReward_def)

lemma rewards_for_state_Inr:
  assumes idx: "\<And>a. a < length (choicesOf M st) \<Longrightarrow> getChoiceIndex M st a < numberOfChoices M"
    and P: "optionalStateActionRewardVector rm = Some v" "length v = numberOfChoices M"
  shows "\<exists>rm' v'. sfold (\<lambda>action rm. map_sum RewardFailure id (setStateActionReward rm (getChoiceIndex M st action) (g action)))
              [0..<length (choicesOf M st)] rm = Inr rm' \<and>
            optionalStateActionRewardVector rm' = Some v' \<and> length v' = numberOfChoices M"
proof -
  have "\<exists>b'. sfold (\<lambda>action rm. map_sum RewardFailure id (setStateActionReward rm (getChoiceIndex M st action) (g action)))
              [0..<length (choicesOf M st)] rm = Inr b' \<and>
            (\<exists>v'. optionalStateActionRewardVector b' = Some v' \<and> length v' = numberOfChoices M)"
    using P by (intro sfold_Inr_invariant) (auto simp: setStateActionReward_Inr idx)
  then show ?thesis by blast
qed

lemma underApproxRewards_Inr:
  assumes bsm: "\<forall>p \<in> set bsm. snd p < numberOfStates M"
    and idx: "\<And>st a. st < numberOfStates M \<Longrightarrow> a < length (choicesOf M st) \<Longrightarrow> getChoiceIndex M st a < numberOfChoices M"
  shows "\<exists>rm v. underApproxRewards m R M bl bsm = Inr rm \<and>
           optionalStateActionRewardVector rm = Some v \<and> length v = numberOfChoices M"
proof -
  have "\<exists>b'. underApproxRewards m R M bl bsm = Inr b' \<and>
          (\<exists>v. optionalStateActionRewardVector b' = Some v \<and> length v = numberOfChoices M)"
    unfolding underApproxRewards_def Let_def
  proof (rule sfold_Inr_invariant)
    fix x and rm :: rewardModel
    assume x: "x \<in> set (sort_key fst bsm)"
      and P: "\<exists>v. optionalStateActionRewardVector rm = Some v \<and> length v = numberOfChoices M"
    obtain bid st where xs: "x = (bid, st)" by fastforce
    have st: "st < numberOfStates M" using x xs bsm by auto
    show "\<exists>c'. (case x of (bid, st) \<Rightarrow> \<lambda>rm. sfold (\<lambda>action rm. map_sum RewardFailure id
                    (setStateActionReward rm (getChoiceIndex M st action)
                      (getRewardAfterAction R (getChoiceIndex m (hd (getStatesWithObservation m
                         (beliefObservation (bl ! bid)))) action) (beliefProbabilities (bl ! bid)))))
                 [0..<length (choicesOf M st)] rm) rm = Inr c' \<and>
            (\<exists>v. optionalStateActionRewardVector c' = Some v \<and> length v = numberOfChoices M)"
      using P rewards_for_state_Inr [OF idx [OF st]] unfolding xs by fastforce
  qed simp
  then show ?thesis by blast
qed

text \<open>
  C30: The exploration loop of \<open>computeUnderapproximation\<close> terminates from
  every state, for every cut-off: a step either enlarges the counter, which
  only happens while it is at most \<open>maxModelSize\<close>, or leaves it and shortens
  the queue.
\<close>

theorem exploreBeliefs_terminates:
  "\<exists>r. exploreBeliefs cc m targetObservations maxModelSize s = Some r"
  using exploreBeliefs_total [where P = "\<lambda>_. True" and s = s and cc = cc and m = m and tobs = targetObservations
      and mx = maxModelSize] by auto

text \<open>
  C10: From the initial belief, \<open>computeUnderapproximation\<close> builds its MDP
  without an \<open>std::out_of_range\<close> from the bimap and without a failed
  reward assertion: the matrix has one row group per explored belief and
  every column and target state is a state of the matrix (as the builder,
  given \<open>transitions.size()\<close> columns, requires), the initial belief has
  state 2, where its value is read, and the reward vector covers every row.
\<close>

theorem underApproxModel_square:
  "\<exists>M targets rewards s.
     underApproxModel cc m totalStateActionReward bl bt targetObservations initialBeliefId computeRewards maxModelSize =
       Some (Inr (M, targets, rewards, s)) \<and>
     numberOfStates M = length (transitions s) \<and> rows M = concat (transitions s) \<and>
     (\<forall>r \<in> set (rows M). \<forall>e \<in> set r. fst e < numberOfStates M) \<and>
     (\<forall>t \<in> set targets. t < numberOfStates M) \<and>
     (\<forall>p \<in> set (beliefStateMap s). snd p < numberOfStates M) \<and>
     map_of (beliefStateMap s) initialBeliefId = Some 2 \<and>
     (computeRewards \<longrightarrow> (\<exists>rm v. rewards = Some rm \<and> optionalStateActionRewardVector rm = Some v \<and>
                                   length v = numberOfChoices M)) \<and>
     (\<not> computeRewards \<longrightarrow> rewards = None)"
proof -
  obtain s where ex: "exploreBeliefs cc m targetObservations maxModelSize (initialUaState bl bt initialBeliefId) = Some (Inr s)"
    and sq: "length (transitions s) = stateId s"
      "\<forall>g \<in> set (transitions s). \<forall>r \<in> set g. \<forall>e \<in> set r. fst e < length (transitions s)"
      "\<forall>t \<in> set (targetStates s). t < length (transitions s)"
      "\<forall>p \<in> set (beliefStateMap s). snd p < length (transitions s)"
      "map_of (beliefStateMap s) initialBeliefId = Some 2"
    using exploreBeliefs_initial [of cc m targetObservations maxModelSize bl bt initialBeliefId] by blast
  define M0 where "M0 = buildTransitionMatrix (transitions s)"
  define M where "M = (if numberOfChoices M0 = numberOfStates M0
                       then M0\<lparr>rowGroupIndices := [0..<Suc (numberOfChoices M0)]\<rparr> else M0)"
  have f: "numberOfStates M = length (transitions s)" "rows M = concat (transitions s)"
    "\<And>st a. st < numberOfStates M \<Longrightarrow> a < length (choicesOf M st) \<Longrightarrow> getChoiceIndex M st a < numberOfChoices M"
    using underApproxMdp_fields [where T = "transitions s"] unfolding M_def M0_def by auto
  have um: "underApproxModel cc m totalStateActionReward bl bt targetObservations initialBeliefId computeRewards maxModelSize =
            Some (if computeRewards
                  then sbind (underApproxRewards m totalStateActionReward M (beliefList s) (beliefStateMap s))
                         (\<lambda>rm. Inr (M, targetStates s, Some rm, s))
                  else Inr (M, targetStates s, None, s))"
    using ex by (simp add: underApproxModel_def M_def M0_def Let_def)
  have rows: "\<forall>r \<in> set (rows M). \<forall>e \<in> set r. fst e < numberOfStates M" using sq(2) f(1,2) by auto
  show ?thesis
  proof (cases computeRewards)
    case True
    obtain rm v where "underApproxRewards m totalStateActionReward M (beliefList s) (beliefStateMap s) = Inr rm"
      "optionalStateActionRewardVector rm = Some v" "length v = numberOfChoices M"
      using underApproxRewards_Inr [of "beliefStateMap s" M m totalStateActionReward "beliefList s"] sq(4) f(1,3) by auto
    then show ?thesis using um True f rows sq by auto
  next
    case False
    then show ?thesis using um f rows sq by auto
  qed
qed

theorem underApproxModel_square_witness:
  "\<exists>M targets rewards s.
     underApproxModel exact_comparator ex_belief_pomdp (\<lambda>_ _. 0) [ex_belief0] [False] {1} 0 True 10 =
       Some (Inr (M, targets, rewards, s)) \<and>
     numberOfStates M = length (transitions s) \<and> map_of (beliefStateMap s) 0 = Some 2 \<and>
     (\<exists>rm v. rewards = Some rm \<and> optionalStateActionRewardVector rm = Some v \<and> length v = numberOfChoices M)"
  using underApproxModel_square [of exact_comparator ex_belief_pomdp "\<lambda>_ _. 0" "[ex_belief0]" "[False]" "{1}" 0 True 10]
  by blast

end
