(* ===== verification/Refinement.thy ===== *)
theory Refinement
  imports UnderApprox
begin

text \<open>
  One refinement step of the approximate POMDP model checker over an explicit
  belief list and belief grid (\<open>computeRefinementStep\<close>, lines 479--805 of
  \<open>src/src/storm-pomdp/modelchecker/ApproximatePOMDPModelchecker.cpp\<close>), with
  the checker's options (lines 35--52). The step recomputes the transitions of
  the over-approximation MDP that lead to beliefs with changed observations,
  triangulates every successor belief into the grid (adding new grid beliefs
  as new MDP states), expands the new states breadth first, rebuilds the
  matrix from the old one and the recomputed rows, and calls the sparse model
  checker (the parameter \<open>checker\<close>) and \<open>computeUnderapproximation\<close> of
  theory \<open>UnderApprox\<close>. The local variables are the record \<open>refState\<close>;
  \<open>std::map\<close>s read with \<open>operator[]\<close> are total functions with default
  zero, the bimap is the list of pairs of \<open>UnderApprox\<close>. The weighted-sum
  loop over a grid belief grows the map it reads, so it is a partial function,
  and so is the expansion loop; every result is an \<open>('e + 'a) option\<close>.
\<close>

section \<open>Options and refinement components\<close>

record approxOptions =
  initialGridResolution :: nat
  explorationThreshold :: rat
  doRefinement :: bool
  refinementPrecision :: rat
  numericPrecision :: rat
  cacheSubsimplices :: bool

text \<open>\<open>Options::Options()\<close> for an exact value type (numeric precision zero).\<close>

definition defaultOptions :: approxOptions where
  "defaultOptions =
     \<lparr>initialGridResolution = 10, explorationThreshold = 0, doRefinement = True,
      refinementPrecision = 1 / 10000, numericPrecision = 0, cacheSubsimplices = False\<rparr>"

text \<open>The constructor's comparator \<open>cc\<close>: absolute precision \<open>numericPrecision\<close>.\<close>

definition checkerComparator :: "approxOptions \<Rightarrow> comparator" where
  "checkerComparator opts = tolerant_comparator (numericPrecision opts)"

record refinementComponents =
  overApproxModelPtr :: mdp
  overApproxValue :: rat
  underApproxValueR :: rat
  overApproxMap :: "rat list"
  underApproxMapR :: "rat list"
  beliefListR :: "belief list"
  beliefGrid :: "belief list"
  beliefIsTargetR :: "bool list"
  overApproxBeliefStateMap :: "(nat \<times> nat) list"
  underApproxBeliefStateMapR :: "(nat \<times> nat) list"
  initialBeliefIdR :: nat

text \<open>The right view of the bimap, \<open>right.at(state)\<close>.\<close>

definition bimapRightAt :: "(nat \<times> nat) list \<Rightarrow> nat \<Rightarrow> ua_error + nat" where
  "bimapRightAt bm r = (case find (\<lambda>p. snd p = r) bm of Some p \<Rightarrow> Inr (fst p) | None \<Rightarrow> Inl OutOfRange)"

text \<open>
  \<open>SparseMatrix::getRow(rowGroup, offset)\<close>: its assertions that the row group
  exists and that the offset is below the group's size are errors.
\<close>

definition getRow :: "mdp \<Rightarrow> nat \<Rightarrow> nat \<Rightarrow> ua_error + distribution" where
  "getRow M rowGroup offset =
     (if Suc rowGroup < length (rowGroupIndices M) \<and>
         offset < rowGroupIndices M ! Suc rowGroup - rowGroupIndices M ! rowGroup
      then Inr (rows M ! (rowGroupIndices M ! rowGroup + offset)) else Inl RowOutOfRange)"

definition getRowGroupSize :: "mdp \<Rightarrow> nat \<Rightarrow> nat" where
  "getRowGroupSize M rowGroup = rowGroupIndices M ! Suc rowGroup - rowGroupIndices M ! rowGroup"

section \<open>The transitions to recompute\<close>

text \<open>Lines 507--513: the states of beliefs whose observation changed.\<close>

definition relevantStates :: "refinementComponents \<Rightarrow> nat set \<Rightarrow> nat set" where
  "relevantStates rc changedObservations =
     snd ` set (filter (\<lambda>(bid, st). beliefObservation (beliefListR rc ! bid) \<in> changedObservations)
                       (overApproxBeliefStateMap rc))"

text \<open>Lines 515--527: the state-action pairs with a transition into a relevant state, ascending.\<close>

definition statesAndActionsToCheck :: "mdp \<Rightarrow> nat set \<Rightarrow> (nat \<times> nat) list" where
  "statesAndActionsToCheck M relevant =
     concat (map (\<lambda>state. map (\<lambda>row. (state, row))
                   (filter (\<lambda>row. list_ex (\<lambda>e. fst e \<in> relevant) (rows M ! (rowGroupIndices M ! state + row)))
                      [0..<getRowGroupSize M state]))
               [0..<numberOfStates M])"

record refState =
  components :: refinementComponents
  subSimplexCache :: "nat \<Rightarrow> (distribution list \<times> rat list) option"
  weightedSumOverMap :: "nat \<Rightarrow> rat"
  weightedSumUnderMap :: "nat \<Rightarrow> rat"
  beliefsToBeExpandedR :: "nat list"
  transitionsStateActionPair :: "nat \<times> nat \<Rightarrow> distribution option"
  stoppedExplorationStateSet :: "nat set"
  nextBeliefId :: nat
  nextStateId :: nat

section \<open>Triangulating a successor into the grid\<close>

text \<open>\<open>map[i]\<close> as a read: an absent key is inserted with value zero.\<close>

definition mapIndex :: "distribution \<Rightarrow> nat \<Rightarrow> distribution" where
  "mapIndex d i = (if i \<in> fst ` set d then d else setProbability d i 0)"

text \<open>
  Lines 572--577: the bound-weighted sums over a grid belief, by a loop whose
  bound \<open>subSimplex[j].size()\<close> grows as \<open>subSimplex[j][i]\<close> inserts the
  missing keys below the largest one.
\<close>

partial_function (option) weightedSumLoop ::
    "distribution \<Rightarrow> (nat \<Rightarrow> rat) \<Rightarrow> (nat \<Rightarrow> rat) \<Rightarrow> nat \<Rightarrow> rat \<times> rat \<Rightarrow> (rat \<times> rat) option" where
  "weightedSumLoop d initialOverMap initialUnderMap i acc =
     (if i < length d
      then (let d' = mapIndex d i
            in weightedSumLoop d' initialOverMap initialUnderMap (Suc i)
                 (fst acc + dget d' i * initialOverMap i, snd acc + dget d' i * initialUnderMap i))
      else Some acc)"

text \<open>
  The body of the loop over the sub-simplex (lines 561--590, and again at
  lines 656--685): a vertex of non-zero weight already in the grid gets the
  weighted transition to its state; a new one becomes a grid belief, a new
  MDP state in the queue, with its bound-weighted sums when bounds are given.
\<close>

definition addGridSuccessor ::
    "comparator \<Rightarrow> nat set \<Rightarrow> ((nat \<Rightarrow> rat) \<times> (nat \<Rightarrow> rat)) option \<Rightarrow> nat \<Rightarrow> prob
     \<Rightarrow> distribution list \<Rightarrow> rat list \<Rightarrow> nat \<Rightarrow> refState \<times> distribution
     \<Rightarrow> (ua_error + refState \<times> distribution) option" where
  "addGridSuccessor cc targetObservations initialBounds observation p subSimplex lambdas j acc =
     (case acc of (s, transitionInActionBelief) \<Rightarrow>
       (if isEqual cc (lambdas ! j) 0 then Some (Inr (s, transitionInActionBelief))
        else case getBeliefIdInVector cc (beliefGrid (components s)) observation (subSimplex ! j) of
          None \<Rightarrow>
            (let gridBelief = \<lparr>beliefId = nextBeliefId s, beliefObservation = observation,
                                beliefProbabilities = subSimplex ! j\<rparr>;
                 rc = components s;
                 rc' = rc\<lparr>beliefListR := beliefListR rc @ [gridBelief], beliefGrid := beliefGrid rc @ [gridBelief],
                          beliefIsTargetR := beliefIsTargetR rc @ [observation \<in> targetObservations],
                          overApproxBeliefStateMap :=
                            bimapInsert (overApproxBeliefStateMap rc) (nextBeliefId s) (nextStateId s)\<rparr>
             in map_option (\<lambda>(over, under).
                  Inr (s\<lparr>components := rc', weightedSumOverMap := over, weightedSumUnderMap := under,
                         beliefsToBeExpandedR := beliefsToBeExpandedR s @ [nextBeliefId s],
                         nextBeliefId := Suc (nextBeliefId s), nextStateId := Suc (nextStateId s)\<rparr>,
                       setProbability transitionInActionBelief (nextStateId s) (p * lambdas ! j)))
                  (case initialBounds of
                     None \<Rightarrow> Some (weightedSumOverMap s, weightedSumUnderMap s)
                   | Some (initialOverMap, initialUnderMap) \<Rightarrow>
                       map_option (\<lambda>(tempOver, tempUnder).
                           ((weightedSumOverMap s)(nextBeliefId s := tempOver),
                            (weightedSumUnderMap s)(nextBeliefId s := tempUnder)))
                         (weightedSumLoop (subSimplex ! j) initialOverMap initialUnderMap 0 (0, 0))))
        | Some approxId \<Rightarrow>
            Some (sbind (bimapLeftAt (overApproxBeliefStateMap (components s)) approxId)
                    (\<lambda>st. Inr (s, setProbability transitionInActionBelief st (p * lambdas ! j))))))"

text \<open>
  The triangulation of a successor belief (lines 544--560 and 638--654): from
  the cache when caching is on and the belief is cached, else computed with
  the resolution of its observation, and cached when caching is on.
\<close>

definition triangulateSuccessor ::
    "comparator \<Rightarrow> pomdp \<Rightarrow> approxOptions \<Rightarrow> nat list \<Rightarrow> nat \<Rightarrow> refState
     \<Rightarrow> (distribution list \<times> rat list) \<times> refState" where
  "triangulateSuccessor cc m opts observationResolutionVector idNextBelief s =
     (case (if cacheSubsimplices opts then subSimplexCache s idNextBelief else None) of
        Some cached \<Rightarrow> (cached, s)
      | None \<Rightarrow>
          (let b = beliefListR (components s) ! idNextBelief;
               temp = computeSubSimplexAndLambdas cc (beliefProbabilities b)
                        (observationResolutionVector ! beliefObservation b) (getNumberOfStates m)
           in (temp, if cacheSubsimplices opts then s\<lparr>subSimplexCache := (subSimplexCache s)(idNextBelief \<mapsto> temp)\<rparr>
                     else s)))"

text \<open>
  The loop over the observations of an action (lines 538--591 and 629--686):
  the successor belief, its triangulation, and its vertices into the grid.
\<close>

definition refineObservation ::
    "comparator \<Rightarrow> pomdp \<Rightarrow> approxOptions \<Rightarrow> nat set \<Rightarrow> nat list \<Rightarrow> ((nat \<Rightarrow> rat) \<times> (nat \<Rightarrow> rat)) option
     \<Rightarrow> nat \<Rightarrow> nat \<Rightarrow> nat \<times> prob \<Rightarrow> refState \<times> distribution \<Rightarrow> (ua_error + refState \<times> distribution) option" where
  "refineObservation cc m opts targetObservations observationResolutionVector initialBounds currId action op acc =
     (case (op, acc) of ((observation, p), (s, transitionInActionBelief)) \<Rightarrow>
       (let rc = components s
        in case getBeliefAfterActionAndObservation cc m (beliefListR rc) (beliefIsTargetR rc) targetObservations
                  (beliefListR rc ! currId) action observation (nextBeliefId s) of
             (idNextBelief, bl, bt) \<Rightarrow>
               (let s1 = s\<lparr>components := rc\<lparr>beliefListR := bl, beliefIsTargetR := bt\<rparr>, nextBeliefId := length bl\<rparr>;
                    (temp, s2) = triangulateSuccessor cc m opts observationResolutionVector idNextBelief s1
                in osfold (addGridSuccessor cc targetObservations initialBounds observation p (fst temp) (snd temp))
                     [0..<length (snd temp)] (s2, transitionInActionBelief))))"

text \<open>The transitions of one action of a belief (lines 535--537 and 627--628).\<close>

definition refineAction ::
    "comparator \<Rightarrow> pomdp \<Rightarrow> approxOptions \<Rightarrow> nat set \<Rightarrow> nat list \<Rightarrow> ((nat \<Rightarrow> rat) \<times> (nat \<Rightarrow> rat)) option
     \<Rightarrow> nat \<Rightarrow> nat \<Rightarrow> refState \<Rightarrow> (ua_error + refState \<times> distribution) option" where
  "refineAction cc m opts targetObservations observationResolutionVector initialBounds currId action s =
     osfold (refineObservation cc m opts targetObservations observationResolutionVector initialBounds currId action)
       (computeObservationProbabilitiesAfterAction m (beliefListR (components s) ! currId) action) (s, [])"

text \<open>
  Lines 532--595: for every state-action pair to check, the recomputed row,
  stored when it is not empty.
\<close>

definition refineStateActionPair ::
    "comparator \<Rightarrow> pomdp \<Rightarrow> approxOptions \<Rightarrow> nat set \<Rightarrow> nat list \<Rightarrow> ((nat \<Rightarrow> rat) \<times> (nat \<Rightarrow> rat)) option
     \<Rightarrow> nat \<times> nat \<Rightarrow> refState \<Rightarrow> (ua_error + refState) option" where
  "refineStateActionPair cc m opts targetObservations observationResolutionVector initialBounds stateActionPair s =
     osbind (Some (bimapRightAt (overApproxBeliefStateMap (components s)) (fst stateActionPair)))
       (\<lambda>currId. osbind (refineAction cc m opts targetObservations observationResolutionVector initialBounds
                          currId (snd stateActionPair) s)
          (\<lambda>(s', transitionInActionBelief).
             Some (Inr (if transitionInActionBelief = [] then s'
                        else s'\<lparr>transitionsStateActionPair :=
                                  (transitionsStateActionPair s')(stateActionPair \<mapsto> transitionInActionBelief)\<rparr>))))"

section \<open>Expanding the new beliefs\<close>

text \<open>
  One iteration of the \<open>while\<close> loop (lines 601--691): a belief whose bounds
  are closer than the exploration threshold is cut off with a transition to
  the target with its upper bound and to the sink with the rest; a target
  belief gets a self-loop; any other belief its recomputed actions.
\<close>

definition expandStep ::
    "comparator \<Rightarrow> pomdp \<Rightarrow> approxOptions \<Rightarrow> nat set \<Rightarrow> nat list \<Rightarrow> ((nat \<Rightarrow> rat) \<times> (nat \<Rightarrow> rat)) option
     \<Rightarrow> refState \<Rightarrow> (ua_error + refState) option" where
  "expandStep cc m opts targetObservations observationResolutionVector initialBounds s0 =
     (let currId = hd (beliefsToBeExpandedR s0);
          s = s0\<lparr>beliefsToBeExpandedR := tl (beliefsToBeExpandedR s0)\<rparr>;
          rc = components s;
          isTarget = beliefIsTargetR rc ! currId
      in if initialBounds \<noteq> None \<and>
            isLess cc (weightedSumOverMap s currId - weightedSumUnderMap s currId) (explorationThreshold opts)
         then Some (sbind (bimapLeftAt (overApproxBeliefStateMap rc) currId)
                (\<lambda>st. Inr (s\<lparr>transitionsStateActionPair := (transitionsStateActionPair s)((st, 0) \<mapsto>
                               [(0, 1 - weightedSumOverMap s currId), (1, weightedSumOverMap s currId)]),
                             stoppedExplorationStateSet := insert st (stoppedExplorationStateSet s)\<rparr>)))
         else if isTarget
         then Some (sbind (bimapLeftAt (overApproxBeliefStateMap rc) currId)
                (\<lambda>st. Inr (s\<lparr>transitionsStateActionPair := (transitionsStateActionPair s)((st, 0) \<mapsto> [(st, 1)])\<rparr>)))
         else
           (let representativeState = hd (getStatesWithObservation m (beliefObservation (beliefListR rc ! currId)));
                numChoices = getNumberOfChoices m representativeState
            in osfold (\<lambda>action s.
                  osbind (refineAction cc m opts targetObservations observationResolutionVector initialBounds currId action s)
                    (\<lambda>(s', transitionInActionBelief).
                       if transitionInActionBelief = [] then Some (Inr s')
                       else Some (sbind (bimapLeftAt (overApproxBeliefStateMap (components s')) currId)
                              (\<lambda>st. Inr (s'\<lparr>transitionsStateActionPair :=
                                     (transitionsStateActionPair s')((st, action) \<mapsto> transitionInActionBelief)\<rparr>)))))
                 [0..<numChoices] s))"

partial_function (option) expandBeliefs ::
    "comparator \<Rightarrow> pomdp \<Rightarrow> approxOptions \<Rightarrow> nat set \<Rightarrow> nat list \<Rightarrow> ((nat \<Rightarrow> rat) \<times> (nat \<Rightarrow> rat)) option
     \<Rightarrow> refState \<Rightarrow> (ua_error + refState) option" where
  "expandBeliefs cc m opts targetObservations observationResolutionVector initialBounds s =
     (if beliefsToBeExpandedR s = [] then Some (Inr s)
      else case expandStep cc m opts targetObservations observationResolutionVector initialBounds s of
             None \<Rightarrow> None
           | Some (Inl e) \<Rightarrow> Some (Inl e)
           | Some (Inr s') \<Rightarrow> expandBeliefs cc m opts targetObservations observationResolutionVector initialBounds s')"

text \<open>
  The components \<open>computeFirstRefinementStep\<close> returns (lines 474--475): the
  explored MDP, its value, the under-approximation's value, map and bimap,
  the initial belief, and empty value map, belief list, grid, target flags
  and over-approximation bimap.
\<close>

definition firstRefinementComponents :: "mdp \<Rightarrow> rat \<Rightarrow> underApproxComponents \<Rightarrow> nat \<Rightarrow> refinementComponents" where
  "firstRefinementComponents exploredMdp computedValue ua initialBelief =
     \<lparr>overApproxModelPtr = exploredMdp, overApproxValue = computedValue, underApproxValueR = underApproxValue ua,
      overApproxMap = [], underApproxMapR = underApproxMap ua, beliefListR = [], beliefGrid = [],
      beliefIsTargetR = [], overApproxBeliefStateMap = [], underApproxBeliefStateMapR = underApproxBeliefStateMap ua,
      initialBeliefIdR = initialBelief\<rparr>"

section \<open>The rebuilt over-approximation MDP\<close>

text \<open>
  The actions of a state (lines 727--746): the recomputed row when there is
  one, else the row of the old matrix; a target or cut-off state keeps only
  its first action.
\<close>

fun rowGroupLoop :: "(nat \<Rightarrow> ua_error + distribution) \<Rightarrow> bool \<Rightarrow> bool \<Rightarrow> nat list \<Rightarrow> ua_error + distribution list" where
  "rowGroupLoop row isTarget stopped [] = Inr []"
| "rowGroupLoop row isTarget stopped (action # actions) =
     sbind (row action) (\<lambda>r. if isTarget \<or> stopped then Inr [r]
                              else sbind (rowGroupLoop row isTarget stopped actions) (\<lambda>rs. Inr (r # rs)))"

text \<open>
  The row group of a belief state (lines 722--746), with whether it is
  labelled a target (the label is set in the loop, after a first row).
\<close>

definition stateRowGroup :: "pomdp \<Rightarrow> refState \<Rightarrow> nat \<Rightarrow> ua_error + distribution list \<times> bool" where
  "stateRowGroup m s state =
     (let rc = components s
      in sbind (bimapRightAt (overApproxBeliefStateMap rc) state) (\<lambda>bid.
           (let numChoices = getNumberOfChoices m (hd (getStatesWithObservation m (beliefObservation (beliefListR rc ! bid))));
                isTarget = beliefIsTargetR rc ! bid
            in sbind (rowGroupLoop (\<lambda>action. case transitionsStateActionPair s (state, action) of
                                       None \<Rightarrow> getRow (overApproxModelPtr rc) state action
                                     | Some t \<Rightarrow> Inr t)
                        isTarget (state \<in> stoppedExplorationStateSet s) [0..<numChoices])
                 (\<lambda>rs. Inr (rs, isTarget \<and> rs \<noteq> [])))))"

text \<open>
  Lines 704--750: the labels (\<open>init\<close> at the initial belief's state, found
  with \<open>left.at\<close>; \<open>target\<close> at state 1 and at the target belief states)
  and the matrix with the sink 0, the target 1 and the row groups of the
  states from 2 to \<open>nextStateId\<close>.
\<close>

definition overApproxModel :: "pomdp \<Rightarrow> refState \<Rightarrow> ua_error + mdp \<times> nat \<times> nat list" where
  "overApproxModel m s =
     sbind (bimapLeftAt (overApproxBeliefStateMap (components s)) (initialBeliefIdR (components s))) (\<lambda>initState.
       sbind (sfold (\<lambda>state (groups, targets).
                       sbind (stateRowGroup m s state)
                         (\<lambda>(rs, isTarget). Inr (groups @ [rs], if isTarget then targets @ [state] else targets)))
                [2..<nextStateId s] ([[[(0, 1)]], [[(1, 1)]]], [1]))
         (\<lambda>(groups, targets). Inr (buildTransitionMatrix groups, initState, targets)))"

text \<open>
  \<open>computeRefinementStep\<close>: the recomputed pairs, the expansion, the rebuilt
  MDP with its rewards, its value at the initial belief's state (lines
  770--788), and the under-approximation on the extended belief list (lines
  791--804); the belief list and target flags of the result are the ones
  \<open>computeUnderapproximation\<close> leaves.
\<close>

definition computeRefinementStep ::
    "pomdp \<Rightarrow> approxOptions \<Rightarrow> (state \<Rightarrow> nat \<Rightarrow> rat)
     \<Rightarrow> (mdp \<Rightarrow> nat set \<Rightarrow> nat list \<Rightarrow> rewardModel option \<Rightarrow> bool \<Rightarrow> bool \<Rightarrow> rat list)
     \<Rightarrow> nat set \<Rightarrow> bool \<Rightarrow> nat list \<Rightarrow> bool \<Rightarrow> refinementComponents \<Rightarrow> nat set
     \<Rightarrow> (nat \<Rightarrow> rat) option \<Rightarrow> (nat \<Rightarrow> rat) option \<Rightarrow> nat \<Rightarrow> (ua_error + refinementComponents) option" where
  "computeRefinementStep m opts totalStateActionReward checker targetObservations minimize observationResolutionVector
       computeRewards rc changedObservations overApproximationMap underApproximationMap maxUaModelSize =
     (let cc = checkerComparator opts;
          initialBounds = (case (overApproximationMap, underApproximationMap) of
                             (Some initialOverMap, Some initialUnderMap) \<Rightarrow> Some (initialOverMap, initialUnderMap)
                           | _ \<Rightarrow> None);
          s0 = \<lparr>components = rc, subSimplexCache = (\<lambda>_. None), weightedSumOverMap = (\<lambda>_. 0),
                weightedSumUnderMap = (\<lambda>_. 0), beliefsToBeExpandedR = [], transitionsStateActionPair = (\<lambda>_. None),
                stoppedExplorationStateSet = {}, nextBeliefId = length (beliefListR rc),
                nextStateId = numberOfStates (overApproxModelPtr rc)\<rparr>
      in osbind (osfold (refineStateActionPair cc m opts targetObservations observationResolutionVector initialBounds)
                   (statesAndActionsToCheck (overApproxModelPtr rc) (relevantStates rc changedObservations)) s0)
           (\<lambda>s1. osbind (expandBeliefs cc m opts targetObservations observationResolutionVector initialBounds s1)
           (\<lambda>s2. osbind (Some (overApproxModel m s2))
           (\<lambda>(overApproxMdp, initState, targets).
              osbind (Some (if computeRewards
                            then sbind (underApproxRewards m totalStateActionReward overApproxMdp
                                          (beliefListR (components s2)) (overApproxBeliefStateMap (components s2)))
                                   (\<lambda>rm. Inr (Some rm))
                            else Inr None))
              (\<lambda>rewards.
                 (let rc2 = components s2;
                      overApproxResultMap = checker overApproxMdp {initState} targets rewards minimize computeRewards
                  in osbind (Some (bimapLeftAt (overApproxBeliefStateMap rc2) (initialBeliefIdR rc2)))
                     (\<lambda>st. osbind (computeUnderapproximation cc m totalStateActionReward checker (beliefListR rc2)
                                    (beliefIsTargetR rc2) targetObservations (initialBeliefIdR rc2) minimize
                                    computeRewards maxUaModelSize)
                     (\<lambda>(ua, bl, bt).
                        Some (Inr \<lparr>overApproxModelPtr = overApproxMdp, overApproxValue = overApproxResultMap ! st,
                                   underApproxValueR = underApproxValue ua, overApproxMap = overApproxResultMap,
                                   underApproxMapR = underApproxMap ua, beliefListR = bl, beliefGrid = beliefGrid rc2,
                                   beliefIsTargetR = bt, overApproxBeliefStateMap = overApproxBeliefStateMap rc2,
                                   underApproxBeliefStateMapR = underApproxBeliefStateMap ua,
                                   initialBeliefIdR = initialBeliefIdR rc2\<rparr>)))))))))"

section \<open>Properties\<close>

subsection \<open>The weighted-sum loop\<close>

lemma map_of_setProbability: "map_of (setProbability d k v) = (map_of d)(k \<mapsto> v)"
  by (induction d k v rule: setProbability.induct) (auto simp: fun_eq_iff)

lemma distinct_setProbability:
  "k \<notin> fst ` set d \<Longrightarrow> distinct (map fst d) \<Longrightarrow> distinct (map fst (setProbability d k v))"
  by (induction d k v rule: setProbability.induct) auto

lemma dget_mapIndex [simp]: "dget (mapIndex d i) = dget d"
proof (cases "i \<in> fst ` set d")
  case False
  then have "map_of d i = None" by (simp add: map_of_eq_None_iff)
  then show ?thesis using False by (auto simp: mapIndex_def dget_def map_of_setProbability fun_eq_iff)
qed (simp add: mapIndex_def)

lemma keys_mapIndex [simp]: "fst ` set (mapIndex d i) = insert i (fst ` set d)"
  by (auto simp: mapIndex_def)

lemma distinct_mapIndex: "distinct (map fst d) \<Longrightarrow> distinct (map fst (mapIndex d i))"
  by (simp add: mapIndex_def distinct_setProbability)

lemma dget_notin_keys: "k \<notin> fst ` set d \<Longrightarrow> dget d k = 0"
  unfolding dget_def using map_of_eq_None_iff[of d k] by simp

text \<open>
  Past the last index the keys are exactly the indices read, so the rest of
  the sum is zero.
\<close>

lemma keys_below_length:
  assumes "distinct (map fst d)" "{0..<i} \<subseteq> fst ` set d" "length d \<le> i"
  shows "fst ` set d = {0..<i}"
proof -
  have "card (fst ` set d) = length d"
    using assms(1) by (metis distinct_card length_map set_map)
  then show ?thesis
    using assms(2,3) by (metis card_atLeastLessThan card_subset_eq diff_zero finite_atLeastLessThan
                              finite_imageI finite_set le_antisym card_mono)
qed

lemma weightedSumLoop_sum:
  assumes "distinct (map fst d)" "fst ` set d \<subseteq> {0..<B}" "{0..<i} \<subseteq> fst ` set d"
  shows "weightedSumLoop d ov un i acc =
           Some (fst acc + (\<Sum>k = i..<B. dget d k * ov k), snd acc + (\<Sum>k = i..<B. dget d k * un k))"
  using assms
proof (induction "B - i" arbitrary: d i acc rule: less_induct)
  case less
  show ?case
  proof (cases "i < length d")
    case True
    have "length d \<le> B"
      using less.prems(1,2) by (metis card_atLeastLessThan card_mono diff_zero distinct_card finite_atLeastLessThan
                                      length_map set_map)
    then have "i < B" using True by simp
    have IH: "weightedSumLoop (mapIndex d i) ov un (Suc i) acc' =
                Some (fst acc' + (\<Sum>k = Suc i..<B. dget d k * ov k), snd acc' + (\<Sum>k = Suc i..<B. dget d k * un k))"
      for acc'
    proof -
      have "B - Suc i < B - i" using \<open>i < B\<close> by arith
      moreover have "{0..<Suc i} \<subseteq> fst ` set (mapIndex d i)"
        using less.prems(3) by (auto simp: less_Suc_eq)
      moreover have "fst ` set (mapIndex d i) \<subseteq> {0..<B}"
        using less.prems(2) \<open>i < B\<close> by simp
      ultimately show ?thesis
        using less.hyps[of "Suc i" "mapIndex d i" acc'] distinct_mapIndex[OF less.prems(1)] by simp
    qed
    show ?thesis
      by (subst weightedSumLoop.simps) (simp add: True IH Let_def sum.atLeast_Suc_lessThan[OF \<open>i < B\<close>] algebra_simps)
  next
    case False
    then have keys: "fst ` set d = {0..<i}"
      using keys_below_length[OF less.prems(1,3)] by simp
    have "dget d k = 0" if "i \<le> k" for k
      using that keys by (intro dget_notin_keys) auto
    then show ?thesis
      by (subst weightedSumLoop.simps) (simp add: False)
  qed
qed

text \<open>
  C9: On a well-formed \<open>std::map\<close> (keys ascending, so distinct), the
  weighted-sum loop of lines 572--577 terminates although it inserts the
  missing keys below the largest one and so grows its own bound, and it
  returns the sums of the entries weighted by the over- and under-bounds.
\<close>

lemma weightedSumLoop_keys_sorted:
  assumes "keys_sorted d"
  shows "weightedSumLoop d ov un 0 (0, 0) =
           Some (\<Sum>k\<in>fst ` set d. dget d k * ov k, \<Sum>k\<in>fst ` set d. dget d k * un k)"
proof -
  obtain B where B: "\<forall>k\<in>fst ` set d. k < B"
    using finite_nat_set_iff_bounded[of "fst ` set d"] by blast
  then have sub: "fst ` set d \<subseteq> {0..<B}" by auto
  have zero: "\<forall>k\<in>{0..<B} - fst ` set d. dget d k * f k = 0" for f :: "nat \<Rightarrow> rat"
    by (simp add: dget_notin_keys)
  have "distinct (map fst d)"
    using assms by (simp add: strict_sorted_iff)
  then show ?thesis
    using weightedSumLoop_sum[of d B 0 ov un "(0, 0)"] sub
          sum.mono_neutral_right[OF finite_atLeastLessThan sub zero]
    by simp
qed

theorem weightedSumLoop_keys_sorted_witness:
  "keys_sorted [(0, 1 / 2), (2, 1 / 2)] \<and>
   weightedSumLoop [(0, 1 / 2), (2, 1 / 2)] of_nat (\<lambda>_. 1) 0 (0, 0) = Some (1, 1)"
  using weightedSumLoop_keys_sorted [of "[(0, 1 / 2), (2, 1 / 2)]" of_nat "\<lambda>_. 1"]
  by (simp add: dget_def)

subsection \<open>The refinement step after the first step\<close>

text \<open>
  With an empty over-approximation bimap no state is relevant, nothing is
  expanded, and the initial label's \<open>left.at\<close> fails.
\<close>

lemma computeRefinementStep_empty_bimap:
  assumes "overApproxBeliefStateMap rc = []"
  shows "computeRefinementStep m opts R checker tobs minimize orv cr rc co oam uam n = Some (Inl OutOfRange)"
proof -
  have "relevantStates rc co = {}"
    using assms by (simp add: relevantStates_def)
  moreover have "statesAndActionsToCheck M {} = []" for M
    by (simp add: statesAndActionsToCheck_def list_ex_iff)
  ultimately show ?thesis
    using assms by (simp add: computeRefinementStep_def Let_def expandBeliefs.simps overApproxModel_def bimapLeftAt_def)
qed

text \<open>
  C8: \<open>computeFirstRefinementStep\<close> returns an empty over-approximation
  bimap (line 475), so the refinement step that \<open>refineReachability\<close> calls
  next fails with \<open>std::out_of_range\<close> at \<open>left.at(initialBeliefId)\<close>
  (line 707), whatever the MDP, the options and the changed observations.
\<close>

theorem computeRefinementStep_after_first_step:
  "computeRefinementStep m opts R checker tobs minimize orv cr
     (firstRefinementComponents exploredMdp computedValue ua initialBelief) co oam uam n = Some (Inl OutOfRange)"
  by (rule computeRefinementStep_empty_bimap) (simp add: firstRefinementComponents_def)

theorem computeRefinementStep_after_first_step_witness:
  "computeRefinementStep ex_belief_pomdp defaultOptions (\<lambda>_ _. 0) (\<lambda>_ _ _ _ _ _. []) {1} False [2, 2] False
     (firstRefinementComponents (buildTransitionMatrix [[[(0, 1)]], [[(1, 1)]], [[(2, 1)]]]) 1
        \<lparr>underApproxValue = 0, underApproxMap = [0, 1, 0], underApproxBeliefStateMap = [(0, 2)]\<rparr> 0)
     {0, 1} None None 200 = Some (Inl OutOfRange)"
  using computeRefinementStep_after_first_step by simp

end
