(* ===== verification/RefinementLoop.thy ===== *)
theory RefinementLoop
  imports Refinement
begin

text \<open>
  The refinement loop of \<open>refineReachability\<close> (lines 233--337 of
  \<open>src/src/storm-pomdp/modelchecker/ApproximatePOMDPModelchecker.cpp\<close>),
  started from the components of the first refinement step: while fewer than
  1000 steps are made and the gap between the bounds exceeds the refinement
  precision, it scores the observations, raises every observation's
  resolution to one more than the largest, grows the under-approximation's
  size bound by 100 (guarded against overflow) and calls
  \<open>computeRefinementStep\<close> of theory \<open>Refinement\<close>. The initial bounds of the
  underlying MDP and of the positional scheduler (lines 166--226) are
  parameters; the scores are computed and discarded, as in the code.
\<close>

section \<open>Observation scores\<close>

text \<open>\<open>std::map::operator[]\<close> on a value map read by state: zero past its entries.\<close>

definition mapRead :: "rat list \<Rightarrow> nat \<Rightarrow> rat" where
  "mapRead xs i = (if i < length xs then xs ! i else 0)"

text \<open>
  The value the scoring gives a belief without an over-approximation state
  (lines 266--281): the triangulation's weights, each times the value of its
  vertex's state when the vertex is a grid belief with a state, else times one.
\<close>

definition approximatedOverValue ::
    "comparator \<Rightarrow> pomdp \<Rightarrow> nat list \<Rightarrow> refinementComponents \<Rightarrow> belief \<Rightarrow> rat" where
  "approximatedOverValue cc m observationResolutionVector res currentBelief =
     (let temp = computeSubSimplexAndLambdas cc (beliefProbabilities currentBelief)
                   (observationResolutionVector ! beliefObservation currentBelief) (getNumberOfStates m);
          subSimplex = fst temp;
          lambdas = snd temp
      in foldl (\<lambda>overApproxValue j.
            if isEqual cc (lambdas ! j) 0 then overApproxValue
            else case getBeliefIdInVector cc (beliefListR res) (beliefObservation currentBelief) (subSimplex ! j) of
                   None \<Rightarrow> overApproxValue + lambdas ! j
                 | Some approxId \<Rightarrow>
                     (case map_of (overApproxBeliefStateMap res) approxId of
                        Some st \<Rightarrow> overApproxValue + lambdas ! j * mapRead (overApproxMap res) st
                      | None \<Rightarrow> overApproxValue + lambdas ! j))
            0 [0..<length lambdas])"

text \<open>
  Lines 253--283: for every under-approximation state, in ascending order,
  the gap between the over- and the under-approximation's value of its
  belief, accumulated per observation.
\<close>

definition observationScores :: "comparator \<Rightarrow> pomdp \<Rightarrow> nat list \<Rightarrow> refinementComponents \<Rightarrow> rat list" where
  "observationScores cc m observationResolutionVector res =
     foldl (\<lambda>obsAccumulator (state, bid).
         (let currentBelief = beliefListR res ! bid;
              obs = beliefObservation currentBelief;
              diff = (case map_of (overApproxBeliefStateMap res) bid of
                        Some st \<Rightarrow> mapRead (overApproxMap res) st - mapRead (underApproxMapR res) state
                      | None \<Rightarrow> approximatedOverValue cc m observationResolutionVector res currentBelief
                                - mapRead (underApproxMapR res) state)
          in obsAccumulator[obs := obsAccumulator ! obs + diff]))
       (replicate (nrObservations m) 0)
       (sort_key fst (map (\<lambda>(bid, state). (state, bid)) (underApproxBeliefStateMapR res)))"

section \<open>The loop\<close>

text \<open>The loop guard (line 248): the gap between the bounds exceeds the precision.\<close>

definition gapExceeds :: "approxOptions \<Rightarrow> bool \<Rightarrow> refinementComponents \<Rightarrow> bool" where
  "gapExceeds opts minimize res =
     ((\<not> minimize \<and> refinementPrecision opts < overApproxValue res - underApproxValueR res) \<or>
      (minimize \<and> refinementPrecision opts < underApproxValueR res - overApproxValue res))"

text \<open>Lines 298--303: every observation gets one more than the largest resolution.\<close>

definition raiseResolutions :: "pomdp \<Rightarrow> nat list \<Rightarrow> nat list" where
  "raiseResolutions m observationResolutionVector =
     (let maxRes = Max (set observationResolutionVector)
      in foldl (\<lambda>v i. v[i := Suc maxRes]) observationResolutionVector [0..<nrObservations m])"

text \<open>Lines 319--321: the size bound grows by 100 unless that could overflow 64 bits.\<close>

definition growModelSize :: "nat \<Rightarrow> nat" where
  "growModelSize underApproxModelSize =
     (if underApproxModelSize < 2 ^ 64 - 1 - 101 then underApproxModelSize + 100 else underApproxModelSize)"

text \<open>
  Lines 248--331: the \<open>while\<close> loop; the result is the step count and the last
  components, or the error of a refinement step.
\<close>

function refineReachabilityLoop ::
    "pomdp \<Rightarrow> approxOptions \<Rightarrow> (state \<Rightarrow> nat \<Rightarrow> rat)
     \<Rightarrow> (mdp \<Rightarrow> nat set \<Rightarrow> nat list \<Rightarrow> rewardModel option \<Rightarrow> bool \<Rightarrow> bool \<Rightarrow> rat list)
     \<Rightarrow> nat set \<Rightarrow> bool \<Rightarrow> bool \<Rightarrow> (nat \<Rightarrow> rat) \<Rightarrow> (nat \<Rightarrow> rat)
     \<Rightarrow> nat \<Rightarrow> refinementComponents \<Rightarrow> nat list \<Rightarrow> nat \<Rightarrow> (ua_error + nat \<times> refinementComponents) option" where
  "refineReachabilityLoop m opts R checker targetObservations minimize computeRewards initialOverApproxMap initialUnderApproxMap
       refinementCounter res observationResolutionVector underApproxModelSize =
     (if refinementCounter < 1000 \<and> gapExceeds opts minimize res
      then (let obsAccumulator = observationScores (checkerComparator opts) m observationResolutionVector res;
                lastMinScore = Max (set obsAccumulator);
                observationResolutionVector' = raiseResolutions m observationResolutionVector;
                changedObservations = set [0..<nrObservations m];
                underApproxModelSize' = growModelSize underApproxModelSize
            in case computeRefinementStep m opts R checker targetObservations minimize observationResolutionVector'
                      computeRewards res changedObservations (Some initialOverApproxMap) (Some initialUnderApproxMap)
                      underApproxModelSize' of
                 None \<Rightarrow> None
               | Some (Inl e) \<Rightarrow> Some (Inl e)
               | Some (Inr res') \<Rightarrow>
                   refineReachabilityLoop m opts R checker targetObservations minimize computeRewards initialOverApproxMap
                     initialUnderApproxMap (Suc refinementCounter) res' observationResolutionVector' underApproxModelSize')
      else Some (Inr (refinementCounter, res)))"
  by pat_completeness auto
termination
  by (relation "measure (\<lambda>(m, opts, R, checker, tobs, minimize, cr, io, iu, c, rest). 1000 - c)") auto

text \<open>
  \<open>refineReachability\<close> from the result of \<open>computeFirstRefinementStep\<close>
  (lines 233--245 and 332--337): a null result gives a null result, otherwise
  the loop runs from counter 1, the initial resolution for every observation
  and size bound 200, and the bounds are returned lower first when
  minimising.
\<close>

definition refineReachabilityFrom ::
    "pomdp \<Rightarrow> approxOptions \<Rightarrow> (state \<Rightarrow> nat \<Rightarrow> rat)
     \<Rightarrow> (mdp \<Rightarrow> nat set \<Rightarrow> nat list \<Rightarrow> rewardModel option \<Rightarrow> bool \<Rightarrow> bool \<Rightarrow> rat list)
     \<Rightarrow> nat set \<Rightarrow> bool \<Rightarrow> bool \<Rightarrow> (nat \<Rightarrow> rat) \<Rightarrow> (nat \<Rightarrow> rat) \<Rightarrow> refinementComponents option
     \<Rightarrow> (ua_error + (rat \<times> rat) option) option" where
  "refineReachabilityFrom m opts R checker targetObservations minimize computeRewards initialOverApproxMap
       initialUnderApproxMap firstStep =
     (case firstStep of
        None \<Rightarrow> Some (Inr None)
      | Some res \<Rightarrow>
          osbind (refineReachabilityLoop m opts R checker targetObservations minimize computeRewards initialOverApproxMap
                    initialUnderApproxMap 1 res (replicate (nrObservations m) (initialGridResolution opts)) 200)
            (\<lambda>(refinementCounter, res').
               Some (Inr (Some (if minimize then (underApproxValueR res', overApproxValue res')
                                else (overApproxValue res', underApproxValueR res'))))))"

section \<open>Properties\<close>

declare refineReachabilityLoop.simps [simp del]



text \<open>
  C16: Whenever the bounds of the first refinement step are not already within
  the refinement precision, \<open>refineReachability\<close> enters its loop with the
  components \<open>computeFirstRefinementStep\<close> returned, and the first
  \<open>computeRefinementStep\<close> fails with \<open>std::out_of_range\<close>: the refinement
  never produces a result, whatever the model, the options and the bounds.
\<close>

theorem refineReachability_first_refinement_fails:
  assumes "gapExceeds opts minimize (firstRefinementComponents exploredMdp computedValue ua initialBelief)"
  shows "refineReachabilityFrom m opts R checker tobs minimize cr io iu
           (Some (firstRefinementComponents exploredMdp computedValue ua initialBelief)) = Some (Inl OutOfRange)"
proof -
  have "overApproxBeliefStateMap (firstRefinementComponents exploredMdp computedValue ua initialBelief) = []"
    by (simp add: firstRefinementComponents_def)
  then show ?thesis
    using assms
    by (simp add: refineReachabilityFrom_def refineReachabilityLoop.simps Let_def computeRefinementStep_empty_bimap)
qed

theorem refineReachability_first_refinement_fails_witness:
  "gapExceeds defaultOptions False (firstRefinementComponents (buildTransitionMatrix [[[(0, 1)]]]) 1
     \<lparr>underApproxValue = 0, underApproxMap = [0], underApproxBeliefStateMap = []\<rparr> 0) \<and>
   refineReachabilityFrom ex_belief_pomdp defaultOptions (\<lambda>_ _. 0) (\<lambda>_ _ _ _ _ _. []) {1} False False (\<lambda>_. 1) (\<lambda>_. 0)
     (Some (firstRefinementComponents (buildTransitionMatrix [[[(0, 1)]]]) 1
        \<lparr>underApproxValue = 0, underApproxMap = [0], underApproxBeliefStateMap = []\<rparr> 0)) = Some (Inl OutOfRange)"
proof -
  have g: "gapExceeds defaultOptions False (firstRefinementComponents (buildTransitionMatrix [[[(0, 1)]]]) 1
     \<lparr>underApproxValue = 0, underApproxMap = [0], underApproxBeliefStateMap = []\<rparr> 0)"
    by (simp add: gapExceeds_def defaultOptions_def firstRefinementComponents_def)
  show ?thesis
    using refineReachability_first_refinement_fails [OF g] g by simp
qed

end
