(* ===== verification/Spec2Isabelle.thy ===== *)
theory Spec2Isabelle
  imports QuotientStore Signature MtbddAbstract RewardModel Jani DetScheds AssumptionMaker MemlessSearch RefinementLoop
begin

text \<open>
  \<^bold>\<open>A verification development for parts of storm.\<close>

  \<^bold>\<open>The parts and how they interact.\<close> The development models eight parts of the
  repository's implementation, each in its own theory on top of the shared
  \<open>Prelude\<close> (strict weak orders, a stable insertion sort with a comparator,
  list segments for iterator ranges, and the sum-type sequencing \<open>sbind\<close> /
  \<open>sfold\<close> for code that throws):
  \<^item> Bisimulation decomposition for MDPs
    (\<open>src/src/storage/bisimulation/NondeterministicModelBisimulationDecomposition.cpp\<close>).
    \<open>Comparator\<close> (the constants comparator), \<open>Distribution\<close> (sorted
    block-id maps, \<open>addProbability\<close>, \<open>shiftProbability\<close>, \<open>equals\<close>,
    \<open>less\<close>), \<open>Model\<close> (row groups and rows of the sparse MDP, the
    transposed matrix) and \<open>Partition\<close> (blocks, \<open>splitBlock\<close> by sort and
    maximal runs) are the collaborators outside \<open>src/\<close>, modelled from the
    specification. \<open>Decomposition\<close> holds the class: its state is the record
    \<open>decomposition\<close>, one definition per member function
    (\<open>createChoiceToStateMapping\<close>, \<open>initializeQuotientDistributions\<close>,
    \<open>updateQuotientDistributionsOfPredecessors\<close> with its loop body
    \<open>processPredecessorEntry\<close>, \<open>checkBlockStable\<close>,
    \<open>splitBlockAccordingToCurrentQuotientDistributions\<close>,
    \<open>quotientDistributionsLess\<close> as the lock-step walk \<open>signatureLess\<close> /
    \<open>skipEqual\<close>, \<open>refinePartitionBasedOnSplitter\<close>); the splitter queue is a
    list threaded through. \<open>Driver\<close> is the base class's queue loop, with
    fuel: \<open>None\<close> is running out of it; the scenarios below use 20, which
    their proofs show is more than the loop needs. \<open>QuotientStore\<close> proves
    that every step keeps the mass of each choice's quotient distribution,
    \<open>Signature\<close> that the walk is a strict weak order that separates
    signatures with different sets of distributions.
  \<^item> Storm's sylvan MTBDD extensions (\<open>src/resources/3rdparty/sylvan/src/sylvan_mtbdd_storm.c\<close>):
    \<open>Mtbdd\<close> has the leaf type (int64 as \<open>64 word\<close>, double as a real,
    fractions as packed \<open>64 word\<close>s) and every leaf operation
    (\<open>mtbdd_op_divide\<close>, \<open>_equals\<close>, \<open>_less\<close>, \<open>_less_or_equal\<close>, \<open>_pow\<close>,
    \<open>_mod\<close>, \<open>_logxy\<close>, \<open>_not_zero\<close>, \<open>_floor\<close>, \<open>_ceil\<close>, \<open>_bool_to_double\<close>,
    \<open>_bool_to_int64\<close>, \<open>_complement\<close>), with their 32-bit packing and 64-bit
    cross products proved free of overflow. \<open>MtbddDiagram\<close> has diagrams as
    trees (a hash-consed node is a subtree), \<open>mtbdd_makenode\<close> and
    \<open>mtbdd_uapply\<close> from sylvan, the lifted operations and
    \<open>mtbdd_non_zero_count\<close>, with the evaluation semantics \<open>mtbdd_eval\<close>.
    \<open>MtbddAbstract\<close> has the structural hash \<open>mtbdd_sha2_rec\<close> /
    \<open>mtbdd_getsha\<close> (the chunks fed to SHA256, which is a parameter; the
    node marks are the set of visited nodes) and the representative
    abstractions \<open>mtbdd_minExistsRepresentative\<close> (a total function by the
    sizes of the diagram and the cube; the sylvan calls it makes,
    \<open>mtbdd_ite\<close>, \<open>mtbdd_abstract_min\<close>, \<open>mtbdd_less_or_equal_as_bdd\<close> and
    \<open>mtbdd_get_complement\<close>, are the record \<open>mtbddLib\<close> of partial
    functions) and the stub \<open>mtbdd_maxExistsRepresentative\<close>.
  \<^item> The standard reward model (\<open>src/src/storm/models/sparse/StandardRewardModel.cpp\<close>),
    theory \<open>RewardModel\<close>: the record of three optional reward parts, every
    getter, setter and query, \<open>reduceToStateBasedRewards\<close> and the total
    reward vectors, on the matrix record of \<open>Model\<close>.
  \<^item> The JANI next-state generator (\<open>src/src/generator/JaniNextStateGenerator.cpp\<close>),
    theory \<open>Jani\<close>: compressed states as bit lists, the location fields,
    \<open>applyUpdate\<close>, the silent and non-silent choices with the command
    combination loop, \<open>getEnabledEdges\<close> and \<open>expand\<close>. Expressions are the
    functions of the expanded state that the evaluator computes; the state
    storage's id callback is a parameter.
  \<^item> The deterministic-scheduler weight-vector checker
    (\<open>.../deterministicScheds/DetSchedsWeightVectorChecker.cpp\<close>), theory
    \<open>DetScheds\<close>: policy iteration over a scheduler evaluator record whose
    results are a parameter; the loop is a \<open>partial_function (option)\<close>.
  \<^item> The assumption maker of parametric monotonicity
    (\<open>src/src/storm-pars/analysis/AssumptionMaker.cpp\<close>), theory
    \<open>AssumptionMaker\<close>: the recursive case split over critical pairs with
    the lattice extender as a parameter, a \<open>partial_function (option)\<close>.
  \<^item> The memoryless strategy search for POMDPs
    (\<open>src/src/storm-pomdp/analysis/MemlessStrategySearchQualitative.cpp\<close>),
    theory \<open>MemlessSearch\<close>: the POMDP (\<open>Pomdp.h\<close>) as the MDP record of
    \<open>Model\<close> extended by the observations, the constructor's states per
    observation, and \<open>initialize\<close> as the list of assertions it adds to the
    SMT solver, one definition per block of the code (at most one action,
    paper comments 1 to 9); the expression manager's variables and
    expressions are datatypes with a truth value under an assignment,
    \<open>isLookaheadRequired\<close> is a parameter, and a read past the declared
    path variables, undefined in C++, is an error value.
  \<^item> The belief computations of the approximate POMDP model checker
    (\<open>src/src/storm-pomdp/modelchecker/ApproximatePOMDPModelchecker.cpp\<close>,
    lines 1040 to 1259), theory \<open>Belief\<close> on the POMDP record of
    \<open>MemlessSearch\<close>: a belief is the record \<open>belief\<close> (id, observation,
    and its \<open>std::map\<close> as a sorted \<open>distribution\<close>);
    \<open>buildTransitionMatrix\<close>, \<open>getBeliefIdInVector\<close> (with its loop body
    \<open>beliefMatches\<close>), \<open>getInitialBelief\<close>, the Freudenthal triangulation
    \<open>computeSubSimplexAndLambdas\<close> in its steps (\<open>triangulationX\<close>,
    \<open>floorPart\<close>, \<open>fracPart\<close>, \<open>vertices\<close>, \<open>vertexBelief\<close>,
    \<open>triangulationLambdas\<close>), \<open>computeObservationProbabilitiesAfterAction\<close>,
    \<open>getBeliefAfterActionAndObservation\<close> (the belief list and the target
    flags passed in and returned) and \<open>getRewardAfterAction\<close>; values are
    rationals and \<open>getSortedIndices\<close> is a stable sort by decreasing value.
    Theory \<open>UnderApprox\<close> adds \<open>computeUnderapproximation\<close> over the belief
    list (lines 822 to 950), which calls those functions: its local
    variables are the record \<open>uaState\<close>, one definition per loop body
    (\<open>exploreObservation\<close>, \<open>exploreAction\<close>, \<open>underApproxStep\<close>), the
    \<open>while\<close> loop \<open>exploreBeliefs\<close>, the MDP and its rewards
    (\<open>underApproxModel\<close>, filling the reward-model record of \<open>RewardModel\<close>
    with its \<open>setStateActionReward\<close>) and the value read at the initial
    belief's state; the \<open>boost::bimap\<close> is a list of pairs, its
    \<open>left.at\<close> fails with an error value, and the sparse model checker is
    a parameter. Theory \<open>Refinement\<close> adds the checker's options (lines 35
    to 52), the components \<open>computeFirstRefinementStep\<close> returns
    (\<open>firstRefinementComponents\<close>, lines 474 to 475) and
    \<open>computeRefinementStep\<close> (lines 479 to 805): its local variables are the
    record \<open>refState\<close>, with \<open>std::map\<close>s read by \<open>operator[]\<close> as total
    functions defaulting to zero; the pairs to recompute
    (\<open>relevantStates\<close>, \<open>statesAndActionsToCheck\<close>), their rows
    (\<open>refineStateActionPair\<close>, \<open>refineAction\<close>, \<open>refineObservation\<close>,
    the cached triangulation \<open>triangulateSuccessor\<close>, the grid insertion
    \<open>addGridSuccessor\<close> with the weighted-sum loop \<open>weightedSumLoop\<close>), the
    breadth-first expansion (\<open>expandStep\<close>, \<open>expandBeliefs\<close>), the rebuilt
    matrix and labels (\<open>rowGroupLoop\<close>, \<open>stateRowGroup\<close>,
    \<open>overApproxModel\<close>), and the rewards, the check and the
    under-approximation of \<open>UnderApprox\<close>. Theory \<open>RefinementLoop\<close> adds
    \<open>refineReachability\<close> from the result of the first step on (lines 233 to
    337): the observation scores (\<open>observationScores\<close>,
    \<open>approximatedOverValue\<close>), which the code computes and never reads, the
    loop guard \<open>gapExceeds\<close>, the resolution update \<open>raiseResolutions\<close>,
    the size bound \<open>growModelSize\<close>, the loop \<open>refineReachabilityLoop\<close>
    calling \<open>computeRefinementStep\<close>, and \<open>refineReachabilityFrom\<close>.

  \<^bold>\<open>What the lemmas show.\<close> For the decomposition: mass conservation of the
  quotient distributions through initialisation, every predecessor update and
  every refinement, up to the fixpoint of the driver; the signature order is a
  strict weak order (the requirement of \<open>std::sort\<close>) and incomparability is
  equality of the sets of distributions; the constructor's and
  \<open>getStatesWithProbability01\<close>'s errors; the two scenarios of the
  specification evaluated to their fixpoints. For sylvan: the leaf
  comparisons on fractions decide the order of the rationals, floor is right
  and ceil is one too large on integers, the
  lifted not-zero is pointwise correct, \<open>mtbdd_non_zero_count\<close> counts the
  satisfying assignments, the level word of the structural hash carries the
  variable and the flag of a non-constant high child, and the minimising
  representative has only constants and the argument's leaves as terminals,
  a leaf of the argument reaching it through the \<open>FIXME\<close> base case. For rewards: the total reward vector per choice, the
  double counting after \<open>reduceToStateBasedRewards\<close>, the failing weighted
  total, and that the reduction to state rewards fails exactly on models
  where some state has not exactly one choice. For JANI: a location round trip, that updates never move an
  automaton (the target location is never written), the misread location
  after a skipped automaton, the bounds of integer assignments, one choice per
  edge combination, that the combination loop reaches every combination (at
  the position of its rank), and that every expanded choice is a distribution. For the
  scheduler checker: the returned scheduler is stable and the improvement
  takes the last improving choice. For the assumption maker: both orders of a
  critical pair are explored and the recursion returns for an extender that
  finishes at a bounded depth. For the POMDP search: a satisfying assignment
  of the first initialisation's constraints picks the follow flag or an
  action per observation (at most one action for deterministic strategies);
  the reach clauses never name a continuation variable when states 0 and 1
  have observation 0 (the misplaced parenthesis at line 222); without
  lookahead, a target state's undeclared path variables are read. For the
  beliefs: the triangulation writes a belief of mass one as a convex
  combination of its sub-simplex (non-negative weights summing to one, for
  every order of equal fractional parts), every vertex of non-zero weight is
  a belief on the grid of the resolution, the grid search with the exact
  comparator is a search for an equal belief, and the successor computation
  keeps the belief list indexed by id with its target flags. For the
  under-approximation: the exploration loop terminates from every state for
  every cut-off (a step either counts a new belief, which it only does while
  the counter is at most \<open>maxModelSize\<close>, or shortens the queue), and from
  the initial belief it never fails and builds a square matrix whose row
  groups sit at their beliefs' states, with the initial belief at state 2 and
  a reward for every row. For the refinement step: the weighted-sum loop,
  which grows its own bound, terminates on every map with ascending keys and
  computes the bound-weighted sums; and on the components the first step
  returns, the refinement step fails at \<open>left.at(initialBeliefId)\<close>. For
  the refinement loop: when it returns it has stopped at the step limit or
  within the precision, and \<open>refineReachability\<close> fails whenever the first
  bounds are not already within the precision.

  \<^bold>\<open>Fuel and partiality.\<close> The decomposition driver has fuel (one unit per
  popped block); the policy iteration, the assumption maker's recursion and
  the belief exploration, the refinement step's expansion and its weighted-sum loop are partial functions whose \<open>None\<close> is a run that does not end, with theorems
  giving conditions under which they return. The JANI combination loop is a
  total function with a termination proof by the mixed-radix rank of the
  iterators, and the refinement loop one by its counter, bounded by 1000 as
  in the code.

  \<^bold>\<open>Not modelled.\<close> Of the approximate POMDP model checker, the
  pre-processing of \<open>refineReachability\<close> (lines 166 to 231: the underlying
  MDP checked by the sparse engine and a positional scheduler drawn with
  \<open>std::rand\<close>, whose value maps are parameters of the model), the body
  of \<open>computeFirstRefinementStep\<close> and the overload of
  \<open>computeUnderapproximation\<close> over a belief manager drive the belief
  manager, the belief MDP explorer and the sparse model checkers, all
  outside \<open>src/\<close>, and print statistics; the resource-abort test
  \<open>isTerminate\<close> of the modelled explorations, with its early returns, is
  not modelled; of the strategy
  search, \<open>analyze\<close> reads satisfying assignments back from the SMT solver
  and updates a \<open>WinningRegion\<close>, both outside \<open>src/\<close>; the headers
  (\<open>InternalSylvanDdManager.h\<close>, \<open>StateValuations.h\<close>,
  \<open>Portfolio.h\<close>, \<open>Formulas.h\<close>, \<open>TraParser.h\<close>,
  \<open>ContinuousToDiscreteTimeModelTransformer.h\<close>) only declare; the DFT API
  is file and stream export. Not modelled inside the modelled files: debug
  printing, \<open>buildQuotient\<close> (an unimplemented stub), the SMT enumeration of
  JANI's initial states, reward parameters of rational functions, and
  double rounding in the MTBDD leaf operations.
\<close>

section \<open>The scenarios of the specification\<close>

text \<open>
  Spec section 8, first scenario: state 0 moves to states 1 and 2 with
  probability 1/2 each, states 1 and 2 loop; the initial partition is
  \<open>{1}\<close> (target) and \<open>{0, 2}\<close>.
\<close>

definition ex_m :: mdp where
  "ex_m = \<lparr>rowGroupIndices = [0, 1, 2, 3], rows = [[(1, 1/2), (2, 1/2)], [(1, 1)], [(2, 1)]]\<rparr>"

definition ex_opts :: options where
  "ex_opts = \<lparr>bisimType = Strong, optimalityType = None\<rparr>"

definition ex_P :: partition where
  "ex_P = fromBlocks [[1], [0, 2]] [False, False]"

definition ex_D :: decomposition where
  "ex_D = the (projr (decompose exact_comparator ex_m ex_opts ex_P 20))"

text \<open>
  Second scenario: two states, each with a single self-loop, in one block.
\<close>

definition ex2_m :: mdp where
  "ex2_m = \<lparr>rowGroupIndices = [0, 1, 2], rows = [[(0, 1)], [(1, 1)]]\<rparr>"

definition ex2_P :: partition where
  "ex2_P = fromBlocks [[0, 1]] [False]"

lemma decompose_ex_shape:
  "map_sum id (map_option (\<lambda>_. ())) (decompose exact_comparator ex_m ex_opts ex_P 20) = Inr (Some ())"
  by code_simp

lemma decompose_ex: "decompose exact_comparator ex_m ex_opts ex_P 20 = Inr (Some ex_D)"
  using decompose_ex_shape
  by (cases "decompose exact_comparator ex_m ex_opts ex_P 20") (auto simp: ex_D_def split: option.splits)

lemma mdp_wf_ex_m: "mdp_wf ex_m"
  by (simp add: mdp_wf_def ex_m_def numberOfChoices_def numberOfStates_def)

text \<open>
  First scenario: the block \<open>{0, 2}\<close> splits, because the quotient
  distribution of state 0 (\<open>{target: 1/2, rest: 1/2}\<close>) differs from that
  of state 2; the fixpoint has three singleton blocks (state 1 keeps block 0,
  state 0 keeps block 1, state 2 gets the fresh block 2) and the stored
  quotient distributions are over those blocks.
\<close>

theorem scenario_three_singletons:
  "map_sum id (map_option (\<lambda>D. (stateBlock (dpart D), ranges (dpart D), quotientDistributions D)))
     (decompose exact_comparator ex_m ex_opts ex_P 20) =
   Inr (Some ([1, 0, 2], [(0, 1), (2, 3), (1, 2)], [[(0, 1/2), (2, 1/2)], [(0, 1)], [(2, 1)]]))"
  by code_simp

text \<open>
  Second scenario: two states whose single choices lead into their common
  block are never split.
\<close>

theorem scenario_selfloops_not_split:
  "map_sum id (map_option (\<lambda>D. (stateBlock (dpart D), ranges (dpart D))))
     (decompose exact_comparator ex2_m ex_opts ex2_P 20) = Inr (Some ([0, 0], [(0, 2)]))"
  by code_simp

text \<open>
  At the fixpoint of the first scenario the debug checks of the source
  pass: every block is stable (\<open>checkBlockStable\<close>) and every stored
  quotient distribution agrees with a rebuild from scratch, with ordered
  signatures (\<open>checkQuotientDistributions\<close>).
\<close>

theorem scenario_fixpoint_checks:
  "list_all (checkBlockStable exact_comparator ex_m ex_D) [0..<blockCount (dpart ex_D)] \<and>
   checkQuotientDistributions exact_comparator ex_m ex_D"
  by code_simp

text \<open>Witnesses of the theorems with hypotheses.\<close>

theorem decompose_mass_conservation_witness:
  "mdp_wf ex_m \<and> decompose exact_comparator ex_m ex_opts ex_P 20 = Inr (Some ex_D) \<and>
   masses ex_D = map (rowMass exact_comparator) (rows ex_m)"
  using decompose_mass_conservation [OF mdp_wf_ex_m decompose_ex] mdp_wf_ex_m decompose_ex by simp

theorem refine_skips_stable_blocks_witness:
  "(blockSize (dpart ex_D) 0 \<le> 1 \<or> isAbsorbing (dpart ex_D) 0) \<and>
   refinePartitionBasedOnSplitter exact_comparator ex_m 0 (ex_D, []) = (ex_D, [])"
proof -
  have h: "blockSize (dpart ex_D) 0 \<le> 1 \<or> isAbsorbing (dpart ex_D) 0"
    by code_simp
  show ?thesis using h refine_skips_stable_blocks [OF h] by simp
qed

theorem choiceToStateMapping_correct_witness:
  "mdp_wf ex_m \<and> length (choiceToStateMapping ex_D) = numberOfChoices ex_m \<and> 1 < numberOfChoices ex_m \<and>
   choiceToStateMapping (createChoiceToStateMapping ex_m ex_D) ! 1 < numberOfStates ex_m \<and>
   1 \<in> set (choicesOf ex_m (choiceToStateMapping (createChoiceToStateMapping ex_m ex_D) ! 1))"
proof -
  have l: "length (choiceToStateMapping ex_D) = numberOfChoices ex_m"
    by code_simp
  have c: "1 < numberOfChoices ex_m" by (simp add: ex_m_def numberOfChoices_def)
  show ?thesis using choiceToStateMapping_correct [OF mdp_wf_ex_m l c] mdp_wf_ex_m l c by simp
qed

theorem signature_incomparable_iff_same_set_witness:
  "sig_wf [[(0, 1)]] \<and> sig_wf [[(0, 1)], [(0, 1)]] \<and>
   \<not> signatureLess exact_comparator [[(0, 1)]] [[(0, 1)], [(0, 1)]] \<and>
   \<not> signatureLess exact_comparator [[(0, 1)], [(0, 1)]] [[(0, 1)]]"
proof -
  have w1: "sig_wf [[(0, 1)]]" and w2: "sig_wf [[(0, 1)], [(0, 1)]]"
    by (simp_all add: sig_wf_def dist_wf_def)
  have "set [[(0::nat, 1::rat)]] = set [[(0, 1)], [(0, 1)]]" by simp
  then show ?thesis using signature_incomparable_iff_same_set [OF w1 w2] w1 w2 by (simp only: simp_thms)
qed

end
